(* ===== verification/Prelude.thy ===== *)
theory Prelude
  imports Main "HOL-Library.Word" "HOL-Library.Signed_Division"
begin

text \<open>
  Shared vocabulary of the screen-capture development: the machine types of the C++ sources
  (\<open>uint8_t\<close>, \<open>unsigned\<close>), a model of \<open>memcpy\<close> on a byte buffer, the view of a
  pixel buffer as a list of scanlines of \<open>stride\<close> bytes, and the list lemmas that the
  scanline and frame-buffer proofs share.  The collection \<open>rows_simps\<close> gathers the facts
  that move between a buffer and its rows.
\<close>

named_theorems rows_simps "moving between a byte buffer and its scanlines"

type_synonym byte = "8 word"
type_synonym u32 = "32 word"
type_synonym handle = nat

subsection \<open>Byte buffers and memcpy\<close>

text \<open>
  A buffer is the list of its bytes.  \<open>buf_read b off n\<close> is the \<open>n\<close> bytes at offset
  \<open>off\<close> (the source of a \<open>memcpy\<close>); \<open>buf_write b off src\<close> is \<open>b\<close> after
  \<open>memcpy(b + off, src, length src)\<close>.  Callers of \<open>buf_write\<close> keep the copy inside the
  buffer; the lemmas below carry that side condition.
\<close>

definition buf_read :: "'a list \<Rightarrow> nat \<Rightarrow> nat \<Rightarrow> 'a list" where
  "buf_read b off n = take n (drop off b)"

definition buf_write :: "'a list \<Rightarrow> nat \<Rightarrow> 'a list \<Rightarrow> 'a list" where
  "buf_write b off src = take off b @ src @ drop (off + length src) b"

text \<open>The scanlines of a buffer of \<open>h\<close> rows of \<open>s\<close> bytes each, row 0 first.\<close>

definition rows_of :: "nat \<Rightarrow> nat \<Rightarrow> 'a list \<Rightarrow> 'a list list" where
  "rows_of s h b = map (\<lambda>i. take s (drop (i * s) b)) [0..<h]"

definition uniform_rows :: "nat \<Rightarrow> 'a list list \<Rightarrow> bool" where
  "uniform_rows s rs \<longleftrightarrow> (\<forall>r \<in> set rs. length r = s)"

subsection \<open>Lemmas\<close>

lemma length_buf_write [simp]:
  "off + length src \<le> length b \<Longrightarrow> length (buf_write b off src) = length b"
  by (simp add: buf_write_def)

lemma length_buf_read [simp]:
  "off + n \<le> length b \<Longrightarrow> length (buf_read b off n) = n"
  by (simp add: buf_read_def)

lemma uniform_rows_Cons [simp]:
  "uniform_rows s (r # rs) \<longleftrightarrow> length r = s \<and> uniform_rows s rs"
  by (simp add: uniform_rows_def)

lemma uniform_rows_Nil [simp]: "uniform_rows s []"
  by (simp add: uniform_rows_def)

lemma uniform_rows_update [intro]:
  "uniform_rows s rs \<Longrightarrow> length r = s \<Longrightarrow> uniform_rows s (rs[i := r])"
  by (auto simp: uniform_rows_def dest: set_update_subset_insert [THEN subsetD])

lemma uniform_rows_rev [simp]: "uniform_rows s (rev rs) = uniform_rows s rs"
  by (simp add: uniform_rows_def)

lemma uniform_rows_nth:
  "uniform_rows s rs \<Longrightarrow> i < length rs \<Longrightarrow> length (rs ! i) = s"
  by (simp add: uniform_rows_def)

lemma length_concat_uniform [rows_simps]:
  "uniform_rows s rs \<Longrightarrow> length (concat rs) = length rs * s"
  by (induction rs) auto

lemma take_concat_uniform [rows_simps]:
  "uniform_rows s rs \<Longrightarrow> take (i * s) (concat rs) = concat (take i rs)"
proof (induction rs arbitrary: i)
  case Nil
  then show ?case by simp
next
  case (Cons r rs)
  then show ?case
    by (cases i) (simp_all add: add.commute [of s])
qed

lemma drop_concat_uniform [rows_simps]:
  "uniform_rows s rs \<Longrightarrow> drop (i * s) (concat rs) = concat (drop i rs)"
proof (induction rs arbitrary: i)
  case Nil
  then show ?case by simp
next
  case (Cons r rs)
  then show ?case
    by (cases i) (simp_all add: add.commute [of s])
qed

lemma row_of_concat:
  assumes "uniform_rows s rs" and "i < length rs"
  shows "take s (drop (i * s) (concat rs)) = rs ! i"
proof -
  have "drop i rs = rs ! i # drop (Suc i) rs"
    using assms(2) by (simp add: Cons_nth_drop_Suc)
  then have "drop (i * s) (concat rs) = rs ! i @ concat (drop (Suc i) rs)"
    using assms(1) by (simp add: drop_concat_uniform)
  then show ?thesis
    using assms by (simp add: uniform_rows_nth)
qed

lemma buf_read_row [rows_simps]:
  "uniform_rows s rs \<Longrightarrow> i < length rs \<Longrightarrow> buf_read (concat rs) (i * s) s = rs ! i"
  by (simp add: buf_read_def row_of_concat)

lemma buf_write_row [rows_simps]:
  assumes "uniform_rows s rs" and "i < length rs" and "length r = s"
  shows "buf_write (concat rs) (i * s) r = concat (rs[i := r])"
proof -
  have "drop (i * s + s) (concat rs) = concat (drop (Suc i) rs)"
    using assms drop_concat_uniform [of s rs "Suc i"] by (simp add: add.commute)
  then show ?thesis
    using assms by (simp add: buf_write_def take_concat_uniform upd_conv_take_nth_drop)
qed

lemma rows_of_concat [rows_simps]:
  assumes "uniform_rows s rs"
  shows "rows_of s (length rs) (concat rs) = rs"
proof (rule nth_equalityI)
  show "length (rows_of s (length rs) (concat rs)) = length rs"
    by (simp add: rows_of_def)
next
  fix i assume "i < length (rows_of s (length rs) (concat rs))"
  then have i: "i < length rs" by (simp add: rows_of_def)
  have "take s (drop (i * s) (concat rs)) = rs ! i"
    using assms i by (rule row_of_concat)
  then show "rows_of s (length rs) (concat rs) ! i = rs ! i"
    using i by (simp add: rows_of_def)
qed

lemma uniform_rows_of:
  "length b = h * s \<Longrightarrow> uniform_rows s (rows_of s h b)"
proof -
  assume len: "length b = h * s"
  have "length (take s (drop (i * s) b)) = s" if "i < h" for i
  proof -
    have "i * s + s \<le> h * s"
      using that by (metis Suc_leI mult_Suc mult_le_mono1 add.commute)
    then show ?thesis using len by simp
  qed
  then show ?thesis by (auto simp: uniform_rows_def rows_of_def)
qed

lemma concat_rows_of [rows_simps]:
  "length b = h * s \<Longrightarrow> concat (rows_of s h b) = b"
proof (induction h arbitrary: b)
  case 0
  then show ?case by (simp add: rows_of_def)
next
  case (Suc h)
  have "rows_of s (Suc h) b = take s b # rows_of s h (drop s b)"
    by (simp del: upt_Suc add: rows_of_def upt_conv_Cons map_Suc_upt [symmetric] add.commute)
  moreover have "concat (rows_of s h (drop s b)) = drop s b"
    using Suc by simp
  ultimately show ?case by simp
qed

lemma length_rows_of [simp]: "length (rows_of s h b) = h"
  by (simp add: rows_of_def)

subsection \<open>Intervals of handles\<close>

text \<open>Filtering an interval of handles \<open>[n0..<n]\<close>: extending it past handles the
  predicate rejects, and marking the newest one.\<close>

lemma upt_split: "i \<le> j \<Longrightarrow> j \<le> k \<Longrightarrow> [i..<k] = [i..<j] @ [j..<k]"
  using upt_add_eq_append [of i j "k - j"] by simp

lemma filter_upt_frame:
  assumes "n0 \<le> n" "n \<le> n'" "\<forall>h<n. P' h = P h" "\<forall>h<n. P h \<longrightarrow> f' h = f h"
    and "\<forall>h. n \<le> h \<longrightarrow> \<not> P' h"
  shows "map f' (filter P' [n0..<n']) = map f (filter P [n0..<n])"
proof -
  have "[n0..<n'] = [n0..<n] @ [n..<n']" using assms(1,2) by (rule upt_split)
  moreover have "filter P' [n..<n'] = []" using assms(5) by (simp add: filter_empty_conv)
  moreover have "filter P' [n0..<n] = filter P [n0..<n]" using assms(3) by (intro filter_cong) auto
  moreover have "map f' (filter P [n0..<n]) = map f (filter P [n0..<n])" using assms(4) by (intro map_cong) auto
  ultimately show ?thesis by simp
qed

lemma filter_upt_finalize:
  assumes "n0 \<le> w" "w < n" "\<forall>h. n0 \<le> h \<longrightarrow> P h \<longrightarrow> h < w" "\<not> P w"
  shows "filter (P(w := True)) [n0..<n] = filter P [n0..<n] @ [w]"
proof -
  have u: "[n0..<n] = [n0..<w] @ w # [Suc w..<n]"
  proof -
    have "[n0..<n] = [n0..<w] @ [w..<n]" using assms(1,2) by (intro upt_split) simp_all
    moreover have "[w..<n] = w # [Suc w..<n]" using assms(2) by (rule upt_conv_Cons)
    ultimately show ?thesis by simp
  qed
  have a: "filter (P(w := True)) [n0..<w] = filter P [n0..<w]" by (intro filter_cong) auto
  have np: "\<not> P h" if "Suc w \<le> h" for h
  proof
    assume "P h"
    then have "h < w" using assms(1,3) that by simp
    then show False using that by simp
  qed
  have b: "filter (P(w := True)) [Suc w..<n] = []" "filter P [Suc w..<n] = []"
    using np by (auto simp: filter_empty_conv)
  show ?thesis using assms(4) by (simp add: u a b)
qed

subsection \<open>Words\<close>

text \<open>A word below \<open>2^(n-1)\<close> reads the same signed and unsigned (a \<open>LONG\<close> or a
  \<open>LONGLONG\<close> holding a small unsigned value).\<close>

lemma sint_of_small:
  assumes "unat (x :: 'a::len word) < 2 ^ (LENGTH('a) - 1)"
  shows "sint x = int (unat x)"
proof -
  have u: "uint x < 2 ^ (LENGTH('a) - 1)" using assms by (metis of_nat_less_numeral_power_cancel_iff uint_nat)
  have "0 \<le> uint x" "0 \<le> (2 :: int) ^ (LENGTH('a) - 1)" by simp_all
  then have n: "- (2 ^ (LENGTH('a) - 1)) \<le> uint x" by linarith
  have "signed_take_bit (LENGTH('a) - 1) (uint x) = uint x"
    using u n by (intro signed_take_bit_int_eq_self)
  moreover have "sint x = signed_take_bit (LENGTH('a) - 1) (uint x)" by (simp only: sint_uint One_nat_def)
  ultimately show ?thesis by (simp only: uint_nat)
qed

lemma sint_small: "unat (x :: u32) < 2 ^ 31 \<Longrightarrow> sint x = int (unat x)"
  using sint_of_small [of x] by simp

end
