(* ===== verification/Scanlines.thy ===== *)
theory Scanlines
  imports Prelude
begin

text \<open>
  The in-place scanline reversal that \<open>ScreenCaptureGDI::CaptureFrame\<close>
  (src/ScreenCapGDI.cpp) runs after \<open>BitBlt\<close>, and that
  \<open>VideoFileEncoder::AddFrame\<close> (src/VideoFileEncoder.cpp) runs when \<open>flipY\<close> is set.
  Both walk two pointers \<open>scanline1\<close> (from the top) and \<open>scanline2\<close> (from the bottom)
  for \<open>height / 2\<close> iterations and swap the two rows through a temporary
  \<open>std::vector\<close> with three \<open>memcpy\<close> calls.  The loop is \<open>flip_loop\<close>; the pointers
  are byte offsets into the buffer.  The main result is that the loop computes the reversal
  of the list of rows (\<open>flip_scanlines_rows\<close>), so it is an involution and keeps the
  buffer's length.
\<close>

function flip_loop :: "nat \<Rightarrow> nat \<Rightarrow> nat \<Rightarrow> nat \<Rightarrow> nat \<Rightarrow> 'a list \<Rightarrow> 'a list" where
  "flip_loop stride h y p1 p2 b =
     (if y < h div 2 then
        (let scanline = buf_read b p1 stride;
             b1 = buf_write b p1 (buf_read b p2 stride);
             b2 = buf_write b1 p2 scanline
         in flip_loop stride h (Suc y) (p1 + stride) (p2 - stride) b2)
      else b)"
  by pat_completeness auto
termination
  by (relation "measure (\<lambda>(stride, h, y, p1, p2, b). h div 2 - y)") auto

declare flip_loop.simps [simp del]

text \<open>
  The whole flip: \<open>scanline1 = m_dibBits\<close>, \<open>scanline2 = m_dibBits + (m_height - 1) *
  m_stride\<close>, \<open>y = 0\<close>.  For \<open>h = 0\<close> the C++ start pointer wraps around, but the loop body
  never runs, so the buffer is returned unchanged either way.
\<close>

definition flip_scanlines :: "nat \<Rightarrow> nat \<Rightarrow> 'a list \<Rightarrow> 'a list" where
  "flip_scanlines stride h b = flip_loop stride h 0 0 ((h - 1) * stride) b"

text \<open>The reference: rows \<open>i\<close> and \<open>h - 1 - i\<close> exchanged for every \<open>i < y\<close>.\<close>

definition rows_swapped_upto :: "nat \<Rightarrow> 'a list list \<Rightarrow> 'a list list" where
  "rows_swapped_upto y rs =
     map (\<lambda>i. if i < y \<or> length rs - 1 - i < y then rs ! (length rs - 1 - i) else rs ! i)
         [0..<length rs]"

subsection \<open>One iteration swaps two rows\<close>

lemma flip_step_rows:
  assumes u: "uniform_rows s rs" and ij: "i < j" "j < length rs"
  shows "buf_write (buf_write (concat rs) (i * s) (buf_read (concat rs) (j * s) s)) (j * s)
            (buf_read (concat rs) (i * s) s)
         = concat (rs[i := rs ! j, j := rs ! i])"
proof -
  have ri: "buf_read (concat rs) (i * s) s = rs ! i" and rj: "buf_read (concat rs) (j * s) s = rs ! j"
    using u ij by (simp_all add: buf_read_row)
  have len: "length (rs ! i) = s" "length (rs ! j) = s"
    using u ij by (simp_all add: uniform_rows_nth)
  have "buf_write (concat rs) (i * s) (rs ! j) = concat (rs[i := rs ! j])"
    using u ij len by (simp add: buf_write_row)
  moreover have "uniform_rows s (rs[i := rs ! j])"
    using u len by blast
  ultimately show ?thesis
    using ri rj ij len by (simp add: buf_write_row)
qed

lemma length_rows_swapped_upto [simp]: "length (rows_swapped_upto y rs) = length rs"
  by (simp add: rows_swapped_upto_def)

lemma uniform_rows_swapped_upto:
  "uniform_rows s rs \<Longrightarrow> uniform_rows s (rows_swapped_upto y rs)"
  by (auto simp: rows_swapped_upto_def uniform_rows_def)

lemma rows_swapped_upto_0 [simp]: "rows_swapped_upto 0 rs = rs"
  by (rule nth_equalityI) (simp_all add: rows_swapped_upto_def)

lemma rows_swapped_upto_Suc:
  assumes "y < length rs div 2"
  shows "rows_swapped_upto (Suc y) rs =
           (rows_swapped_upto y rs)[y := rows_swapped_upto y rs ! (length rs - 1 - y),
                                    length rs - 1 - y := rows_swapped_upto y rs ! y]"
  using assms by (intro nth_equalityI) (auto simp: rows_swapped_upto_def nth_list_update)

lemma middle_row:
  "i < n \<Longrightarrow> \<not> i < n div 2 \<Longrightarrow> \<not> n - Suc i < n div 2 \<Longrightarrow> n - Suc i = i"
  by arith

lemma rows_swapped_upto_half:
  "rows_swapped_upto (length rs div 2) rs = rev rs"
  by (intro nth_equalityI) (auto simp: rows_swapped_upto_def rev_nth dest: middle_row)

subsection \<open>The loop reverses the rows\<close>

lemma flip_loop_rows:
  assumes u: "uniform_rows s rs" and "y \<le> length rs div 2"
  shows "flip_loop s (length rs) y (y * s) ((length rs - 1 - y) * s)
           (concat (rows_swapped_upto y rs)) = concat (rev rs)"
  using assms(2)
proof (induction "length rs div 2 - y" arbitrary: y)
  case 0
  then have "y = length rs div 2" by simp
  then show ?case
    by (subst flip_loop.simps) (simp add: rows_swapped_upto_half)
next
  case (Suc k)
  let ?h = "length rs"
  let ?cur = "rows_swapped_upto y rs"
  have lt: "y < ?h div 2" using Suc.hyps(2) by simp
  have uc: "uniform_rows s ?cur"
    using u by (rule uniform_rows_swapped_upto)
  have step: "buf_write (buf_write (concat ?cur) (y * s) (buf_read (concat ?cur) ((?h - 1 - y) * s) s))
                ((?h - 1 - y) * s) (buf_read (concat ?cur) (y * s) s)
              = concat (rows_swapped_upto (Suc y) rs)"
    using flip_step_rows [OF uc, of y "?h - 1 - y"] lt
    by (simp add: rows_swapped_upto_Suc)
  have p: "y * s + s = Suc y * s" "(?h - 1 - y) * s - s = (?h - 1 - Suc y) * s"
    by (simp_all add: diff_mult_distrib)
  have "k = ?h div 2 - Suc y" and "Suc y \<le> ?h div 2"
    using Suc.hyps(2) by simp_all
  then have "flip_loop s ?h (Suc y) (Suc y * s) ((?h - 1 - Suc y) * s)
               (concat (rows_swapped_upto (Suc y) rs)) = concat (rev rs)"
    by (rule Suc.hyps(1))
  then have "flip_loop s ?h (Suc y) (y * s + s) ((?h - 1 - y) * s - s)
               (concat (rows_swapped_upto (Suc y) rs)) = concat (rev rs)"
    by (simp only: p)
  then show ?case
    using lt step by (simp add: flip_loop.simps [of s ?h y] Let_def)
qed

theorem flip_scanlines_rows:
  assumes "uniform_rows s rs"
  shows "flip_scanlines s (length rs) (concat rs) = concat (rev rs)"
  using flip_loop_rows [OF assms, of 0] by (simp add: flip_scanlines_def)

lemma flip_scanlines_buffer:
  assumes "length b = h * s"
  shows "flip_scanlines s h b = concat (rev (rows_of s h b))"
proof -
  have "flip_scanlines s h b = flip_scanlines s (length (rows_of s h b)) (concat (rows_of s h b))"
    using assms by (simp add: concat_rows_of)
  also have "\<dots> = concat (rev (rows_of s h b))"
    by (rule flip_scanlines_rows [OF uniform_rows_of [OF assms]])
  finally show ?thesis .
qed

lemma length_flip_scanlines [simp]:
  "length b = h * s \<Longrightarrow> length (flip_scanlines s h b) = length b"
  by (simp add: flip_scanlines_buffer length_concat_uniform uniform_rows_of concat_rows_of)

lemma rows_of_flip_scanlines:
  assumes "length b = h * s"
  shows "rows_of s h (flip_scanlines s h b) = rev (rows_of s h b)"
proof -
  have "uniform_rows s (rev (rows_of s h b))"
    using assms by (simp add: uniform_rows_of)
  then show ?thesis
    using assms rows_of_concat [of s "rev (rows_of s h b)"]
    by (simp add: flip_scanlines_buffer)
qed

text \<open>
  C1: the in-place flip loop of \<open>ScreenCaptureGDI::CaptureFrame\<close> puts scanline
  \<open>h - 1 - y\<close> of the input at scanline \<open>y\<close> of the output, for every row of a buffer of
  \<open>h\<close> rows of \<open>s\<close> bytes: the loop is the reversal of the rows.
\<close>

theorem flip_scanlines_reverses_rows:
  assumes "length b = h * s" and "y < h"
  shows "rows_of s h (flip_scanlines s h b) ! y = rows_of s h b ! (h - 1 - y)"
  using assms by (simp add: rows_of_flip_scanlines rev_nth)

theorem flip_scanlines_reverses_rows_witness:
  "length [1, 2, 3, 4, 5, 6 :: byte] = 3 * 2 \<and> (1::nat) < 3 \<and>
   rows_of 2 3 (flip_scanlines 2 3 [1, 2, 3, 4, 5, 6 :: byte]) ! 1 = [3, 4]"
proof -
  have "rows_of 2 3 (flip_scanlines 2 3 [1, 2, 3, 4, 5, 6 :: byte]) ! 1
          = rows_of 2 3 [1, 2, 3, 4, 5, 6 :: byte] ! (3 - 1 - 1)"
    by (rule flip_scanlines_reverses_rows) simp_all
  then show ?thesis by (simp add: rows_of_def)
qed

end
