(* ===== verification/Platform.thy ===== *)
theory Platform
  imports Prelude
begin

text \<open>
  The part of Windows that the two capture backends talk to, as far as their correctness
  depends on it.  One record \<open>os\<close> holds:
  \<^item> an object store: every GDI object (DCs, bitmaps) and every COM interface reference
    (D3D11 device and context, DXGI interfaces, textures) is a handle with a reference count;
    a count of 0 means the object is freed.  \<open>live_set\<close> is the set of live handles, and
    leak freedom is stated as an equation on it;
  \<^item> which bitmap is selected into which memory DC (\<open>SelectObject\<close>), with the GDI rule
    that \<open>DeleteObject\<close> fails on a bitmap still selected into a live DC;
  \<^item> the pixel contents of textures (\<open>CopyResource\<close>, \<open>Map\<close>);
  \<^item> the desktop duplication's queue of pending \<open>AcquireNextFrame\<close> results (the screen
    updates the compositor will deliver) and whether a duplication holds an acquired frame
    that has not been released (DXGI refuses a second acquisition with
    \<open>DXGI_ERROR_INVALID_CALL\<close> until \<open>ReleaseFrame\<close>);
  \<^item> a clock in milliseconds, advanced by blocking calls by their worst-case duration.
  The system calls are the executable functions below; the backends are written over them.
\<close>

subsection \<open>Results of system calls\<close>

datatype hresult =
    S_OK
  | E_FAIL
  | E_NOINTERFACE
  | DXGI_ERROR_WAIT_TIMEOUT
  | DXGI_ERROR_INVALID_CALL
  | DXGI_ERROR_ACCESS_LOST
  | DXGI_ERROR_NOT_FOUND
  | DXGI_ERROR_UNSUPPORTED

definition SUCCEEDED :: "hresult \<Rightarrow> bool" where
  "SUCCEEDED hr \<longleftrightarrow> hr = S_OK"

text \<open>
  What the desktop duplication delivers on one \<open>AcquireNextFrame\<close> call: a time-out (no
  screen update within the wait), loss of access (desktop switch, mode change, full-screen
  application), or success with the frame's \<open>LastPresentTime.QuadPart\<close> and, when the
  call filled in the desktop resource, the resource's pixel bytes as a CPU mapping of it lays
  them out.
\<close>

datatype acquire_outcome =
    Acq_Timeout
  | Acq_AccessLost
  | Acq_Frame int "byte list option"

subsection \<open>The state\<close>

record os =
  os_next :: handle
  os_refs :: "handle \<Rightarrow> nat"
  os_dc_bmp :: "handle \<Rightarrow> handle option"
  os_bmp_dc :: "handle \<Rightarrow> handle option"
  os_tex :: "handle \<Rightarrow> byte list"
  os_frames :: "acquire_outcome list"
  os_held :: "handle \<Rightarrow> bool"
  os_ms :: nat

text \<open>Handle 0 is the stock 1x1 bitmap every new memory DC starts with; it is never freed.\<close>

definition stock_bitmap :: handle where
  "stock_bitmap = 0"

definition live :: "os \<Rightarrow> handle \<Rightarrow> bool" where
  "live s h \<longleftrightarrow> 0 < os_refs s h"

definition live_set :: "os \<Rightarrow> handle set" where
  "live_set s = {h. live s h}"

text \<open>Handles at or above \<open>os_next\<close> have never been handed out.\<close>

definition os_wf :: "os \<Rightarrow> bool" where
  "os_wf s \<longleftrightarrow> 0 < os_next s \<and> (\<forall>h. os_next s \<le> h \<longrightarrow> os_refs s h = 0)"

text \<open>\<open>s'\<close> differs from \<open>s\<close> at most in the reference counts and the allocation counter.\<close>

definition os_refs_only :: "os \<Rightarrow> os \<Rightarrow> bool" where
  "os_refs_only s s' \<longleftrightarrow> s' = s\<lparr>os_next := os_next s', os_refs := os_refs s'\<rparr>"

subsection \<open>Objects and references\<close>

definition os_create :: "os \<Rightarrow> handle \<times> os" where
  "os_create s = (os_next s, s\<lparr>os_next := Suc (os_next s), os_refs := (os_refs s)(os_next s := 1)\<rparr>)"

definition os_addref :: "handle \<Rightarrow> os \<Rightarrow> os" where
  "os_addref h s = s\<lparr>os_refs := (os_refs s)(h := Suc (os_refs s h))\<rparr>"

definition os_release :: "handle \<Rightarrow> os \<Rightarrow> os" where
  "os_release h s = s\<lparr>os_refs := (os_refs s)(h := os_refs s h - 1)\<rparr>"

subsection \<open>GDI\<close>

text \<open>\<open>GetDC(GetDesktopWindow())\<close> and \<open>ReleaseDC\<close>: a reference to the screen DC.\<close>

definition get_dc :: "os \<Rightarrow> handle \<times> os" where
  "get_dc s = os_create s"

definition release_dc :: "handle \<Rightarrow> os \<Rightarrow> os" where
  "release_dc h s = os_release h s"

text \<open>\<open>CreateCompatibleDC\<close>: a new memory DC holding the stock bitmap, or \<open>NULL\<close>.\<close>

definition create_compatible_dc :: "bool \<Rightarrow> os \<Rightarrow> handle option \<times> os" where
  "create_compatible_dc ok s =
     (if ok then (let (h, s1) = os_create s in
                  (Some h, s1\<lparr>os_dc_bmp := (os_dc_bmp s1)(h \<mapsto> stock_bitmap)\<rparr>))
      else (None, s))"

text \<open>
  \<open>CreateDIBSection\<close> of a \<open>w\<close> by \<open>h\<close> bitmap at 32 bits per pixel: a new bitmap and
  its pixel memory of \<open>4 * w\<close> bytes per row (a 32-bit row is always DWORD-aligned), or
  \<open>NULL\<close> and a \<open>NULL\<close> bits pointer.
\<close>

definition create_dib_section :: "bool \<Rightarrow> nat \<Rightarrow> nat \<Rightarrow> os \<Rightarrow> (handle \<times> byte list) option \<times> os" where
  "create_dib_section ok w h s =
     (if ok then (let (b, s1) = os_create s in (Some (b, replicate (4 * w * h) 0), s1))
      else (None, s))"

text \<open>\<open>SelectObject(dc, bmp)\<close>: returns the previously selected bitmap, \<open>NULL\<close> on a dead DC.\<close>

definition select_object :: "handle \<Rightarrow> handle \<Rightarrow> os \<Rightarrow> handle option \<times> os" where
  "select_object dc b s =
     (if live s dc then
        (let old = os_dc_bmp s dc in
         (old, s\<lparr>os_dc_bmp := (os_dc_bmp s)(dc \<mapsto> b),
                 os_bmp_dc := (case old of None \<Rightarrow> os_bmp_dc s
                               | Some ob \<Rightarrow> (os_bmp_dc s)(ob := None))(b \<mapsto> dc)\<rparr>))
      else (None, s))"

definition delete_dc :: "handle \<Rightarrow> os \<Rightarrow> os" where
  "delete_dc dc s = (os_release dc s)\<lparr>os_dc_bmp := (os_dc_bmp s)(dc := None)\<rparr>"

text \<open>\<open>DeleteObject\<close> fails, and frees nothing, on a bitmap selected into a live DC.\<close>

definition delete_object :: "handle \<Rightarrow> os \<Rightarrow> bool \<times> os" where
  "delete_object b s =
     (case os_bmp_dc s b of
        Some dc \<Rightarrow> if live s dc then (False, s) else (True, os_release b s)
      | None \<Rightarrow> (True, os_release b s))"

subsection \<open>DXGI output duplication\<close>

text \<open>
  \<open>IDXGIOutputDuplication::AcquireNextFrame(timeout, ...)\<close> on duplication \<open>d\<close>: with a
  frame still held, \<open>DXGI_ERROR_INVALID_CALL\<close>; with no update pending, it waits the whole
  timeout and returns \<open>DXGI_ERROR_WAIT_TIMEOUT\<close>; otherwise it takes the next result from
  the queue.  The queue does not say when a result arrives, so every call that waits (all but
  the immediate \<open>DXGI_ERROR_INVALID_CALL\<close>) is charged the whole timeout: the clock is the
  worst-case duration.  A successful call holds the frame; a returned desktop resource is a new
  reference-counted object whose texture holds the frame's pixels.  The result is the
  HRESULT, the present time and the resource handle, if any.
\<close>

definition dupl_acquire :: "nat \<Rightarrow> handle \<Rightarrow> os \<Rightarrow> (hresult \<times> int \<times> handle option) \<times> os" where
  "dupl_acquire timeout d s =
     (if os_held s d then ((DXGI_ERROR_INVALID_CALL, 0, None), s)
      else case os_frames s of
        [] \<Rightarrow> ((DXGI_ERROR_WAIT_TIMEOUT, 0, None), s\<lparr>os_ms := os_ms s + timeout\<rparr>)
      | Acq_Timeout # rest \<Rightarrow>
          ((DXGI_ERROR_WAIT_TIMEOUT, 0, None), s\<lparr>os_frames := rest, os_ms := os_ms s + timeout\<rparr>)
      | Acq_AccessLost # rest \<Rightarrow>
          ((DXGI_ERROR_ACCESS_LOST, 0, None), s\<lparr>os_frames := rest, os_ms := os_ms s + timeout\<rparr>)
      | Acq_Frame t img # rest \<Rightarrow>
          (let s1 = s\<lparr>os_frames := rest, os_held := (os_held s)(d := True), os_ms := os_ms s + timeout\<rparr> in
           case img of
             None \<Rightarrow> ((S_OK, t, None), s1)
           | Some px \<Rightarrow> (let (r, s2) = os_create s1 in
                          ((S_OK, t, Some r), s2\<lparr>os_tex := (os_tex s2)(r := px)\<rparr>))))"

definition dupl_release_frame :: "handle \<Rightarrow> os \<Rightarrow> os" where
  "dupl_release_frame d s = s\<lparr>os_held := (os_held s)(d := False)\<rparr>"

definition os_sleep :: "nat \<Rightarrow> os \<Rightarrow> os" where
  "os_sleep ms s = s\<lparr>os_ms := os_ms s + ms\<rparr>"

subsection \<open>Lemmas on the object store\<close>

named_theorems os_simps "effect of the system calls on the fields of the platform state"

lemma live_set_os_create [os_simps]:
  "live_set (snd (os_create s)) = insert (os_next s) (live_set s)"
  by (auto simp: os_create_def live_set_def live_def)

lemma os_create_fresh:
  "os_wf s \<Longrightarrow> os_next s \<notin> live_set s"
  by (simp add: os_wf_def live_set_def live_def)

lemma os_wf_create [intro]:
  "os_wf s \<Longrightarrow> os_wf (snd (os_create s))"
  by (auto simp: os_wf_def os_create_def)

lemma os_wf_release [intro]:
  "os_wf s \<Longrightarrow> os_wf (os_release h s)"
  by (auto simp: os_wf_def os_release_def)

lemma live_set_os_release_one [os_simps]:
  "os_refs s h \<le> 1 \<Longrightarrow> live_set (os_release h s) = live_set s - {h}"
  by (auto simp: os_release_def live_set_def live_def)

lemma live_set_os_release_many:
  "1 < os_refs s h \<Longrightarrow> live_set (os_release h s) = live_set s"
  by (auto simp: os_release_def live_set_def live_def)

lemma os_release_addref [simp]:
  "os_release h (os_addref h s) = s"
  by (simp add: os_release_def os_addref_def)

lemma refs_os_create [simp]:
  "os_refs (snd (os_create s)) h = (if h = os_next s then 1 else os_refs s h)"
  by (simp add: os_create_def)

lemma refs_os_release [simp]:
  "os_refs (os_release h' s) h = (if h = h' then os_refs s h - 1 else os_refs s h)"
  by (simp add: os_release_def)

lemma fst_os_create [simp]: "fst (os_create s) = os_next s"
  by (simp add: os_create_def)

lemma next_os_create [simp]: "os_next (snd (os_create s)) = Suc (os_next s)"
  by (simp add: os_create_def)

lemma next_os_release [simp]: "os_next (os_release h s) = os_next s"
  by (simp add: os_release_def)

lemma os_create_eq: "os_create s = (os_next s, snd (os_create s))"
  by (simp add: os_create_def)

lemma refs_select_object [simp]: "os_refs (snd (select_object dc b s)) = os_refs s"
  by (simp add: select_object_def Let_def)

lemma next_select_object [simp]: "os_next (snd (select_object dc b s)) = os_next s"
  by (simp add: select_object_def Let_def)

lemma refs_delete_dc [simp]: "os_refs (delete_dc dc s) = (os_refs s)(dc := os_refs s dc - 1)"
  by (simp add: delete_dc_def os_release_def)

lemma next_delete_dc [simp]: "os_next (delete_dc dc s) = os_next s"
  by (simp add: delete_dc_def)

lemma next_delete_object [simp]: "os_next (snd (delete_object b s)) = os_next s"
  by (simp add: delete_object_def os_release_def split: option.splits)

lemma live_set_eq_iff: "live_set s' = live_set s \<longleftrightarrow> (\<forall>h. (0 < os_refs s' h) = (0 < os_refs s h))"
  by (auto simp: live_set_def live_def)

lemma os_wf_same_refs:
  "os_wf s \<Longrightarrow> os_refs s' = os_refs s \<Longrightarrow> os_next s \<le> os_next s' \<Longrightarrow> os_wf s'"
  by (simp add: os_wf_def)

lemma fresh_refs_restore:
  "os_wf s \<Longrightarrow> os_next s \<le> r \<Longrightarrow> (os_refs s)(r := 0) = os_refs s"
  by (simp add: os_wf_def fun_upd_idem)

lemma refs_os_release_fun: "os_refs (os_release h s) = (os_refs s)(h := os_refs s h - 1)"
  by (simp add: os_release_def)

lemma refs_sleep [simp]: "os_refs (os_sleep n s) = os_refs s"
  by (simp add: os_sleep_def)

lemma next_sleep [simp]: "os_next (os_sleep n s) = os_next s"
  by (simp add: os_sleep_def)

lemma frames_sleep [simp]: "os_frames (os_sleep n s) = os_frames s"
  by (simp add: os_sleep_def)

lemma held_sleep [simp]: "os_held (os_sleep n s) = os_held s"
  by (simp add: os_sleep_def)

lemma ms_sleep [simp]: "os_ms (os_sleep n s) = os_ms s + n"
  by (simp add: os_sleep_def)

lemma refs_release_frame [simp]: "os_refs (dupl_release_frame d s) = os_refs s"
  by (simp add: dupl_release_frame_def)

lemma next_release_frame [simp]: "os_next (dupl_release_frame d s) = os_next s"
  by (simp add: dupl_release_frame_def)

lemma frames_release_frame [simp]: "os_frames (dupl_release_frame d s) = os_frames s"
  by (simp add: dupl_release_frame_def)

lemma ms_release_frame [simp]: "os_ms (dupl_release_frame d s) = os_ms s"
  by (simp add: dupl_release_frame_def)

lemma held_release_frame [simp]: "os_held (dupl_release_frame d s) = (os_held s)(d := False)"
  by (simp add: dupl_release_frame_def)

lemma frames_release [simp]: "os_frames (os_release h s) = os_frames s"
  by (simp add: os_release_def)

lemma ms_release [simp]: "os_ms (os_release h s) = os_ms s"
  by (simp add: os_release_def)

lemma held_release [simp]: "os_held (os_release h s) = os_held s"
  by (simp add: os_release_def)

lemma get_dc_release_dc:
  "os_wf s \<Longrightarrow> release_dc (fst (get_dc s)) (snd (get_dc s)) = s\<lparr>os_next := Suc (os_next s)\<rparr>"
  by (simp add: get_dc_def release_dc_def os_create_def os_release_def os_wf_def fun_upd_idem)

lemma os_refs_only_refl [simp]: "os_refs_only s s"
  by (simp add: os_refs_only_def)

lemma os_refs_only_upd [simp]: "os_refs_only s (s\<lparr>os_next := n, os_refs := r\<rparr>)"
  by (simp add: os_refs_only_def)

lemma os_refs_only_trans [trans]: "os_refs_only s s1 \<Longrightarrow> os_refs_only s1 s2 \<Longrightarrow> os_refs_only s s2"
  unfolding os_refs_only_def by (metis os.update_convs(1,2) os.surjective)

lemma os_refs_only_create [simp]: "os_refs_only s (snd (os_create s))"
  by (simp add: os_create_def)

lemma os_refs_only_release [simp]: "os_refs_only s (os_release h s)"
  by (simp add: os_release_def os_refs_only_def)

lemma os_refs_only_fields:
  "os_refs_only s s' \<Longrightarrow> os_frames s' = os_frames s \<and> os_held s' = os_held s \<and> os_ms s' = os_ms s \<and>
     os_tex s' = os_tex s \<and> os_dc_bmp s' = os_dc_bmp s \<and> os_bmp_dc s' = os_bmp_dc s"
  unfolding os_refs_only_def by (metis os.select_convs(3-8) os.surjective os.update_convs(1,2))

lemma os_refs_only_eq:
  "os_refs_only s s' \<Longrightarrow> os_next s' = os_next s \<Longrightarrow> os_refs s' = os_refs s \<Longrightarrow> s' = s"
  unfolding os_refs_only_def by simp

end
