(* ===== verification/GDI.thy ===== *)
theory GDI
  imports Scanlines Platform
begin

text \<open>
  \<open>ScreenCaptureGDI\<close> (src/ScreenCapGDI.h, src/ScreenCapGDI.cpp).  The class's fields are
  the record \<open>gdi\<close>; \<open>Startup\<close>, \<open>Shutdown\<close> and \<open>CaptureFrame\<close> are \<open>gdi_startup\<close>,
  \<open>gdi_shutdown\<close> and \<open>gdi_capture\<close>, each a function of the object and the platform
  state \<open>os\<close> returning the new ones.  What the system reports (metrics, allocation
  outcomes) is the record \<open>gdi_env\<close>; the screen's contents at the moment of a capture is
  a function \<open>screen\<close>.  \<open>m_dibBits\<close> is the DIB section's pixel memory itself
  (\<open>None\<close> for \<open>nullptr\<close>).  \<open>SetProcessDPIAware\<close> and \<open>GdiFlush\<close> change no state
  that the model keeps: the metrics in \<open>gdi_env\<close> are the DPI-aware ones.
\<close>

subsection \<open>Pixels and the screen\<close>

text \<open>A 32-bit DIB pixel as stored: blue, green, red, unused.\<close>

type_synonym pixel = "byte \<times> byte \<times> byte \<times> byte"

text \<open>The desktop DC's pixel at row \<open>y\<close>, column \<open>x\<close>; row 0 is the top of the screen.\<close>

type_synonym screen = "nat \<Rightarrow> nat \<Rightarrow> pixel"

definition pixel_bytes :: "pixel \<Rightarrow> byte list" where
  "pixel_bytes p = (case p of (b, g, r, x) \<Rightarrow> [b, g, r, x])"

definition pixel_at :: "byte list \<Rightarrow> nat \<Rightarrow> pixel" where
  "pixel_at buf off = (buf ! off, buf ! (off + 1), buf ! (off + 2), buf ! (off + 3))"

definition screen_row :: "screen \<Rightarrow> nat \<Rightarrow> nat \<Rightarrow> byte list" where
  "screen_row scr w y = concat (map (\<lambda>x. pixel_bytes (scr y x)) [0..<w])"

text \<open>
  \<open>BitBlt(hdcMem, 0, 0, w, h, hdcScreen, 0, 0, SRCCOPY | CAPTUREBLT)\<close> into the
  \<open>w\<close> by \<open>h\<close> bottom-up DIB selected into \<open>hdcMem\<close>: memory row \<open>r\<close> receives screen
  row \<open>h - 1 - r\<close>, pixels copied from the desktop DC's origin.
\<close>

definition bitblt :: "screen \<Rightarrow> nat \<Rightarrow> nat \<Rightarrow> byte list" where
  "bitblt scr w h = concat (map (\<lambda>r. screen_row scr w (h - 1 - r)) [0..<h])"

subsection \<open>State and environment\<close>

record gdi =
  gdi_width :: u32
  gdi_height :: u32
  gdi_depth :: u32
  gdi_stride :: int
  gdi_hdcMem :: "handle option"
  gdi_dibSection :: "handle option"
  gdi_dibOld :: "handle option"
  gdi_dibBits :: "byte list option"

text \<open>The constructor \<open>ScreenCaptureGDI()\<close>: the in-class initialisers.\<close>

definition gdi_init :: gdi where
  "gdi_init = \<lparr>gdi_width = 0, gdi_height = 0, gdi_depth = 0, gdi_stride = 0,
     gdi_hdcMem = None, gdi_dibSection = None, gdi_dibOld = None, gdi_dibBits = None\<rparr>"

record gdi_env =
  sm_cxscreen :: int
  sm_cyscreen :: int
  sm_cmonitors :: int
  sm_cxvirtualscreen :: int
  sm_cyvirtualscreen :: int
  dc_alloc_ok :: bool
  dib_alloc_ok :: bool

subsection \<open>Startup\<close>

lemma smod_4_eq_0: "(k smod 4 = 0) \<longleftrightarrow> (4::int) dvd k"
proof -
  have "k mod 4 \<noteq> 0 \<Longrightarrow> k mod 4 - 4 \<noteq> 0"
    using pos_mod_bound [of 4 k] by linarith
  then show ?thesis
    by (auto simp: signed_modulo_int_eq_modulo_int dvd_eq_mod_eq_0)
qed

text \<open>\<open>while (m_stride % 4) ++m_stride;\<close> with C's truncating remainder.\<close>

function stride_align :: "int \<Rightarrow> int" where
  "stride_align s = (if s smod 4 \<noteq> 0 then stride_align (s + 1) else s)"
  by pat_completeness auto
termination
proof (relation "measure (\<lambda>s. nat ((- s) mod 4))")
  fix s :: int
  assume "s smod 4 \<noteq> 0"
  then have "\<not> 4 dvd s" by (simp add: smod_4_eq_0)
  then have "(- s) mod 4 \<noteq> 0" by presburger
  then show "(s + 1, s) \<in> measure (\<lambda>s. nat ((- s) mod 4))"
    by simp presburger
qed simp

declare stride_align.simps [simp del]

text \<open>
  The frame size: the primary screen's metrics, replaced by the virtual screen's when more
  than one monitor is attached.  \<open>GetSystemMetrics\<close> returns \<open>int\<close>, stored into the
  \<open>unsigned\<close> fields.
\<close>

definition gdi_screen_size :: "gdi_env \<Rightarrow> u32 \<times> u32" where
  "gdi_screen_size env =
     (let w = word_of_int (sm_cxscreen env);
          h = word_of_int (sm_cyscreen env)
      in if 1 < sm_cmonitors env
         then (word_of_int (sm_cxvirtualscreen env), word_of_int (sm_cyvirtualscreen env))
         else (w, h))"

definition gdi_startup :: "gdi_env \<Rightarrow> gdi \<Rightarrow> os \<Rightarrow> bool \<times> gdi \<times> os" where
  "gdi_startup env g s =
     (let (w, h) = gdi_screen_size env;
          g1 = g\<lparr>gdi_width := w, gdi_height := h\<rparr>;
          (hdcScreen, s1) = get_dc s;
          (hdcMem, s2) = create_compatible_dc (dc_alloc_ok env) s1;
          s3 = release_dc hdcScreen s2;
          g2 = g1\<lparr>gdi_hdcMem := hdcMem\<rparr>
      in case hdcMem of
           None \<Rightarrow> (False, g2, s3)
         | Some dc \<Rightarrow>
             (let (dib, s4) = create_dib_section (dib_alloc_ok env) (unat w) (unat h) s3 in
              case dib of
                None \<Rightarrow> (False, g2\<lparr>gdi_dibSection := None, gdi_dibBits := None, gdi_hdcMem := None\<rparr>,
                         delete_dc dc s4)
              | Some (bmp, bits) \<Rightarrow>
                  (let g3 = g2\<lparr>gdi_dibSection := Some bmp, gdi_dibBits := Some bits,
                              gdi_depth := 32, gdi_stride := stride_align (uint (w * 32 div 8))\<rparr>;
                       (old, s5) = select_object dc bmp s4
                   in (True, g3\<lparr>gdi_dibOld := old\<rparr>, s5))))"

subsection \<open>Shutdown\<close>

definition gdi_shutdown :: "gdi \<Rightarrow> os \<Rightarrow> gdi \<times> os" where
  "gdi_shutdown g s =
     (let s1 = (case (gdi_dibOld g, gdi_hdcMem g) of
                  (Some old, Some dc) \<Rightarrow> snd (select_object dc old s)
                | _ \<Rightarrow> s);
          s2 = (case gdi_hdcMem g of Some dc \<Rightarrow> delete_dc dc s1 | None \<Rightarrow> s1);
          s3 = (case gdi_dibSection g of Some b \<Rightarrow> snd (delete_object b s2) | None \<Rightarrow> s2)
      in (g\<lparr>gdi_dibOld := None, gdi_hdcMem := None, gdi_dibSection := None,
            gdi_width := 0, gdi_height := 0, gdi_depth := 0, gdi_stride := 0\<rparr>, s3))"

subsection \<open>CaptureFrame\<close>

definition gdi_capture :: "screen \<Rightarrow> gdi \<Rightarrow> os \<Rightarrow> bool \<times> gdi \<times> os" where
  "gdi_capture scr g s =
     (if gdi_hdcMem g = None \<or> gdi_width g = 0 then (False, g, s)
      else
        (let (hdcScreen, s1) = get_dc s;
             bits1 = map_option (\<lambda>_. bitblt scr (unat (gdi_width g)) (unat (gdi_height g)))
                       (gdi_dibBits g);
             s2 = release_dc hdcScreen s1;
             bits2 = map_option (flip_scanlines (nat (gdi_stride g)) (unat (gdi_height g))) bits1
         in (True, g\<lparr>gdi_dibBits := bits2\<rparr>, s2)))"

text \<open>The image a capture leaves in the buffer when the flip is correct: screen rows top first.\<close>

definition gdi_image :: "screen \<Rightarrow> gdi \<Rightarrow> byte list" where
  "gdi_image scr g = concat (map (screen_row scr (unat (gdi_width g))) [0..<unat (gdi_height g)])"

text \<open>
  \<open>GetFrameStride\<close> returns the \<open>int m_stride\<close> as \<open>unsigned\<close>; the other accessors return
  the fields unchanged.
\<close>

definition gdi_frame_stride :: "gdi \<Rightarrow> u32" where
  "gdi_frame_stride g = word_of_int (gdi_stride g)"

subsection \<open>Predicates on the object\<close>

text \<open>
  \<open>gdi_ready g s\<close>: what a successful \<open>Startup\<close> establishes and \<open>CaptureFrame\<close> keeps.
  The DC and the DIB section are live, owned by this object alone, the DIB is selected into
  the DC with the stock bitmap saved, and the pixel memory has the DIB's size.
\<close>

definition gdi_ready :: "gdi \<Rightarrow> os \<Rightarrow> bool" where
  "gdi_ready g s \<longleftrightarrow>
     (case (gdi_hdcMem g, gdi_dibSection g, gdi_dibBits g) of
        (Some dc, Some b, Some bits) \<Rightarrow>
          dc \<noteq> b \<and> os_refs s dc = 1 \<and> os_refs s b = 1 \<and>
          os_dc_bmp s dc = Some b \<and> os_bmp_dc s b = Some dc \<and>
          gdi_dibOld g = Some stock_bitmap \<and> b \<noteq> stock_bitmap \<and>
          length bits = 4 * unat (gdi_width g) * unat (gdi_height g) \<and>
          gdi_depth g = 32 \<and> gdi_stride g = stride_align (uint (gdi_width g * 32 div 8))
      | _ \<Rightarrow> False)"

text \<open>The handles the object owns, released by \<open>Shutdown\<close>.\<close>

definition gdi_owned :: "gdi \<Rightarrow> handle set" where
  "gdi_owned g = set_option (gdi_hdcMem g) \<union> set_option (gdi_dibSection g)"

text \<open>The same handles as a list, and the part of \<open>gdi_ready\<close> about the objects alone.\<close>

definition gdi_handles :: "gdi \<Rightarrow> handle list" where
  "gdi_handles g = concat (map (case_option [] (\<lambda>h. [h])) [gdi_hdcMem g, gdi_dibSection g])"

definition gdi_holds :: "gdi \<Rightarrow> os \<Rightarrow> bool" where
  "gdi_holds g s \<longleftrightarrow>
     (case (gdi_hdcMem g, gdi_dibSection g) of
        (Some dc, Some b) \<Rightarrow>
          dc \<noteq> b \<and> os_refs s dc = 1 \<and> os_refs s b = 1 \<and>
          os_dc_bmp s dc = Some b \<and> os_bmp_dc s b = Some dc \<and>
          gdi_dibOld g = Some stock_bitmap \<and> b \<noteq> stock_bitmap
      | _ \<Rightarrow> False)"

subsection \<open>Example states\<close>

text \<open>Concrete objects and platform states at which the theorems below are applied.\<close>

definition example_gdi :: gdi where
  "example_gdi = \<lparr>gdi_width = 2, gdi_height = 2, gdi_depth = 32, gdi_stride = 8,
     gdi_hdcMem = Some 2, gdi_dibSection = Some 3, gdi_dibOld = Some 0,
     gdi_dibBits = Some (replicate 16 0)\<rparr>"

definition example_os :: os where
  "example_os = \<lparr>os_next = 4, os_refs = (\<lambda>_. 0)(2 := 1, 3 := 1),
     os_dc_bmp = (\<lambda>_. None)(2 \<mapsto> 3), os_bmp_dc = (\<lambda>_. None)(3 \<mapsto> 2),
     os_tex = (\<lambda>_. []), os_frames = [], os_held = (\<lambda>_. False), os_ms = 0\<rparr>"

definition example_screen :: screen where
  "example_screen y x = (of_nat y, of_nat x, 0, 0)"

definition example_env :: gdi_env where
  "example_env = \<lparr>sm_cxscreen = 1920, sm_cyscreen = 1080, sm_cmonitors = 1,
     sm_cxvirtualscreen = 3840, sm_cyvirtualscreen = 1080, dc_alloc_ok = True, dib_alloc_ok = True\<rparr>"

definition empty_os :: os where
  "empty_os = \<lparr>os_next = 1, os_refs = (\<lambda>_. 0), os_dc_bmp = (\<lambda>_. None),
     os_bmp_dc = (\<lambda>_. None), os_tex = (\<lambda>_. []), os_frames = [], os_held = (\<lambda>_. False), os_ms = 0\<rparr>"

subsection \<open>Stride\<close>

lemma stride_align_dvd: "4 dvd s \<Longrightarrow> stride_align s = s"
  by (subst stride_align.simps) (simp add: smod_4_eq_0)

lemma unat_width_times_32:
  fixes w :: u32
  assumes "unat w < 2 ^ 27"
  shows "unat (w * 32 div 8) = 4 * unat w"
proof -
  have "unat w * 32 < 2 ^ 32" using assms by simp
  then have "unat (w * 32) = unat w * 32"
    by (simp add: unat_mult_lem [THEN iffD1])
  then show ?thesis by (simp add: unat_div)
qed

lemma gdi_stride_value:
  fixes w :: u32
  assumes "unat w < 2 ^ 27"
  shows "stride_align (uint (w * 32 div 8)) = int (4 * unat w)"
proof -
  have "uint (w * 32 div 8) = int (unat (w * 32 div 8))"
    by (rule uint_nat)
  then have "uint (w * 32 div 8) = int (4 * unat w)"
    by (simp only: unat_width_times_32 [OF assms])
  then show ?thesis by (simp add: stride_align_dvd)
qed

subsection \<open>Reading pixels back\<close>

lemma nth_concat_uniform:
  assumes "uniform_rows s rs" and "i < length rs" and "j < s"
  shows "concat rs ! (i * s + j) = rs ! i ! j"
proof -
  have "i * s \<le> length (concat rs)"
    using assms by (simp add: length_concat_uniform)
  then have "concat rs ! (i * s + j) = drop (i * s) (concat rs) ! j"
    by (simp add: nth_drop)
  also have "\<dots> = take s (drop (i * s) (concat rs)) ! j"
    using assms(3) by simp
  finally show ?thesis
    using assms by (simp add: row_of_concat)
qed

lemma uniform_pixel_rows: "uniform_rows 4 (map (\<lambda>x. pixel_bytes (scr y x)) xs)"
  by (auto simp: uniform_rows_def pixel_bytes_def split: prod.splits)

lemma length_screen_row [simp]: "length (screen_row scr w y) = 4 * w"
  using length_concat_uniform [OF uniform_pixel_rows [where scr = scr and y = y and xs = "[0..<w]"]]
  by (simp add: screen_row_def)

lemma screen_row_nth:
  assumes "x < w" and "k < 4"
  shows "screen_row scr w y ! (x * 4 + k) = pixel_bytes (scr y x) ! k"
  using nth_concat_uniform [OF uniform_pixel_rows [where scr = scr and y = y and xs = "[0..<w]"],
      where i = x and j = k] assms
  by (simp add: screen_row_def)

lemma pixel_at_rows:
  assumes "uniform_rows s rs" and "i < length rs" and "x * 4 + 3 < s"
  shows "pixel_at (concat rs) (i * s + x * 4) =
           (rs ! i ! (x * 4), rs ! i ! (x * 4 + 1), rs ! i ! (x * 4 + 2), rs ! i ! (x * 4 + 3))"
proof -
  have "concat rs ! (i * s + (x * 4 + k)) = rs ! i ! (x * 4 + k)" if "k < 4" for k
    using that assms by (intro nth_concat_uniform) simp_all
  from this [of 0] this [of 1] this [of 2] this [of 3] show ?thesis
    by (simp add: pixel_at_def add.assoc)
qed

lemma pixel_at_screen_rows:
  assumes "y < h" and "x < w"
  shows "pixel_at (concat (map (screen_row scr w) [0..<h])) (4 * w * y + x * 4) = scr y x"
proof -
  have u: "uniform_rows (4 * w) (map (screen_row scr w) [0..<h])"
    by (simp add: uniform_rows_def)
  have k: "screen_row scr w y ! (x * 4 + k) = pixel_bytes (scr y x) ! k" if "k < 4" for k
    using assms that by (simp add: screen_row_nth)
  have "pixel_at (concat (map (screen_row scr w) [0..<h])) (y * (4 * w) + x * 4) = scr y x"
    using pixel_at_rows [OF u, of y x] assms k [of 0] k [of 1] k [of 2] k [of 3]
    by (simp add: pixel_bytes_def split: prod.splits)
  then show ?thesis by (simp add: mult.commute)
qed

lemma bitblt_rows: "bitblt scr w h = concat (rev (map (screen_row scr w) [0..<h]))"
proof -
  have "map (\<lambda>r. screen_row scr w (h - 1 - r)) [0..<h] = rev (map (screen_row scr w) [0..<h])"
    by (rule nth_equalityI) (auto simp: rev_nth)
  then show ?thesis by (simp add: bitblt_def)
qed

subsection \<open>Operations\<close>

lemma flip_bitblt:
  "flip_scanlines (4 * w) h (bitblt scr w h) = concat (map (screen_row scr w) [0..<h])"
proof -
  have u: "uniform_rows (4 * w) (rev (map (screen_row scr w) [0..<h]))"
    by (simp add: uniform_rows_def)
  show ?thesis
    using flip_scanlines_rows [OF u] by (simp add: bitblt_rows)
qed

lemma gdi_capture_not_started:
  "gdi_hdcMem g = None \<or> gdi_width g = 0 \<Longrightarrow> gdi_capture scr g s = (False, g, s)"
  by (simp add: gdi_capture_def)

lemma gdi_ready_stride_int:
  assumes "gdi_ready g s" and "unat (gdi_width g) < 2 ^ 27"
  shows "gdi_stride g = int (4 * unat (gdi_width g))"
proof -
  have "gdi_stride g = stride_align (uint (gdi_width g * 32 div 8))"
    using assms(1) by (auto simp: gdi_ready_def split: option.splits)
  then show ?thesis
    by (simp only: gdi_stride_value [OF assms(2)])
qed

lemma gdi_ready_stride:
  "gdi_ready g s \<Longrightarrow> unat (gdi_width g) < 2 ^ 27 \<Longrightarrow> nat (gdi_stride g) = 4 * unat (gdi_width g)"
  by (simp only: gdi_ready_stride_int nat_int)

lemma gdi_capture_ready:
  assumes r: "gdi_ready g s" and wf: "os_wf s" and w: "gdi_width g \<noteq> 0" "unat (gdi_width g) < 2 ^ 27"
  shows "gdi_capture scr g s =
           (True, g\<lparr>gdi_dibBits := Some (gdi_image scr g)\<rparr>, s\<lparr>os_next := Suc (os_next s)\<rparr>)"
proof -
  obtain dc b bits where h: "gdi_hdcMem g = Some dc" "gdi_dibSection g = Some b" "gdi_dibBits g = Some bits"
    using r by (auto simp: gdi_ready_def split: option.splits)
  have st: "nat (gdi_stride g) = 4 * unat (gdi_width g)"
    using r w(2) by (rule gdi_ready_stride)
  show ?thesis
    using h w st get_dc_release_dc [OF wf]
    by (simp add: gdi_capture_def gdi_image_def flip_bitblt case_prod_unfold)
qed

lemma gdi_startup_success:
  assumes wf: "os_wf s" and ok: "dc_alloc_ok env" "dib_alloc_ok env"
  shows "case gdi_startup env g s of (r, g', s') \<Rightarrow>
           r \<and> gdi_ready g' s' \<and> os_wf s' \<and> (gdi_width g', gdi_height g') = gdi_screen_size env \<and>
           live_set s' = live_set s \<union> gdi_owned g' \<and> gdi_owned g' \<inter> live_set s = {}"
  using wf ok
  by (auto simp: gdi_startup_def create_compatible_dc_def create_dib_section_def get_dc_def
      release_dc_def select_object_def os_create_def os_release_def gdi_ready_def gdi_owned_def
      live_set_def live_def os_wf_def Let_def case_prod_unfold stock_bitmap_def)

lemma gdi_startup_failure:
  assumes wf: "os_wf s" and fail: "\<not> (dc_alloc_ok env \<and> dib_alloc_ok env)"
  shows "case gdi_startup env g s of (r, g', s') \<Rightarrow>
           \<not> r \<and> gdi_hdcMem g' = None \<and> os_wf s' \<and> live_set s' = live_set s \<and>
           (gdi_width g', gdi_height g') = gdi_screen_size env"
proof (cases "dc_alloc_ok env")
  case False
  with wf show ?thesis
    by (simp add: gdi_startup_def create_compatible_dc_def get_dc_def release_dc_def
        os_create_def os_release_def live_set_def live_def os_wf_def Let_def case_prod_unfold fun_upd_idem)
next
  case True
  with fail have "\<not> dib_alloc_ok env" by simp
  with True wf show ?thesis
    by (simp add: gdi_startup_def create_compatible_dc_def create_dib_section_def get_dc_def
        release_dc_def delete_dc_def os_create_def os_release_def live_set_def live_def os_wf_def
        Let_def case_prod_unfold) auto
qed

lemma gdi_shutdown_ready:
  assumes r: "gdi_ready g s"
  shows "case gdi_shutdown g s of (g', s') \<Rightarrow>
           live_set s' = live_set s - gdi_owned g \<and> gdi_owned g' = {} \<and> os_next s' = os_next s \<and>
           gdi_width g' = 0 \<and> gdi_height g' = 0 \<and> gdi_depth g' = 0 \<and> gdi_stride g' = 0"
proof -
  obtain dc b bits where h: "gdi_hdcMem g = Some dc" "gdi_dibSection g = Some b"
      "gdi_dibBits g = Some bits"
    using r by (auto simp: gdi_ready_def split: option.splits)
  then have i: "dc \<noteq> b" "os_refs s dc = 1" "os_refs s b = 1" "os_dc_bmp s dc = Some b"
      "gdi_dibOld g = Some stock_bitmap" "b \<noteq> stock_bitmap"
    using r by (simp_all add: gdi_ready_def)
  have "live_set (snd (delete_object b (delete_dc dc (snd (select_object dc stock_bitmap s)))))
          = live_set s - {dc, b}"
    using i by (auto simp: select_object_def delete_dc_def delete_object_def os_release_def
        live_set_def live_def Let_def)
  then show ?thesis
    using h i by (simp add: gdi_shutdown_def gdi_owned_def Let_def insert_commute)
qed

lemma gdi_shutdown_twice:
  "gdi_shutdown (fst (gdi_shutdown g s)) (snd (gdi_shutdown g s)) = gdi_shutdown g s"
  by (simp add: gdi_shutdown_def Let_def)

lemma gdi_shutdown_init: "gdi_shutdown gdi_init s = (gdi_init, s)"
  by (simp add: gdi_shutdown_def gdi_init_def)

lemma length_gdi_image: "length (gdi_image scr g) = 4 * unat (gdi_width g) * unat (gdi_height g)"
  using length_concat_uniform [of "4 * unat (gdi_width g)"
      "map (screen_row scr (unat (gdi_width g))) [0..<unat (gdi_height g)]"]
  by (simp add: gdi_image_def uniform_rows_def)

lemma gdi_ready_after_capture:
  "gdi_ready g s \<Longrightarrow> gdi_ready (g\<lparr>gdi_dibBits := Some (gdi_image scr g)\<rparr>) (s\<lparr>os_next := n\<rparr>)"
  by (auto simp: gdi_ready_def length_gdi_image split: option.splits)

lemma example_gdi_ready: "gdi_ready example_gdi example_os \<and> os_wf example_os"
  by (simp add: gdi_ready_def example_gdi_def example_os_def stock_bitmap_def os_wf_def
      stride_align.simps)

lemma os_wf_empty_os: "os_wf empty_os"
  by (simp add: os_wf_def empty_os_def)

lemma gdi_startup_false_no_dc:
  assumes "os_wf s0" and "(False, g, s) = gdi_startup env g0 s0"
  shows "gdi_hdcMem g = None"
proof (cases "dc_alloc_ok env \<and> dib_alloc_ok env")
  case True
  then show ?thesis
    using gdi_startup_success [OF assms(1), of env g0] assms(2) [symmetric] by simp
next
  case False
  then show ?thesis
    using gdi_startup_failure [OF assms(1) False, of g0] assms(2) [symmetric] by simp
qed

subsection \<open>Reference counts\<close>

lemma gdi_ready_holds: "gdi_ready g s \<Longrightarrow> gdi_holds g s"
  by (auto simp: gdi_ready_def gdi_holds_def split: option.splits)

lemma gdi_startup_refs:
  assumes wf: "os_wf s" and st: "gdi_startup env g s = (ok, g', s')" and g0: "gdi_dibSection g = None"
  shows "os_wf s' \<and> os_next s \<le> os_next s' \<and> os_refs s' = (\<lambda>h. os_refs s h + count_list (gdi_handles g') h) \<and>
         distinct (gdi_handles g') \<and> (\<forall>h\<in>set (gdi_handles g'). os_next s \<le> h) \<and>
         (ok \<longrightarrow> gdi_ready g' s') \<and> (\<not> ok \<longrightarrow> gdi_handles g' = [])"
proof -
  have fresh: "\<And>k. os_next s \<le> k \<Longrightarrow> os_refs s k = 0" using wf by (simp add: os_wf_def)
  show ?thesis
  proof (cases "dc_alloc_ok env \<and> dib_alloc_ok env")
    case True
    then show ?thesis
      using wf st fresh
      by (auto simp: gdi_startup_def create_compatible_dc_def create_dib_section_def get_dc_def
          release_dc_def select_object_def os_create_def os_release_def gdi_ready_def gdi_handles_def live_def
          os_wf_def Let_def case_prod_unfold stock_bitmap_def fun_eq_iff)
  next
    case False
    have "case gdi_startup env g s of (r, g', s') \<Rightarrow>
            \<not> r \<and> os_refs s' = os_refs s \<and> gdi_hdcMem g' = None \<and> gdi_dibSection g' = None \<and> os_wf s' \<and>
            os_next s \<le> os_next s'"
    proof (cases "dc_alloc_ok env")
      case False
      with wf g0 show ?thesis
        by (simp add: gdi_startup_def create_compatible_dc_def get_dc_def release_dc_def
            os_create_def os_release_def os_wf_def Let_def case_prod_unfold fun_upd_idem)
    next
      case True
      with \<open>\<not> (dc_alloc_ok env \<and> dib_alloc_ok env)\<close> have "\<not> dib_alloc_ok env" by simp
      with True wf fresh show ?thesis
        by (simp add: gdi_startup_def create_compatible_dc_def create_dib_section_def get_dc_def
            release_dc_def delete_dc_def os_create_def os_release_def os_wf_def
            Let_def case_prod_unfold fun_eq_iff)
    qed
    then show ?thesis using st by (simp add: gdi_handles_def)
  qed
qed

lemma gdi_shutdown_refs:
  assumes r: "gdi_holds g s" and sd: "gdi_shutdown g s = (g', s')"
  shows "os_refs s' = (\<lambda>h. os_refs s h - count_list (gdi_handles g) h) \<and> gdi_handles g' = [] \<and>
         os_next s' = os_next s"
proof -
  obtain dc b where h: "gdi_hdcMem g = Some dc" "gdi_dibSection g = Some b"
    using r by (auto simp: gdi_holds_def split: option.splits)
  then have i: "dc \<noteq> b" "os_refs s dc = 1" "os_refs s b = 1" "os_dc_bmp s dc = Some b"
      "gdi_dibOld g = Some stock_bitmap" "b \<noteq> stock_bitmap"
    using r by (simp_all add: gdi_holds_def)
  have "os_refs (snd (delete_object b (delete_dc dc (snd (select_object dc stock_bitmap s))))) =
          (os_refs s)(dc := 0, b := 0)"
    using i by (auto simp: select_object_def delete_dc_def delete_object_def os_release_def live_def Let_def)
  then show ?thesis
    using h i sd by (auto simp: gdi_shutdown_def gdi_handles_def Let_def fun_eq_iff)
qed

lemma gdi_shutdown_unstarted:
  "gdi_handles g = [] \<Longrightarrow> gdi_shutdown g s = (g\<lparr>gdi_dibOld := None, gdi_hdcMem := None, gdi_dibSection := None,
     gdi_width := 0, gdi_height := 0, gdi_depth := 0, gdi_stride := 0\<rparr>, s)"
  by (simp add: gdi_shutdown_def gdi_handles_def split: option.splits)



lemma gdi_capture_effect:
  assumes wf: "os_wf s" and cap: "gdi_capture scr g s = (ok, g', s')"
  shows "os_refs s' = os_refs s \<and> os_wf s' \<and> os_next s \<le> os_next s' \<and> gdi_handles g' = gdi_handles g \<and>
         (gdi_holds g s \<longrightarrow> gdi_holds g' s')"
proof (cases "gdi_hdcMem g = None \<or> gdi_width g = 0")
  case True
  then show ?thesis using cap wf by (simp add: gdi_capture_def)
next
  case False
  have s': "s' = s\<lparr>os_next := Suc (os_next s)\<rparr>"
    using cap False get_dc_release_dc [OF wf] by (auto simp: gdi_capture_def Let_def case_prod_unfold)
  have g': "g' = g\<lparr>gdi_dibBits := map_option (flip_scanlines (nat (gdi_stride g)) (unat (gdi_height g)))
                 (map_option (\<lambda>_. bitblt scr (unat (gdi_width g)) (unat (gdi_height g))) (gdi_dibBits g))\<rparr>"
    using cap False by (auto simp: gdi_capture_def Let_def case_prod_unfold)
  have "gdi_holds g s \<Longrightarrow> gdi_holds g' s'"
    using s' g' by (simp add: gdi_holds_def split: option.splits)
  then show ?thesis using s' g' wf by (auto simp: gdi_handles_def os_wf_def)
qed

lemma unat_gdi_frame_stride:
  assumes "gdi_ready g s" and "unat (gdi_width g) < 2 ^ 27"
  shows "unat (gdi_frame_stride g) = 4 * unat (gdi_width g)"
proof -
  have st: "gdi_stride g = int (4 * unat (gdi_width g))"
    using assms by (rule gdi_ready_stride_int)
  have m: "unat (4 * gdi_width g) = 4 * unat (gdi_width g)"
    using assms(2) by (simp add: unat_mult_lem [THEN iffD1])
  then show ?thesis
    using st by (simp add: gdi_frame_stride_def)
qed

subsection \<open>Properties of the GDI backend\<close>

text \<open>
  C3: after \<open>CaptureFrame\<close> on a started GDI backend, the 4 bytes at the accessor offset
  \<open>stride * y + x * 4\<close> of the pixel buffer are the screen's pixel at row \<open>y\<close>, column
  \<open>x\<close> (row 0 the top of the screen), for every pixel of the frame: the buffer is
  top-down although \<open>BitBlt\<close> writes it bottom-up.
\<close>

theorem gdi_capture_top_down:
  assumes "gdi_ready g s" and "os_wf s" and "unat (gdi_width g) < 2 ^ 27"
    and "y < unat (gdi_height g)" and "x < unat (gdi_width g)"
  shows "case gdi_capture scr g s of (ok, g', s') \<Rightarrow>
           ok \<and> (\<exists>bits. gdi_dibBits g' = Some bits \<and>
                       pixel_at bits (nat (gdi_stride g') * y + x * 4) = scr y x)"
proof -
  have w: "gdi_width g \<noteq> 0" using assms(5) by auto
  have "nat (gdi_stride g) = 4 * unat (gdi_width g)"
    using assms(1,3) by (rule gdi_ready_stride)
  then show ?thesis
    using assms(4,5) gdi_capture_ready [OF assms(1,2) w assms(3)]
    by (simp add: gdi_image_def pixel_at_screen_rows)
qed

theorem gdi_capture_top_down_witness:
  "case gdi_capture example_screen example_gdi example_os of (ok, g', s') \<Rightarrow>
     ok \<and> (\<exists>bits. gdi_dibBits g' = Some bits \<and>
                 pixel_at bits (nat (gdi_stride g') * 1 + 1 * 4) = (1, 1, 0, 0))"
proof -
  have "case gdi_capture example_screen example_gdi example_os of (ok, g', s') \<Rightarrow>
          ok \<and> (\<exists>bits. gdi_dibBits g' = Some bits \<and>
                      pixel_at bits (nat (gdi_stride g') * 1 + 1 * 4) = example_screen 1 1)"
    using example_gdi_ready by (intro gdi_capture_top_down) (simp_all add: example_gdi_def)
  then show ?thesis by (simp add: example_screen_def)
qed

text \<open>
  C4: \<open>Startup\<close> on a new GDI object either succeeds, leaving the object ready with a
  memory DC and a DIB section that are new live objects and the only objects it added, or
  fails, leaving no new live object and no DC; it fails exactly when one of the two
  allocations fails.
\<close>

theorem gdi_startup_leak_free:
  assumes "os_wf s"
  shows "case gdi_startup env g s of (r, g', s') \<Rightarrow>
           os_wf s' \<and> (r \<longleftrightarrow> dc_alloc_ok env \<and> dib_alloc_ok env) \<and>
           (if r then gdi_ready g' s' \<and> live_set s' = live_set s \<union> gdi_owned g' \<and>
                      gdi_owned g' \<inter> live_set s = {}
            else gdi_hdcMem g' = None \<and> live_set s' = live_set s)"
proof (cases "dc_alloc_ok env \<and> dib_alloc_ok env")
  case True
  then show ?thesis
    using gdi_startup_success [OF assms, of env g] by (auto split: prod.splits)
next
  case False
  then show ?thesis
    using gdi_startup_failure [OF assms False, of g] by (auto split: prod.splits)
qed

theorem gdi_startup_leak_free_witness:
  "os_wf empty_os \<and>
   (case gdi_startup example_env gdi_init empty_os of (r, g', s') \<Rightarrow>
      os_wf s' \<and> (r \<longleftrightarrow> dc_alloc_ok example_env \<and> dib_alloc_ok example_env) \<and>
      (if r then gdi_ready g' s' \<and> live_set s' = live_set empty_os \<union> gdi_owned g' \<and>
                 gdi_owned g' \<inter> live_set empty_os = {}
       else gdi_hdcMem g' = None \<and> live_set s' = live_set empty_os))"
  using os_wf_empty_os gdi_startup_leak_free [OF os_wf_empty_os, of example_env gdi_init] by simp

text \<open>
  C5: a GDI object that is started and then shut down leaves the set of live system objects
  as it found it, whether \<open>Startup\<close> succeeded or not: \<open>Shutdown\<close> restores the stock
  bitmap before deleting the DC and the DIB section, so \<open>DeleteObject\<close> succeeds.
\<close>

theorem gdi_startup_shutdown_no_leak:
  assumes "os_wf s"
  shows "case gdi_startup env gdi_init s of (r, g1, s1) \<Rightarrow>
           live_set (snd (gdi_shutdown g1 s1)) = live_set s"
proof (cases "dc_alloc_ok env \<and> dib_alloc_ok env")
  case True
  obtain r g1 s1 where st: "gdi_startup env gdi_init s = (r, g1, s1)"
    by (cases "gdi_startup env gdi_init s") auto
  then have "gdi_ready g1 s1" "live_set s1 = live_set s \<union> gdi_owned g1"
      "gdi_owned g1 \<inter> live_set s = {}"
    using gdi_startup_success [OF assms True [THEN conjunct1] True [THEN conjunct2], of gdi_init]
    by simp_all
  moreover have "live_set (snd (gdi_shutdown g1 s1)) = live_set s1 - gdi_owned g1"
    using gdi_shutdown_ready [OF \<open>gdi_ready g1 s1\<close>] by (simp split: prod.splits)
  ultimately show ?thesis
    using st by auto
next
  case False
  obtain r g1 s1 where st: "gdi_startup env gdi_init s = (r, g1, s1)"
    by (cases "gdi_startup env gdi_init s") auto
  then have "gdi_hdcMem g1 = None" "live_set s1 = live_set s"
    using gdi_startup_failure [OF assms False, of gdi_init] by simp_all
  moreover have "gdi_dibSection g1 = None" "gdi_dibOld g1 = None"
    using st False by (auto simp: gdi_startup_def gdi_init_def create_compatible_dc_def
        create_dib_section_def Let_def case_prod_unfold split: if_splits)
  ultimately show ?thesis
    using st by (simp add: gdi_shutdown_def Let_def)
qed

theorem gdi_startup_shutdown_no_leak_witness:
  "os_wf empty_os \<and>
   (case gdi_startup example_env gdi_init empty_os of (r, g1, s1) \<Rightarrow>
      live_set (snd (gdi_shutdown g1 s1)) = live_set empty_os)"
  using os_wf_empty_os gdi_startup_shutdown_no_leak [OF os_wf_empty_os, of example_env] by simp

text \<open>
  C7: \<open>CaptureFrame\<close> on an object that has no memory DC (never started, shut down, or
  whose \<open>Startup\<close> failed) returns false and changes neither the object nor the system.
\<close>

theorem gdi_capture_unstarted_fails:
  assumes "os_wf s" and "g = gdi_init \<or> (\<exists>g0 s0. (g, s) = gdi_shutdown g0 s0) \<or>
                         (\<exists>r s0. (r, g, s) = gdi_startup env gdi_init s0 \<and> \<not> r \<and> os_wf s0)"
  shows "gdi_capture scr g s = (False, g, s)"
proof -
  have "gdi_hdcMem g = None"
    using assms(2)
  proof (elim disjE exE conjE)
    fix r s0 assume st: "(r, g, s) = gdi_startup env gdi_init s0" and "\<not> r" and wf0: "os_wf s0"
    then show "gdi_hdcMem g = None"
      using gdi_startup_false_no_dc [OF wf0] by simp
  qed (auto simp: gdi_init_def gdi_shutdown_def Let_def)
  then show ?thesis by (rule gdi_capture_not_started [OF disjI1])
qed

theorem gdi_capture_unstarted_fails_witness:
  "os_wf empty_os \<and>
   (gdi_init = gdi_init \<or> (\<exists>g0 s0. (gdi_init, empty_os) = gdi_shutdown g0 s0) \<or>
    (\<exists>r s0. (r, gdi_init, empty_os) = gdi_startup example_env gdi_init s0 \<and> \<not> r \<and> os_wf s0)) \<and>
   gdi_capture example_screen gdi_init empty_os = (False, gdi_init, empty_os)"
  using os_wf_empty_os gdi_capture_unstarted_fails [OF os_wf_empty_os, of gdi_init] by simp

text \<open>
  C8: the frame metadata \<open>Startup\<close> sets: when the memory DC and the DIB section can be
  created, \<open>Startup\<close> of a new object succeeds with the screen's size, 32 bits per pixel, a
  stride of exactly \<open>4 * width\<close> bytes (so at least \<open>width * depth / 8\<close>: the code asks for
  32-bit pixels, so the rounding loop finds a multiple of 4 already) and a pixel buffer of
  \<open>stride * height\<close> bytes, for every width below \<open>2^27\<close> pixels, where the 32-bit product
  \<open>m_width * 32\<close> cannot wrap.
\<close>

theorem gdi_frame_metadata:
  assumes wf: "os_wf s" and ok: "dc_alloc_ok env" "dib_alloc_ok env"
    and sz: "gdi_screen_size env = (w, h)" and w: "unat w < 2 ^ 27"
    and st: "gdi_startup env gdi_init s = (r, g, s')"
  shows "r \<and> gdi_width g = w \<and> gdi_height g = h \<and>
         unat (gdi_depth g) = 32 \<and> unat (gdi_frame_stride g) = 4 * unat w \<and>
         unat w * unat (gdi_depth g) div 8 \<le> unat (gdi_frame_stride g) \<and>
         (\<exists>bits. gdi_dibBits g = Some bits \<and> length bits = unat (gdi_frame_stride g) * unat h)"
proof -
  have g: "r" "gdi_ready g s'" "gdi_width g = w" "gdi_height g = h"
    using gdi_startup_success [OF wf ok, of gdi_init] st sz by auto
  have "unat (gdi_frame_stride g) = 4 * unat w"
    using unat_gdi_frame_stride [OF g(2)] g(3) w by simp
  then show ?thesis
    using g by (auto simp: gdi_ready_def split: option.splits)
qed

theorem gdi_frame_metadata_witness:
  "case gdi_startup example_env gdi_init empty_os of (r, g, s') \<Rightarrow>
     r \<and> unat (gdi_depth g) = 32 \<and> unat (gdi_frame_stride g) = 7680 \<and>
     (\<exists>bits. gdi_dibBits g = Some bits \<and> length bits = 7680 * 1080)"
proof -
  obtain r g s' where st: "gdi_startup example_env gdi_init empty_os = (r, g, s')" by (metis prod_cases3)
  have sz: "gdi_screen_size example_env = (1920, 1080)"
    by (simp add: gdi_screen_size_def example_env_def)
  show ?thesis
    using gdi_frame_metadata [OF os_wf_empty_os _ _ sz _ st] st by (auto simp: example_env_def)
qed

end
