(* ===== verification/DX11.thy ===== *)
theory DX11
  imports Platform
begin

text \<open>
  \<open>ScreenCaptureDX11\<close> (src/ScreenCapDX11.h, src/ScreenCapDX11.cpp).  The class's fields
  are the record \<open>dx11\<close>: each \<open>CComPtr\<close> member is the handle it holds (\<open>None\<close> when
  null), \<open>m_frameBuffer\<close> the byte list.  Every method is a function of the object, the
  platform state \<open>os\<close> and what the driver answers (\<open>dx11_env\<close>: supported feature
  levels, the outcome of each negotiation step, the duplication's mode description, the
  outcomes of texture creation and \<open>Map\<close>, the row pitch of the mapping).  The frames the
  duplication delivers are the platform's queue \<open>os_frames\<close>.  A \<open>CComPtr\<close> local is
  released when its scope ends, which the definitions write out with \<open>os_release\<close> at each
  exit.  \<open>QueryInterface\<close> for another interface of the same object adds a reference to
  that object; each distinct DXGI object reached during negotiation is a new object.
\<close>

subsection \<open>Driver answers\<close>

datatype driver_type = D3D_DRIVER_TYPE_HARDWARE | D3D_DRIVER_TYPE_WARP | D3D_DRIVER_TYPE_REFERENCE

datatype feature_level =
    D3D_FEATURE_LEVEL_11_0 | D3D_FEATURE_LEVEL_10_1 | D3D_FEATURE_LEVEL_10_0 | D3D_FEATURE_LEVEL_9_1

record dx11_env =
  drv_supports :: "driver_type \<Rightarrow> feature_level \<Rightarrow> bool"
  qi_dxgi_device :: hresult
  get_parent_adapter :: hresult
  enum_outputs :: hresult
  qi_output1 :: hresult
  duplicate_output :: hresult
  mode_width :: u32
  mode_height :: u32
  mode_format :: int
  qi_texture :: hresult
  create_texture :: hresult
  map_result :: hresult
  row_pitch :: u32

text \<open>The \<open>DXGI_FORMAT\<close> values that \<open>IsFormat32bit\<close> accepts (dxgiformat.h).\<close>

definition DXGI_FORMAT_B8G8R8A8_UNORM :: int where "DXGI_FORMAT_B8G8R8A8_UNORM = 87"
definition DXGI_FORMAT_B8G8R8X8_UNORM :: int where "DXGI_FORMAT_B8G8R8X8_UNORM = 88"
definition DXGI_FORMAT_B8G8R8A8_TYPELESS :: int where "DXGI_FORMAT_B8G8R8A8_TYPELESS = 90"
definition DXGI_FORMAT_B8G8R8A8_UNORM_SRGB :: int where "DXGI_FORMAT_B8G8R8A8_UNORM_SRGB = 91"
definition DXGI_FORMAT_B8G8R8X8_TYPELESS :: int where "DXGI_FORMAT_B8G8R8X8_TYPELESS = 92"
definition DXGI_FORMAT_B8G8R8X8_UNORM_SRGB :: int where "DXGI_FORMAT_B8G8R8X8_UNORM_SRGB = 93"

text \<open>The format of an HDR desktop, which is not one of them.\<close>

definition DXGI_FORMAT_R16G16B16A16_FLOAT :: int where "DXGI_FORMAT_R16G16B16A16_FLOAT = 10"

subsection \<open>State\<close>

record dx11 =
  dx_device :: "handle option"
  dx_context :: "handle option"
  dx_staging :: "handle option"
  dx_dupl :: "handle option"
  dx_buffer :: "byte list"
  dx_width :: u32
  dx_height :: u32
  dx_depth :: u32
  dx_stride :: u32

definition dx11_init :: dx11 where
  "dx11_init = \<lparr>dx_device = None, dx_context = None, dx_staging = None, dx_dupl = None,
     dx_buffer = [], dx_width = 0, dx_height = 0, dx_depth = 0, dx_stride = 0\<rparr>"

subsection \<open>Local helpers\<close>

definition IsFormat32bit :: "int \<Rightarrow> bool" where
  "IsFormat32bit fmt =
     (if fmt \<noteq> DXGI_FORMAT_B8G8R8A8_UNORM \<and> fmt \<noteq> DXGI_FORMAT_B8G8R8X8_UNORM \<and>
         fmt \<noteq> DXGI_FORMAT_B8G8R8A8_TYPELESS \<and> fmt \<noteq> DXGI_FORMAT_B8G8R8A8_UNORM_SRGB \<and>
         fmt \<noteq> DXGI_FORMAT_B8G8R8X8_TYPELESS \<and> fmt \<noteq> DXGI_FORMAT_B8G8R8X8_UNORM_SRGB
      then False else True)"

text \<open>Releasing the \<open>CComPtr\<close> locals still holding a reference, innermost first.\<close>

definition scope_exit :: "handle list \<Rightarrow> os \<Rightarrow> os" where
  "scope_exit hs s = fold os_release hs s"

subsection \<open>InitializeDevice\<close>

definition dx11_drivers :: "driver_type list" where
  "dx11_drivers = [D3D_DRIVER_TYPE_HARDWARE, D3D_DRIVER_TYPE_WARP, D3D_DRIVER_TYPE_REFERENCE]"

definition dx11_feature_levels :: "feature_level list" where
  "dx11_feature_levels =
     [D3D_FEATURE_LEVEL_11_0, D3D_FEATURE_LEVEL_10_1, D3D_FEATURE_LEVEL_10_0, D3D_FEATURE_LEVEL_9_1]"

text \<open>
  \<open>D3D11CreateDevice\<close> with one driver type and the list of feature levels: it succeeds,
  creating a device and its immediate context, when the driver supports one of the levels.
\<close>

definition d3d11_create_device ::
    "dx11_env \<Rightarrow> driver_type \<Rightarrow> feature_level list \<Rightarrow> os \<Rightarrow> hresult \<times> handle option \<times> handle option \<times> os" where
  "d3d11_create_device env drv levels s =
     (if list_ex (drv_supports env drv) levels then
        (let (dev, s1) = os_create s; (ctx, s2) = os_create s1 in (S_OK, Some dev, Some ctx, s2))
      else (E_FAIL, None, None, s))"

fun init_device_loop :: "dx11_env \<Rightarrow> driver_type list \<Rightarrow> dx11 \<Rightarrow> os \<Rightarrow> bool \<times> dx11 \<times> os" where
  "init_device_loop env [] d s = (False, d, s)"
| "init_device_loop env (drv # drvs) d s =
     (let (hr, dev, ctx, s1) = d3d11_create_device env drv dx11_feature_levels s;
          d1 = d\<lparr>dx_device := dev, dx_context := ctx\<rparr>
      in if SUCCEEDED hr \<and> dev \<noteq> None \<and> ctx \<noteq> None then (True, d1, s1)
         else
           (let s2 = (case dev of Some h \<Rightarrow> os_release h s1 | None \<Rightarrow> s1);
                s3 = (case ctx of Some h \<Rightarrow> os_release h s2 | None \<Rightarrow> s2)
            in init_device_loop env drvs (d1\<lparr>dx_device := None, dx_context := None\<rparr>) s3))"

definition InitializeDevice :: "dx11_env \<Rightarrow> dx11 \<Rightarrow> os \<Rightarrow> bool \<times> dx11 \<times> os" where
  "InitializeDevice env d s = init_device_loop env dx11_drivers d s"

subsection \<open>StartOutputDuplication\<close>

text \<open>
  Five calls, each of which may fail: \<open>QueryInterface(IDXGIDevice)\<close>,
  \<open>GetParent(IDXGIAdapter)\<close>, \<open>EnumOutputs(0)\<close>, \<open>QueryInterface(IDXGIOutput1)\<close> and
  \<open>DuplicateOutput\<close>.  Each success hands a new interface to a local \<open>CComPtr\<close>; the
  locals are released on every return.  \<open>DuplicateOutput\<close> writes the duplication only
  on success, so the \<open>!cOutputDuplication\<close> check after it never fires.
\<close>

definition StartOutputDuplication :: "dx11_env \<Rightarrow> os \<Rightarrow> handle option \<times> os" where
  "StartOutputDuplication env s =
     (if \<not> SUCCEEDED (qi_dxgi_device env) then (None, s) else
      let (dxgiDevice, s1) = os_create s in
      if \<not> SUCCEEDED (get_parent_adapter env) then (None, scope_exit [dxgiDevice] s1) else
      let (dxgiAdapter, s2) = os_create s1 in
      if \<not> SUCCEEDED (enum_outputs env) then (None, scope_exit [dxgiAdapter, dxgiDevice] s2) else
      let (dxgiOutput, s3) = os_create s2 in
      if \<not> SUCCEEDED (qi_output1 env)
      then (None, scope_exit [dxgiOutput, dxgiAdapter, dxgiDevice] s3) else
      let (dxgiOutput1, s4) = os_create s3 in
      if \<not> SUCCEEDED (duplicate_output env)
      then (None, scope_exit [dxgiOutput1, dxgiOutput, dxgiAdapter, dxgiDevice] s4) else
      let (dupl, s5) = os_create s4 in
      (Some dupl, scope_exit [dxgiOutput1, dxgiOutput, dxgiAdapter, dxgiDevice] s5))"

subsection \<open>Startup and Shutdown\<close>

definition dx11_startup :: "dx11_env \<Rightarrow> dx11 \<Rightarrow> os \<Rightarrow> bool \<times> dx11 \<times> os" where
  "dx11_startup env d s =
     (let d1 = d\<lparr>dx_buffer := [], dx_width := 0, dx_height := 0, dx_depth := 0, dx_stride := 0\<rparr>;
          (ok, d2, s1) = InitializeDevice env d1 s
      in if \<not> ok then (False, d2, s1)
         else (case StartOutputDuplication env s1 of
                 (None, s2) \<Rightarrow> (False, d2, s2)
               | (Some dupl, s2) \<Rightarrow> (True, d2\<lparr>dx_dupl := Some dupl\<rparr>, s2)))"

definition dx11_shutdown :: "dx11 \<Rightarrow> os \<Rightarrow> dx11 \<times> os" where
  "dx11_shutdown d s =
     (let s1 = (case dx_staging d of Some h \<Rightarrow> os_release h s | None \<Rightarrow> s);
          s2 = (case dx_dupl d of Some h \<Rightarrow> os_release h s1 | None \<Rightarrow> s1);
          s3 = (case dx_device d of Some h \<Rightarrow> os_release h s2 | None \<Rightarrow> s2);
          s4 = (case dx_context d of Some h \<Rightarrow> os_release h s3 | None \<Rightarrow> s3)
      in (d\<lparr>dx_staging := None, dx_dupl := None, dx_device := None, dx_context := None,
            dx_buffer := []\<rparr>, s4))"

subsection \<open>AcquireNextFrame: the bounded retry loop\<close>

text \<open>
  One iteration per \<open>attempt < 4\<close>: \<open>AcquireNextFrame(50, ...)\<close>, then
  \<^item> success with \<open>LastPresentTime.QuadPart == 0\<close>: release the resource and the frame,
    \<open>Sleep(1)\<close>, retry;
  \<^item> success without a resource: release the frame, \<open>Sleep(1)\<close>, retry;
  \<^item> anything else (a failure, or a complete frame): leave the loop.
  The state carried between iterations is the last HRESULT and \<open>desktopResource\<close>.
\<close>

function acquire_loop :: "handle \<Rightarrow> nat \<Rightarrow> hresult \<Rightarrow> handle option \<Rightarrow> os \<Rightarrow> hresult \<times> handle option \<times> os" where
  "acquire_loop dupl attempt hr res s =
     (if attempt < 4 then
        (let ((hr1, t, res1), s1) = dupl_acquire 50 dupl s in
         if SUCCEEDED hr1 \<and> t = 0 then
           (let s2 = (case res1 of Some r \<Rightarrow> os_release r s1 | None \<Rightarrow> s1)
            in acquire_loop dupl (Suc attempt) hr1 None (os_sleep 1 (dupl_release_frame dupl s2)))
         else if SUCCEEDED hr1 \<and> res1 = None then
           acquire_loop dupl (Suc attempt) hr1 None (os_sleep 1 (dupl_release_frame dupl s1))
         else (hr1, res1, s1))
      else (hr, res, s))"
  by pat_completeness auto
termination
  by (relation "measure (\<lambda>(dupl, attempt, hr, res, s). 4 - attempt)") auto

declare acquire_loop.simps [simp del]

text \<open>
  After the loop: fail on a failed HRESULT or a missing resource; otherwise
  \<open>QueryInterface\<close> the resource for its texture (a second reference to the same object)
  and release \<open>desktopResource\<close>.  The result is the texture reference handed to the
  caller's \<open>CComPtr\<close>.  No path of this function releases the frame.
\<close>

definition AcquireNextFrame :: "dx11_env \<Rightarrow> handle \<Rightarrow> os \<Rightarrow> bool \<times> handle option \<times> os" where
  "AcquireNextFrame env dupl s =
     (let (hr, res, s1) = acquire_loop dupl 0 E_FAIL None s in
      case res of
        None \<Rightarrow> (False, None, s1)
      | Some r \<Rightarrow>
          if \<not> SUCCEEDED hr then (False, None, os_release r s1)
          else if \<not> SUCCEEDED (qi_texture env) then (False, None, os_release r s1)
          else (True, Some r, os_release r (os_addref r s1)))"

subsection \<open>Staging copy\<close>

definition CreateStagingTexture :: "dx11_env \<Rightarrow> os \<Rightarrow> handle option \<times> os" where
  "CreateStagingTexture env s =
     (if SUCCEEDED (create_texture env) then (let (t, s1) = os_create s in (Some t, s1))
      else (None, s))"

text \<open>\<open>ID3D11DeviceContext::CopyResource(dst, src)\<close>.\<close>

definition copy_resource :: "handle \<Rightarrow> handle \<Rightarrow> os \<Rightarrow> os" where
  "copy_resource dst src s = s\<lparr>os_tex := (os_tex s)(dst := os_tex s src)\<rparr>"

text \<open>
  \<open>Map\<close> the staging texture; on success take width and height from the texture's
  description (the mode's), the stride from the mapping's \<open>RowPitch\<close>, depth 32, size the
  buffer to \<open>m_frameStride * m_frameHeight\<close> (an \<open>unsigned\<close> product) and copy that many
  bytes from the mapping.
\<close>

definition CopyStagingTextureToMemory :: "dx11_env \<Rightarrow> handle \<Rightarrow> dx11 \<Rightarrow> os \<Rightarrow> bool \<times> dx11 \<times> os" where
  "CopyStagingTextureToMemory env stg d s =
     (if \<not> SUCCEEDED (map_result env) then (False, d, s)
      else
        (let d1 = d\<lparr>dx_width := mode_width env, dx_height := mode_height env,
                    dx_stride := row_pitch env, dx_depth := 32\<rparr>;
             n = unat (dx_stride d1 * dx_height d1)
         in (True, d1\<lparr>dx_buffer := take n (os_tex s stg)\<rparr>, s)))"

subsection \<open>CaptureFrame\<close>

definition dx11_capture :: "dx11_env \<Rightarrow> dx11 \<Rightarrow> os \<Rightarrow> bool \<times> dx11 \<times> os" where
  "dx11_capture env d s =
     (let d1 = d\<lparr>dx_width := 0, dx_height := 0, dx_stride := 0, dx_depth := 0\<rparr> in
      case (dx_device d, dx_context d, dx_dupl d) of
        (Some dev, Some ctx, Some dupl) \<Rightarrow>
          (let (ok, img, s1) = AcquireNextFrame env dupl s in
           case img of
             None \<Rightarrow> (False, d1, s1)
           | Some tex \<Rightarrow>
               if \<not> IsFormat32bit (mode_format env) then (False, d1, os_release tex s1)
               else
                 (case CreateStagingTexture env s1 of
                    (None, s2) \<Rightarrow> (False, d1, os_release tex (dupl_release_frame dupl s2))
                  | (Some stg, s2) \<Rightarrow>
                      (let s3 = copy_resource stg tex s2;
                           (ok2, d2, s4) = CopyStagingTextureToMemory env stg (d1\<lparr>dx_staging := Some stg\<rparr>) s3;
                           s5 = os_release stg s4;
                           s6 = dupl_release_frame dupl s5
                       in (ok2, d2\<lparr>dx_staging := None\<rparr>, os_release tex s6))))
      | _ \<Rightarrow> (False, d1, s))"

subsection \<open>Observations used by the lemmas\<close>

text \<open>
  An outcome the retry loop skips: a frame with no new image (\<open>LastPresentTime\<close> zero) or
  without a desktop resource.
\<close>

fun retry_outcome :: "acquire_outcome \<Rightarrow> bool" where
  "retry_outcome (Acq_Frame t img) = (t = 0 \<or> img = None)"
| "retry_outcome _ = False"

text \<open>The COM references the object holds, in the order \<open>Shutdown\<close> releases them.\<close>

definition dx_handles :: "dx11 \<Rightarrow> handle list" where
  "dx_handles d = concat (map (case_option [] (\<lambda>h. [h])) [dx_staging d, dx_dupl d, dx_device d, dx_context d])"

subsection \<open>Example: a WARP-only machine with a 2x2 desktop\<close>

text \<open>
  The hardware driver fails, WARP supports level 10.1; the duplication first delivers a frame
  with no new image, then one without a resource, then a complete 2x2 frame.
\<close>

definition example_dx_env :: dx11_env where
  "example_dx_env = \<lparr>drv_supports = (\<lambda>drv lvl. drv = D3D_DRIVER_TYPE_WARP \<and> lvl = D3D_FEATURE_LEVEL_10_1),
     qi_dxgi_device = S_OK, get_parent_adapter = S_OK, enum_outputs = S_OK, qi_output1 = S_OK,
     duplicate_output = S_OK, mode_width = 2, mode_height = 2, mode_format = DXGI_FORMAT_B8G8R8A8_UNORM,
     qi_texture = S_OK, create_texture = S_OK, map_result = S_OK, row_pitch = 8\<rparr>"

definition example_frame :: "byte list" where
  "example_frame = map of_nat [1..<17]"

definition example_dx_os :: os where
  "example_dx_os = \<lparr>os_next = 1, os_refs = (\<lambda>_. 0), os_dc_bmp = (\<lambda>_. None),
     os_bmp_dc = (\<lambda>_. None), os_tex = (\<lambda>_. []),
     os_frames = [Acq_Frame 0 (Some []), Acq_Frame 7 None, Acq_Frame 9 (Some example_frame)],
     os_held = (\<lambda>_. False), os_ms = 0\<rparr>"

definition example_dx_started :: dx11 where
  "example_dx_started = dx11_init\<lparr>dx_device := Some 1, dx_context := Some 2, dx_dupl := Some 7\<rparr>"

definition example_dx_started_os :: os where
  "example_dx_started_os = example_dx_os\<lparr>os_next := 8, os_refs := (\<lambda>_. 0)(1 := 1, 2 := 1, 7 := 1)\<rparr>"

text \<open>The same machine with an HDR desktop.\<close>

definition example_dx_env_hdr :: dx11_env where
  "example_dx_env_hdr = example_dx_env\<lparr>mode_format := DXGI_FORMAT_R16G16B16A16_FLOAT\<rparr>"

subsection \<open>Effects of the platform calls\<close>


lemma dupl_acquire_cases:
  assumes "dupl_acquire tmo dupl s = ((hr, t, res), s1)"
  shows "os_frames s1 = (if os_held s dupl then os_frames s else drop 1 (os_frames s)) \<and>
         os_ms s1 \<le> os_ms s + tmo \<and>
         (case res of
            None \<Rightarrow> os_refs s1 = os_refs s \<and> os_next s1 = os_next s
          | Some r \<Rightarrow> r = os_next s \<and> os_next s1 = Suc r \<and> os_refs s1 = (os_refs s)(r := 1) \<and>
                      SUCCEEDED hr) \<and>
         (SUCCEEDED hr \<longleftrightarrow> \<not> os_held s dupl \<and> (\<exists>t' img rest. os_frames s = Acq_Frame t' img # rest)) \<and>
         (SUCCEEDED hr \<longrightarrow> os_held s1 dupl) \<and>
         (\<not> SUCCEEDED hr \<longrightarrow> os_held s1 = os_held s) \<and>
         (os_held s dupl \<longrightarrow> s1 = s \<and> res = None)"
  using assms
  by (auto simp: dupl_acquire_def SUCCEEDED_def os_create_def Let_def
      split: if_splits list.splits acquire_outcome.splits option.splits)

lemma dupl_acquire_wf: "os_wf s \<Longrightarrow> os_wf (snd (dupl_acquire tmo dupl s))"
  by (auto simp: dupl_acquire_def os_wf_def os_create_def Let_def
      split: list.splits acquire_outcome.splits option.splits)

lemma acquire_loop_effect:
  assumes "acquire_loop dupl a hr0 None s = (hr, res, s')" and "os_wf s"
  shows "os_wf s' \<and> os_next s \<le> os_next s' \<and> os_ms s' \<le> os_ms s + (4 - a) * 51 \<and>
         length (os_frames s) \<le> length (os_frames s') + (4 - a) \<and>
         (case res of
            None \<Rightarrow> os_refs s' = os_refs s \<and> (\<not> os_held s dupl \<longrightarrow> \<not> os_held s' dupl)
          | Some r \<Rightarrow> os_next s \<le> r \<and> r < os_next s' \<and> os_refs s' = (os_refs s)(r := 1) \<and>
                      SUCCEEDED hr \<and> os_held s' dupl) \<and>
         (os_held s dupl \<longrightarrow> s' = s \<and> res = None)"
  using assms
proof (induction dupl a hr0 "None :: handle option" s arbitrary: hr res s' rule: acquire_loop.induct)
  case (1 dupl attempt hr0 s)
  show ?case
  proof (cases "attempt < 4")
    case False
    then show ?thesis using "1.prems" by (simp add: acquire_loop.simps)
  next
    case True
    obtain hr1 t res1 s1 where acq: "dupl_acquire 50 dupl s = ((hr1, t, res1), s1)"
      by (metis prod.exhaust)
    note c = dupl_acquire_cases [OF acq]
    note unf = acquire_loop.simps [of dupl attempt hr0 None s]
    have refs_back: "os_refs (case res1 of Some r \<Rightarrow> os_release r s1 | None \<Rightarrow> s1) = os_refs s"
      using c "1.prems"(2) by (auto simp: fresh_refs_restore refs_os_release_fun split: option.splits)
    consider (partial) "SUCCEEDED hr1 \<and> t = 0"
      | (nores) "SUCCEEDED hr1 \<and> t \<noteq> 0 \<and> res1 = None"
      | (stop) "\<not> (SUCCEEDED hr1 \<and> t = 0) \<and> \<not> (SUCCEEDED hr1 \<and> res1 = None)"
      by blast
    then show ?thesis
    proof cases
      case partial
      let ?s4 = "os_sleep 1 (dupl_release_frame dupl (case res1 of Some r \<Rightarrow> os_release r s1 | None \<Rightarrow> s1))"
      have rec: "acquire_loop dupl (Suc attempt) hr1 None ?s4 = (hr, res, s')"
        using "1.prems"(1) unf True acq partial by simp
      have n4: "os_next s \<le> os_next ?s4"
        using c by (auto split: option.splits)
      have wf4: "os_wf ?s4"
        using os_wf_same_refs [OF "1.prems"(2)] refs_back n4 by simp
      have IH: "os_wf s' \<and> os_next ?s4 \<le> os_next s' \<and> os_ms s' \<le> os_ms ?s4 + (4 - Suc attempt) * 51 \<and>
         length (os_frames ?s4) \<le> length (os_frames s') + (4 - Suc attempt) \<and>
         (case res of
            None \<Rightarrow> os_refs s' = os_refs ?s4 \<and> (\<not> os_held ?s4 dupl \<longrightarrow> \<not> os_held s' dupl)
          | Some r \<Rightarrow> os_next ?s4 \<le> r \<and> r < os_next s' \<and> os_refs s' = (os_refs ?s4)(r := 1) \<and>
                      SUCCEEDED hr \<and> os_held s' dupl) \<and>
         (os_held ?s4 dupl \<longrightarrow> s' = ?s4 \<and> res = None)"
        using "1.hyps"(1) [OF True acq [symmetric] refl refl refl partial refl rec wf4] by simp
      show ?thesis
        using IH c partial True refs_back n4 by (auto split: option.splits)
    next
      case nores
      let ?s4 = "os_sleep 1 (dupl_release_frame dupl s1)"
      have rec: "acquire_loop dupl (Suc attempt) hr1 None ?s4 = (hr, res, s')"
        using "1.prems"(1) unf True acq nores by simp
      have wf4: "os_wf ?s4"
        using os_wf_same_refs [OF "1.prems"(2)] c nores by simp
      have IH: "os_wf s' \<and> os_next ?s4 \<le> os_next s' \<and> os_ms s' \<le> os_ms ?s4 + (4 - Suc attempt) * 51 \<and>
         length (os_frames ?s4) \<le> length (os_frames s') + (4 - Suc attempt) \<and>
         (case res of
            None \<Rightarrow> os_refs s' = os_refs ?s4 \<and> (\<not> os_held ?s4 dupl \<longrightarrow> \<not> os_held s' dupl)
          | Some r \<Rightarrow> os_next ?s4 \<le> r \<and> r < os_next s' \<and> os_refs s' = (os_refs ?s4)(r := 1) \<and>
                      SUCCEEDED hr \<and> os_held s' dupl) \<and>
         (os_held ?s4 dupl \<longrightarrow> s' = ?s4 \<and> res = None)"
      proof -
        have nc: "\<not> (SUCCEEDED hr1 \<and> t = 0)" "SUCCEEDED hr1 \<and> res1 = None"
          using nores by auto
        show ?thesis
          using "1.hyps"(2) [OF True acq [symmetric] refl refl refl nc rec wf4] by simp
      qed
      show ?thesis
        using IH c nores True by (auto split: option.splits)
    next
      case stop
      then have "(hr, res, s') = (hr1, res1, s1)"
        using "1.prems"(1) unf True acq by auto
      moreover have "os_wf s1"
        using dupl_acquire_wf [OF "1.prems"(2), of 50 dupl] acq by simp
      ultimately show ?thesis
        using c stop True "1.prems"(2) by (auto split: option.splits)
    qed
  qed
qed

lemma AcquireNextFrame_effect:
  assumes "AcquireNextFrame env dupl s = (ok, img, s1)" and "os_wf s"
  shows "os_wf s1 \<and> os_next s \<le> os_next s1 \<and> os_ms s1 \<le> os_ms s + 204 \<and>
         length (os_frames s) \<le> length (os_frames s1) + 4 \<and>
         (case img of
            None \<Rightarrow> \<not> ok \<and> os_refs s1 = os_refs s \<and>
                    (\<not> os_held s dupl \<and> SUCCEEDED (qi_texture env) \<longrightarrow> \<not> os_held s1 dupl)
          | Some r \<Rightarrow> ok \<and> os_next s \<le> r \<and> r < os_next s1 \<and> os_refs s1 = (os_refs s)(r := 1) \<and>
                      os_held s1 dupl) \<and>
         (os_held s dupl \<longrightarrow> (ok, img, s1) = (False, None, s))"
proof -
  obtain hr res s0 where lp: "acquire_loop dupl 0 E_FAIL None s = (hr, res, s0)"
    by (metis prod.exhaust)
  note e = acquire_loop_effect [OF lp assms(2)]
  show ?thesis
  proof (cases res)
    case None
    then show ?thesis using assms(1) e lp by (auto simp: AcquireNextFrame_def)
  next
    case (Some r)
    have rback: "os_refs (os_release r s0) = os_refs s"
      using e Some assms(2) by (simp add: refs_os_release_fun fresh_refs_restore)
    have wf_back: "os_wf (os_release r s0)"
      using os_wf_same_refs [OF assms(2) rback] e by simp
    show ?thesis
    proof (cases "SUCCEEDED (qi_texture env)")
      case False
      then show ?thesis
        using assms(1) e lp Some rback wf_back by (auto simp: AcquireNextFrame_def)
    next
      case True
      have "os_release r (os_addref r s0) = s0" by simp
      then show ?thesis
        using assms(1) e lp Some True by (auto simp: AcquireNextFrame_def)
    qed
  qed
qed

lemma copy_resource_simps [simp]:
  "os_refs (copy_resource a b s) = os_refs s" "os_next (copy_resource a b s) = os_next s"
  "os_frames (copy_resource a b s) = os_frames s" "os_held (copy_resource a b s) = os_held s"
  "os_ms (copy_resource a b s) = os_ms s"
  by (simp_all add: copy_resource_def)

lemma CreateStagingTexture_effect:
  "CreateStagingTexture env s = (stg, s1) \<Longrightarrow>
     os_frames s1 = os_frames s \<and> os_held s1 = os_held s \<and> os_ms s1 = os_ms s \<and>
     (case stg of None \<Rightarrow> s1 = s
      | Some t \<Rightarrow> t = os_next s \<and> os_next s1 = Suc t \<and> os_refs s1 = (os_refs s)(t := 1))"
  by (auto simp: CreateStagingTexture_def os_create_def split: if_splits)

lemma CopyStagingTextureToMemory_effect:
  "CopyStagingTextureToMemory env stg d s = (ok, d', s') \<Longrightarrow>
     s' = s \<and> dx_device d' = dx_device d \<and> dx_context d' = dx_context d \<and> dx_dupl d' = dx_dupl d \<and>
     (\<not> ok \<longrightarrow> d' = d)"
  by (auto simp: CopyStagingTextureToMemory_def split: if_splits)

lemma dx11_capture_effect:
  assumes cap: "dx11_capture env d s = (ok, d', s')" and wf: "os_wf s"
  shows "os_wf s' \<and> os_refs s' = os_refs s \<and> os_next s \<le> os_next s' \<and> os_ms s' \<le> os_ms s + 204 \<and>
         length (os_frames s) \<le> length (os_frames s') + 4 \<and>
         dx_device d' = dx_device d \<and> dx_context d' = dx_context d \<and> dx_dupl d' = dx_dupl d \<and>
         (dx_staging d = None \<longrightarrow> dx_staging d' = None) \<and>
         (\<not> ok \<longrightarrow> dx_width d' = 0 \<and> dx_height d' = 0 \<and> dx_stride d' = 0 \<and> dx_depth d' = 0 \<and>
                  dx_buffer d' = dx_buffer d)"
proof (cases "\<exists>dev ctx dupl. dx_device d = Some dev \<and> dx_context d = Some ctx \<and> dx_dupl d = Some dupl")
  case False
  then have "(ok, d', s') = (False, d\<lparr>dx_width := 0, dx_height := 0, dx_stride := 0, dx_depth := 0\<rparr>, s)"
    using cap by (cases "dx_device d"; cases "dx_context d"; cases "dx_dupl d") (auto simp: dx11_capture_def Let_def)
  then show ?thesis using wf by auto
next
  case True
  then obtain dev ctx dupl where h: "dx_device d = Some dev" "dx_context d = Some ctx" "dx_dupl d = Some dupl"
    by blast
  obtain aok img s1 where acq: "AcquireNextFrame env dupl s = (aok, img, s1)"
    by (metis prod.exhaust)
  note a = AcquireNextFrame_effect [OF acq wf]
  let ?d1 = "d\<lparr>dx_width := 0, dx_height := 0, dx_stride := 0, dx_depth := 0\<rparr>"
  show ?thesis
  proof (cases img)
    case None
    then have "(ok, d', s') = (False, ?d1, s1)"
      using cap h acq by (simp add: dx11_capture_def)
    then show ?thesis using a None by auto
  next
    case (Some tex)
    have tback: "os_refs (os_release tex s1) = os_refs s"
      using a Some wf by (simp add: refs_os_release_fun fresh_refs_restore)
    show ?thesis
    proof (cases "IsFormat32bit (mode_format env)")
      case False
      then have "(ok, d', s') = (False, ?d1, os_release tex s1)"
        using cap h acq Some by (simp add: dx11_capture_def)
      then show ?thesis
        using a Some tback os_wf_same_refs [OF wf tback] by auto
    next
      case fmt: True
      obtain stg s2 where cst: "CreateStagingTexture env s1 = (stg, s2)"
        by (metis prod.exhaust)
      note c = CreateStagingTexture_effect [OF cst]
      show ?thesis
      proof (cases stg)
        case None
        then have "(ok, d', s') = (False, ?d1, os_release tex (dupl_release_frame dupl s1))"
          using cap h acq Some fmt cst c by (simp add: dx11_capture_def)
        moreover have "os_refs (os_release tex (dupl_release_frame dupl s1)) = os_refs s"
          using tback by (simp add: refs_os_release_fun)
        ultimately show ?thesis
          using a Some os_wf_same_refs [OF wf] by auto
      next
        case (Some t)
        obtain ok2 d2 s4 where cp: "CopyStagingTextureToMemory env t (?d1\<lparr>dx_staging := Some t\<rparr>)
              (copy_resource t tex s2) = (ok2, d2, s4)"
          by (metis prod.exhaust)
        note m = CopyStagingTextureToMemory_effect [OF cp]
        let ?s6 = "os_release tex (dupl_release_frame dupl (os_release t s4))"
        have res: "(ok, d', s') = (ok2, d2\<lparr>dx_staging := None\<rparr>, ?s6)"
          using cap h acq \<open>img = Some tex\<close> fmt cst Some cp by (simp add: dx11_capture_def)
        have "t \<noteq> tex" "os_next s \<le> t"
          using a c \<open>img = Some tex\<close> Some by auto
        then have "os_refs ?s6 = os_refs s"
          using a c m \<open>img = Some tex\<close> Some wf
          by (simp add: refs_os_release_fun fresh_refs_restore fun_upd_twist)
        moreover have "os_next s \<le> os_next ?s6"
          using a c m \<open>img = Some tex\<close> Some by simp
        ultimately show ?thesis
          using res a c m \<open>img = Some tex\<close> Some os_wf_same_refs [OF wf] h
          by (auto simp: CopyStagingTextureToMemory_def split: if_splits)
      qed
    qed
  qed
qed

lemma acquire_loop_delivers:
  assumes "list_all retry_outcome ps" and "attempt + length ps < 4"
    and "os_frames s = ps @ Acq_Frame t (Some px) # rest" and "t \<noteq> 0" and "\<not> os_held s dupl"
  shows "case acquire_loop dupl attempt hr None s of (hr', res, s') \<Rightarrow>
           hr' = S_OK \<and> (\<exists>r. res = Some r \<and> os_tex s' r = px) \<and> os_frames s' = rest"
  using assms
proof (induction ps arbitrary: attempt hr s)
  case Nil
  then show ?case
    by (simp add: acquire_loop.simps [of dupl attempt] dupl_acquire_def SUCCEEDED_def
        os_create_def Let_def)
next
  case (Cons p ps)
  then obtain t0 img0 where p: "p = Acq_Frame t0 img0" "t0 = 0 \<or> img0 = None"
    by (cases p) auto
  obtain hr1 t1 res1 s1 where acq: "dupl_acquire 50 dupl s = ((hr1, t1, res1), s1)"
    by (metis prod.exhaust)
  have acq_val: "hr1 = S_OK" "t1 = t0" "os_frames s1 = ps @ Acq_Frame t (Some px) # rest"
      "res1 = (case img0 of None \<Rightarrow> None | Some _ \<Rightarrow> Some (os_next s))"
    using acq Cons.prems p by (auto simp: dupl_acquire_def os_create_def Let_def split: option.splits)
  let ?s4 = "os_sleep 1 (dupl_release_frame dupl (case res1 of Some r \<Rightarrow> os_release r s1 | None \<Rightarrow> s1))"
  have unf: "acquire_loop dupl attempt hr None s = acquire_loop dupl (Suc attempt) S_OK None ?s4"
    using Cons.prems(2) acq acq_val p
    by (auto simp: acquire_loop.simps [of dupl attempt] SUCCEEDED_def split: option.splits)
  have "case acquire_loop dupl (Suc attempt) S_OK None ?s4 of (hr', res, s') \<Rightarrow>
          hr' = S_OK \<and> (\<exists>r. res = Some r \<and> os_tex s' r = px) \<and> os_frames s' = rest"
    using Cons.prems acq_val by (intro Cons.IH) (auto split: option.splits)
  then show ?case by (simp only: unf)
qed

lemma dx11_capture_held:
  assumes "dx_dupl d = Some dupl" and "os_held s dupl" and "os_wf s"
  shows "dx11_capture env d s = (False, d\<lparr>dx_width := 0, dx_height := 0, dx_stride := 0, dx_depth := 0\<rparr>, s)"
proof -
  obtain aok img s1 where acq: "AcquireNextFrame env dupl s = (aok, img, s1)"
    by (metis prod.exhaust)
  then have "(aok, img, s1) = (False, None, s)"
    using AcquireNextFrame_effect [OF acq assms(3)] assms(2) by simp
  then show ?thesis
    using acq assms(1)
    by (cases "dx_device d"; cases "dx_context d") (auto simp: dx11_capture_def Let_def)
qed

lemma AcquireNextFrame_delivers:
  assumes "list_all retry_outcome ps" and "length ps < 4"
    and "os_frames s = ps @ Acq_Frame t (Some px) # rest" and "t \<noteq> 0" and "\<not> os_held s dupl"
    and "SUCCEEDED (qi_texture env)" and "os_wf s"
  shows "\<exists>r s1. AcquireNextFrame env dupl s = (True, Some r, s1) \<and> os_tex s1 r = px \<and>
           os_frames s1 = rest \<and> os_held s1 dupl \<and> os_next s \<le> r \<and> os_refs s1 = (os_refs s)(r := 1)"
proof -
  obtain hr res s0 where lp: "acquire_loop dupl 0 E_FAIL None s = (hr, res, s0)"
    by (metis prod.exhaust)
  have "case acquire_loop dupl 0 E_FAIL None s of (hr', res, s') \<Rightarrow>
          hr' = S_OK \<and> (\<exists>r. res = Some r \<and> os_tex s' r = px) \<and> os_frames s' = rest"
    by (rule acquire_loop_delivers) (use assms in simp_all)
  then have d: "hr = S_OK \<and> (\<exists>r. res = Some r \<and> os_tex s0 r = px) \<and> os_frames s0 = rest"
    by (simp only: lp prod.case)
  then obtain r where r: "res = Some r" "os_tex s0 r = px" by blast
  note e = acquire_loop_effect [OF lp assms(7)]
  have rr: "os_release r (os_addref r s0) = s0" by simp
  have an: "AcquireNextFrame env dupl s = (True, Some r, s0)"
    using lp d r(1) assms(6) rr by (simp add: AcquireNextFrame_def SUCCEEDED_def)
  have "os_next s \<le> r \<and> os_refs s0 = (os_refs s)(r := 1) \<and> os_held s0 dupl"
    using e r(1) by simp
  then show ?thesis
    using an r(2) d by blast
qed

lemma dx11_capture_format_mismatch:
  assumes h: "dx_device d = Some dev" "dx_context d = Some ctx" "dx_dupl d = Some dupl"
    and q: "list_all retry_outcome ps" "length ps < 4"
      "os_frames s = ps @ Acq_Frame t (Some px) # rest" "t \<noteq> 0" "\<not> os_held s dupl"
    and env: "SUCCEEDED (qi_texture env)" "\<not> IsFormat32bit (mode_format env)"
    and wf: "os_wf s"
  shows "\<exists>s'. dx11_capture env d s = (False, d\<lparr>dx_width := 0, dx_height := 0, dx_stride := 0, dx_depth := 0\<rparr>, s') \<and>
           os_wf s' \<and> os_held s' dupl \<and> os_frames s' = rest"
proof -
  obtain r s1 where a: "AcquireNextFrame env dupl s = (True, Some r, s1)" "os_frames s1 = rest"
      "os_held s1 dupl"
    using AcquireNextFrame_delivers [OF q env(1) wf] by blast
  have cap: "dx11_capture env d s = (False, d\<lparr>dx_width := 0, dx_height := 0, dx_stride := 0, dx_depth := 0\<rparr>,
               os_release r s1)"
    using h a(1) env(2) by (simp add: dx11_capture_def)
  have "os_wf (os_release r s1)" using dx11_capture_effect [OF cap wf] by simp
  then show ?thesis using cap a(2,3) by simp
qed

subsection \<open>Startup and Shutdown\<close>

lemma scope_exit_fields [simp]:
  "os_refs (scope_exit hs s) = (\<lambda>h. os_refs s h - count_list hs h)"
  "os_next (scope_exit hs s) = os_next s" "os_frames (scope_exit hs s) = os_frames s"
  "os_held (scope_exit hs s) = os_held s" "os_ms (scope_exit hs s) = os_ms s"
  "os_tex (scope_exit hs s) = os_tex s"
  unfolding scope_exit_def
  by (induction hs arbitrary: s) (auto simp: os_release_def fun_eq_iff)

lemma os_wf_scope_exit [intro]: "os_wf s \<Longrightarrow> os_wf (scope_exit hs s)"
  by (simp add: os_wf_def)

lemma init_device_loop_effect:
  assumes "init_device_loop env drvs d s = (ok, d', s')"
  shows "dx_staging d' = dx_staging d \<and> dx_dupl d' = dx_dupl d \<and> dx_buffer d' = dx_buffer d \<and>
         dx_width d' = dx_width d \<and> dx_height d' = dx_height d \<and> dx_depth d' = dx_depth d \<and>
         dx_stride d' = dx_stride d \<and>
         (ok \<longleftrightarrow> list_ex (\<lambda>drv. list_ex (drv_supports env drv) dx11_feature_levels) drvs) \<and>
         (ok \<longrightarrow> dx_device d' = Some (os_next s) \<and> dx_context d' = Some (Suc (os_next s)) \<and>
                os_next s' = Suc (Suc (os_next s)) \<and>
                os_refs s' = (os_refs s)(os_next s := 1, Suc (os_next s) := 1) \<and>
                os_refs_only s s') \<and>
         (\<not> ok \<longrightarrow> s' = s \<and> (drvs \<noteq> [] \<longrightarrow> dx_device d' = None \<and> dx_context d' = None))"
  using assms
proof (induction drvs arbitrary: d)
  case Nil
  then show ?case by auto
next
  case (Cons drv drvs)
  show ?case
  proof (cases "list_ex (drv_supports env drv) dx11_feature_levels")
    case True
    then show ?thesis using Cons.prems
      by (auto simp: d3d11_create_device_def os_create_def SUCCEEDED_def)
  next
    case False
    let ?d1 = "d\<lparr>dx_device := None, dx_context := None\<rparr>"
    have rec: "init_device_loop env drvs ?d1 s = (ok, d', s')"
      using Cons.prems False by (simp add: d3d11_create_device_def SUCCEEDED_def)
    note ih = Cons.IH [OF rec]
    show ?thesis using ih False rec by (cases drvs) auto
  qed
qed

lemma StartOutputDuplication_effect:
  assumes "StartOutputDuplication env s = (dup, s')" and wf: "os_wf s"
  shows "os_wf s' \<and> os_next s \<le> os_next s' \<and> os_refs_only s s' \<and>
         (dup \<noteq> None \<longleftrightarrow> SUCCEEDED (qi_dxgi_device env) \<and> SUCCEEDED (get_parent_adapter env) \<and>
            SUCCEEDED (enum_outputs env) \<and> SUCCEEDED (qi_output1 env) \<and> SUCCEEDED (duplicate_output env)) \<and>
         (case dup of None \<Rightarrow> os_refs s' = os_refs s
          | Some h \<Rightarrow> os_next s \<le> h \<and> h < os_next s' \<and> os_refs s' = (os_refs s)(h := 1))"
proof -
  have fresh: "\<And>k. os_next s \<le> k \<Longrightarrow> os_refs s k = 0" using wf by (simp add: os_wf_def)
  show ?thesis
    using assms fresh
    by (auto simp: StartOutputDuplication_def os_create_def Let_def fun_eq_iff scope_exit_def
        os_release_def os_wf_def split: if_splits)
qed

lemma dx11_shutdown_scope:
  "dx11_shutdown d s = (d\<lparr>dx_staging := None, dx_dupl := None, dx_device := None, dx_context := None,
                         dx_buffer := []\<rparr>, scope_exit (dx_handles d) s)"
  by (cases "dx_staging d"; cases "dx_dupl d"; cases "dx_device d"; cases "dx_context d")
     (simp_all add: dx11_shutdown_def dx_handles_def scope_exit_def)

lemma dx11_startup_effect:
  assumes st: "dx11_startup env d s = (ok, d', s')" and wf: "os_wf s" and none: "dx_handles d = []"
  shows "os_wf s' \<and> os_next s \<le> os_next s' \<and> distinct (dx_handles d') \<and>
         (\<forall>h\<in>set (dx_handles d'). os_next s \<le> h \<and> h < os_next s') \<and>
         os_refs s' = (\<lambda>h. os_refs s h + count_list (dx_handles d') h) \<and>
         dx_staging d' = None \<and> os_refs_only s s' \<and>
         (ok \<longleftrightarrow> dx_dupl d' \<noteq> None) \<and>
         (dx_device d' \<noteq> None \<longleftrightarrow> list_ex (\<lambda>drv. list_ex (drv_supports env drv) dx11_feature_levels) dx11_drivers) \<and>
         (dx_context d' \<noteq> None \<longleftrightarrow> dx_device d' \<noteq> None)"
proof -
  have fresh: "\<And>k. os_next s \<le> k \<Longrightarrow> os_refs s k = 0" using wf by (simp add: os_wf_def)
  have d0: "dx_staging d = None" "dx_dupl d = None" "dx_device d = None" "dx_context d = None"
    using none by (auto simp: dx_handles_def split: option.splits)
  let ?d1 = "d\<lparr>dx_buffer := [], dx_width := 0, dx_height := 0, dx_depth := 0, dx_stride := 0\<rparr>"
  obtain iok d2 s1 where init: "InitializeDevice env ?d1 s = (iok, d2, s1)" by (metis prod.exhaust)
  note ie = init_device_loop_effect [OF init [unfolded InitializeDevice_def]]
  show ?thesis
  proof (cases iok)
    case False
    then have "(ok, d', s') = (False, d2, s)" using st init ie by (simp add: dx11_startup_def)
    moreover have "dx_handles d2 = []"
      using ie False d0 by (simp add: dx_handles_def dx11_drivers_def)
    ultimately show ?thesis using wf ie False by (simp add: dx_handles_def split: option.splits)
  next
    case True
    let ?n = "os_next s"
    have s1: "os_next s1 = Suc (Suc ?n)" "os_refs s1 = (os_refs s)(?n := 1, Suc ?n := 1)"
      "os_refs_only s s1" "dx_device d2 = Some ?n" "dx_context d2 = Some (Suc ?n)"
      using ie True by simp_all
    have d2: "dx_staging d2 = None" "dx_dupl d2 = None"
      using ie d0 by simp_all
    have wf1: "os_wf s1" using wf s1(1,2) fresh by (auto simp: os_wf_def)
    obtain dup s2 where sod: "StartOutputDuplication env s1 = (dup, s2)" by (metis prod.exhaust)
    note se = StartOutputDuplication_effect [OF sod wf1]
    show ?thesis
    proof (cases dup)
      case None
      then have "(ok, d', s') = (False, d2, s2)" using st init True sod by (simp add: dx11_startup_def)
      moreover have "dx_handles d2 = [?n, Suc ?n]" using s1 d2 by (simp add: dx_handles_def)
      moreover have "os_refs s2 = (\<lambda>h. os_refs s h + count_list [?n, Suc ?n] h)"
        using se None s1(2) fresh by (auto simp: fun_eq_iff)
      moreover have "os_refs_only s s2" using se s1(3) os_refs_only_trans by blast
      moreover have "Suc ?n < os_next s2" using se s1(1) by simp
      ultimately show ?thesis using se d2 s1(4,5) ie True by simp
    next
      case (Some h)
      then have "(ok, d', s') = (True, d2\<lparr>dx_dupl := Some h\<rparr>, s2)"
        using st init True sod by (simp add: dx11_startup_def)
      moreover have "dx_handles (d2\<lparr>dx_dupl := Some h\<rparr>) = [h, ?n, Suc ?n]"
        using s1 d2 by (simp add: dx_handles_def)
      moreover have h: "Suc (Suc ?n) \<le> h" "h < os_next s2" using se Some s1(1) by simp_all
      moreover have "os_refs s2 = (\<lambda>k. os_refs s k + count_list [h, ?n, Suc ?n] k)"
        using se Some s1(2) fresh h by (auto simp: fun_eq_iff)
      moreover have "os_refs_only s s2" using se s1(3) os_refs_only_trans by blast
      ultimately show ?thesis using se d2 s1(4,5) ie True by simp
    qed
  qed
qed

subsection \<open>The example machine\<close>

lemma example_startup:
  "dx11_startup example_dx_env dx11_init example_dx_os = (True, example_dx_started, example_dx_started_os)"
  by (simp add: dx11_startup_def InitializeDevice_def dx11_drivers_def dx11_feature_levels_def
      d3d11_create_device_def example_dx_env_def StartOutputDuplication_def os_create_def
      scope_exit_def os_release_def SUCCEEDED_def dx11_init_def example_dx_os_def fun_eq_iff
      example_dx_started_def example_dx_started_os_def)

lemma example_capture:
  "dx11_capture example_dx_env example_dx_started example_dx_started_os =
     (True, example_dx_started\<lparr>dx_buffer := example_frame, dx_width := 2, dx_height := 2, dx_depth := 32,
        dx_stride := 8\<rparr>,
      example_dx_started_os\<lparr>os_next := 11, os_tex := (\<lambda>_. [])(9 := example_frame, 10 := example_frame),
        os_frames := [], os_ms := 152\<rparr>)"
  by (simp add: dx11_capture_def AcquireNextFrame_def acquire_loop.simps dupl_acquire_def
      example_dx_env_def example_dx_os_def os_create_def os_release_def os_addref_def SUCCEEDED_def
      dupl_release_frame_def os_sleep_def IsFormat32bit_def CreateStagingTexture_def copy_resource_def
      CopyStagingTextureToMemory_def dx11_init_def fun_eq_iff example_frame_def DXGI_FORMAT_B8G8R8A8_UNORM_def
      DXGI_FORMAT_B8G8R8X8_UNORM_def example_dx_started_def example_dx_started_os_def)

lemma os_wf_example_dx: "os_wf example_dx_os" "os_wf example_dx_started_os"
  by (simp_all add: os_wf_def example_dx_os_def example_dx_started_os_def)

lemma count_list_pos: "0 < count_list hs h \<longleftrightarrow> h \<in> set hs"
  by (induction hs) auto

lemma live_set_add_handles:
  "os_refs s' = (\<lambda>h. os_refs s h + count_list hs h) \<Longrightarrow> live_set s' = live_set s \<union> set hs"
  by (auto simp: live_set_def live_def count_list_pos [symmetric])

lemma example_capture_hdr:
  "dx11_capture example_dx_env_hdr example_dx_started example_dx_started_os =
     (False, example_dx_started,
      example_dx_started_os\<lparr>os_next := 10, os_tex := (\<lambda>_. [])(9 := example_frame),
        os_frames := [], os_held := (\<lambda>_. False)(7 := True), os_ms := 152\<rparr>)"
  by (simp add: dx11_capture_def AcquireNextFrame_def acquire_loop.simps dupl_acquire_def
      example_dx_env_hdr_def example_dx_env_def example_dx_os_def os_create_def os_release_def
      os_addref_def SUCCEEDED_def dupl_release_frame_def os_sleep_def IsFormat32bit_def fun_eq_iff
      example_frame_def DXGI_FORMAT_R16G16B16A16_FLOAT_def DXGI_FORMAT_B8G8R8A8_UNORM_def
      DXGI_FORMAT_B8G8R8X8_UNORM_def DXGI_FORMAT_B8G8R8A8_TYPELESS_def DXGI_FORMAT_B8G8R8A8_UNORM_SRGB_def
      DXGI_FORMAT_B8G8R8X8_TYPELESS_def DXGI_FORMAT_B8G8R8X8_UNORM_SRGB_def
      example_dx_started_def example_dx_started_os_def dx11_init_def)

section \<open>Properties of the DX11 backend\<close>

text \<open>C9: CaptureFrame leaks no COM reference: on every path, success or failure, the
  reference counts after the call equal those before it.\<close>

lemma dx11_capture_leak_free:
  assumes "os_wf s" and "dx11_capture env d s = (ok, d', s')"
  shows "os_wf s' \<and> os_refs s' = os_refs s"
  using dx11_capture_effect [OF assms(2,1)] by simp

lemma dx11_capture_leak_free_witness:
  "os_refs (snd (snd (dx11_capture example_dx_env example_dx_started example_dx_started_os))) =
     os_refs example_dx_started_os"
  using dx11_capture_leak_free [OF os_wf_example_dx(2) example_capture] by (simp only: example_capture snd_conv)

text \<open>C10: CaptureFrame returns within four acquisitions: it consumes at most four results
  of the duplication and waits at most four times the 50 ms timeout plus \<open>Sleep(1)\<close>.  Every
  \<open>AcquireNextFrame\<close> that waits, whatever it returns, is charged its whole timeout, so a longer
  timeout or another retry breaks the bound.\<close>

lemma dx11_capture_time_bound:
  assumes "os_wf s" and "dx11_capture env d s = (ok, d', s')"
  shows "os_ms s' \<le> os_ms s + 204 \<and> length (os_frames s) \<le> length (os_frames s') + 4"
  using dx11_capture_effect [OF assms(2,1)] by simp

lemma dx11_capture_time_bound_witness:
  "os_ms (snd (snd (dx11_capture example_dx_env example_dx_started example_dx_started_os))) \<le>
     os_ms example_dx_started_os + 204"
  using dx11_capture_time_bound [OF os_wf_example_dx(2) example_capture]
  by (simp only: example_capture snd_conv)

text \<open>C11: a failed CaptureFrame reports no frame: width, height, stride and depth are zero,
  the previous buffer and the COM members are kept.\<close>

lemma dx11_capture_failure_resets:
  assumes "os_wf s" and "dx11_capture env d s = (False, d', s')"
  shows "dx_width d' = 0 \<and> dx_height d' = 0 \<and> dx_stride d' = 0 \<and> dx_depth d' = 0 \<and>
         dx_buffer d' = dx_buffer d \<and> dx_device d' = dx_device d \<and> dx_context d' = dx_context d \<and>
         dx_dupl d' = dx_dupl d"
  using dx11_capture_effect [OF assms(2,1)] by simp

lemma dx11_capture_failure_resets_witness:
  "dx_width (fst (snd (dx11_capture example_dx_env_hdr example_dx_started example_dx_started_os))) = 0"
  using dx11_capture_failure_resets [OF os_wf_example_dx(2) example_capture_hdr]
  by (simp only: example_capture_hdr fst_conv snd_conv)

text \<open>C12: when the duplication delivers a complete frame after at most three skipped results
  and every call succeeds, CaptureFrame returns true with the mode's width and height, the
  mapping's row pitch as stride, depth 32 and the first \<open>stride * height\<close> bytes of the frame
  as the buffer, and releases the frame.\<close>

lemma dx11_capture_success:
  assumes h: "dx_device d = Some dev" "dx_context d = Some ctx" "dx_dupl d = Some dupl"
    and q: "list_all retry_outcome ps" "length ps < 4"
      "os_frames s = ps @ Acq_Frame t (Some px) # rest" "t \<noteq> 0" "\<not> os_held s dupl"
    and env: "SUCCEEDED (qi_texture env)" "IsFormat32bit (mode_format env)"
      "SUCCEEDED (create_texture env)" "SUCCEEDED (map_result env)"
    and wf: "os_wf s"
  shows "\<exists>s'. dx11_capture env d s =
           (True, d\<lparr>dx_width := mode_width env, dx_height := mode_height env, dx_stride := row_pitch env,
                    dx_depth := 32, dx_staging := None,
                    dx_buffer := take (unat (row_pitch env * mode_height env)) px\<rparr>, s') \<and>
           os_frames s' = rest \<and> \<not> os_held s' dupl"
proof -
  obtain r s1 where a: "AcquireNextFrame env dupl s = (True, Some r, s1)" "os_tex s1 r = px"
      "os_frames s1 = rest" "os_next s \<le> r" "os_refs s1 = (os_refs s)(r := 1)"
    using AcquireNextFrame_delivers [OF q env(1) wf] by blast
  have wf1: "os_wf s1" using AcquireNextFrame_effect [OF a(1) wf] by simp
  have "r < os_next s1"
  proof (rule ccontr)
    assume "\<not> r < os_next s1"
    then have "os_refs s1 r = 0" using wf1 by (simp add: os_wf_def)
    with a(5) show False by simp
  qed
  then have ne: "os_next s1 \<noteq> r" by simp
  obtain stg s2 where cs: "CreateStagingTexture env s1 = (Some stg, s2)" "stg = os_next s1"
      "os_tex s2 = os_tex s1" "os_frames s2 = rest" "os_held s2 dupl"
    using env(3) a(3) AcquireNextFrame_effect [OF a(1) wf]
    by (simp add: CreateStagingTexture_def os_create_def)
  have tex: "os_tex (copy_resource stg r s2) stg = px"
    using cs a(2) by (simp add: copy_resource_def)
  show ?thesis
    using h a(1) cs(1,4) tex env(2,4)
    by (simp add: dx11_capture_def CopyStagingTextureToMemory_def Let_def copy_resource_def)
qed

lemma dx11_capture_success_witness:
  "\<exists>s'. dx11_capture example_dx_env example_dx_started example_dx_started_os =
     (True, example_dx_started\<lparr>dx_width := 2, dx_height := 2, dx_stride := 8, dx_depth := 32,
        dx_staging := None, dx_buffer := take 16 example_frame\<rparr>, s') \<and>
     os_frames s' = [] \<and> \<not> os_held s' 7"
  using dx11_capture_success [of example_dx_started 1 2 7 "[Acq_Frame 0 (Some []), Acq_Frame 7 None]"
      example_dx_started_os 9 example_frame "[]" example_dx_env]
  by (simp add: example_dx_started_def dx11_init_def example_dx_started_os_def example_dx_os_def
      example_dx_env_def SUCCEEDED_def IsFormat32bit_def os_wf_def)

text \<open>C13: a desktop in a format that is not 32-bit leaves the acquired frame held:
  CaptureFrame returns without \<open>ReleaseFrame\<close>, and from then on every CaptureFrame fails at
  once, whatever the driver answers, without changing any state.\<close>

lemma dx11_capture_format_mismatch_stuck:
  assumes "dx_device d = Some dev" "dx_context d = Some ctx" "dx_dupl d = Some dupl"
    and "list_all retry_outcome ps" "length ps < 4"
      "os_frames s = ps @ Acq_Frame t (Some px) # rest" "t \<noteq> 0" "\<not> os_held s dupl"
    and "SUCCEEDED (qi_texture env)" "\<not> IsFormat32bit (mode_format env)"
    and "os_wf s"
  defines "d0 \<equiv> d\<lparr>dx_width := 0, dx_height := 0, dx_stride := 0, dx_depth := 0\<rparr>"
  shows "\<exists>s'. dx11_capture env d s = (False, d0, s') \<and> os_held s' dupl \<and>
           (\<forall>env'. dx11_capture env' d0 s' = (False, d0, s'))"
proof -
  obtain s' where s': "dx11_capture env d s = (False, d0, s')" "os_wf s'" "os_held s' dupl"
    using dx11_capture_format_mismatch [OF assms(1-11)] unfolding d0_def by blast
  have "dx11_capture env' d0 s' = (False, d0, s')" for env'
    using dx11_capture_held [of d0 dupl s' env'] s'(2,3) assms(3) by (simp add: d0_def)
  then show ?thesis using s' by blast
qed

lemma dx11_capture_format_mismatch_stuck_witness:
  "\<exists>s'. dx11_capture example_dx_env_hdr example_dx_started example_dx_started_os =
     (False, example_dx_started, s') \<and> os_held s' 7 \<and>
     (\<forall>env'. dx11_capture env' example_dx_started s' = (False, example_dx_started, s'))"
  using dx11_capture_format_mismatch_stuck [of example_dx_started 1 2 7
      "[Acq_Frame 0 (Some []), Acq_Frame 7 None]" example_dx_started_os 9 example_frame "[]" example_dx_env_hdr]
  by (simp add: example_dx_started_def dx11_init_def example_dx_started_os_def example_dx_os_def
      example_dx_env_hdr_def example_dx_env_def SUCCEEDED_def IsFormat32bit_def os_wf_def
      DXGI_FORMAT_R16G16B16A16_FLOAT_def DXGI_FORMAT_B8G8R8A8_UNORM_def
      DXGI_FORMAT_B8G8R8X8_UNORM_def DXGI_FORMAT_B8G8R8A8_TYPELESS_def DXGI_FORMAT_B8G8R8A8_UNORM_SRGB_def
      DXGI_FORMAT_B8G8R8X8_TYPELESS_def DXGI_FORMAT_B8G8R8X8_UNORM_SRGB_def)

text \<open>C14: with no update pending and no frame held, CaptureFrame waits one 50 ms timeout and
  fails with no other effect: the first \<open>DXGI_ERROR_WAIT_TIMEOUT\<close> ends the retry loop.\<close>

lemma dx11_capture_no_frame:
  assumes h: "dx_device d = Some dev" "dx_context d = Some ctx" "dx_dupl d = Some dupl"
    and q: "os_frames s = []" "\<not> os_held s dupl"
  shows "dx11_capture env d s =
           (False, d\<lparr>dx_width := 0, dx_height := 0, dx_stride := 0, dx_depth := 0\<rparr>, s\<lparr>os_ms := os_ms s + 50\<rparr>)"
proof -
  have "acquire_loop dupl 0 E_FAIL None s = (DXGI_ERROR_WAIT_TIMEOUT, None, s\<lparr>os_ms := os_ms s + 50\<rparr>)"
    using q by (simp add: acquire_loop.simps [of dupl 0] dupl_acquire_def SUCCEEDED_def)
  then show ?thesis using h by (simp add: dx11_capture_def AcquireNextFrame_def)
qed

lemma dx11_capture_no_frame_witness:
  "dx11_capture example_dx_env example_dx_started (example_dx_started_os\<lparr>os_frames := []\<rparr>) =
     (False, example_dx_started, example_dx_started_os\<lparr>os_frames := [], os_ms := 50\<rparr>)"
  using dx11_capture_no_frame [of example_dx_started 1 2 7 "example_dx_started_os\<lparr>os_frames := []\<rparr>"
      example_dx_env]
  by (simp add: example_dx_started_def dx11_init_def example_dx_started_os_def example_dx_os_def)

text \<open>C15: InitializeDevice tries the hardware, WARP and reference drivers in turn; it succeeds
  exactly when one of them supports one of the four feature levels, and then holds one new
  device and one new immediate context and nothing else; on failure the platform state is
  unchanged.\<close>

lemma InitializeDevice_spec:
  assumes "InitializeDevice env d s = (ok, d', s')"
  shows "(ok \<longleftrightarrow> (\<exists>drv\<in>set dx11_drivers. \<exists>lvl\<in>set dx11_feature_levels. drv_supports env drv lvl)) \<and>
         (ok \<longrightarrow> dx_device d' = Some (os_next s) \<and> dx_context d' = Some (Suc (os_next s)) \<and>
                os_refs s' = (os_refs s)(os_next s := 1, Suc (os_next s) := 1) \<and> os_refs_only s s') \<and>
         (\<not> ok \<longrightarrow> s' = s \<and> dx_device d' = None \<and> dx_context d' = None)"
  using init_device_loop_effect [OF assms [unfolded InitializeDevice_def]]
  by (simp add: list_ex_iff dx11_drivers_def)

lemma InitializeDevice_spec_witness:
  "\<exists>d' s'. InitializeDevice example_dx_env dx11_init example_dx_os = (True, d', s') \<and>
     dx_device d' = Some 1 \<and> dx_context d' = Some 2"
proof -
  obtain ok d' s' where e: "InitializeDevice example_dx_env dx11_init example_dx_os = (ok, d', s')"
    by (metis prod.exhaust)
  then show ?thesis
    using InitializeDevice_spec [OF e]
    by (simp add: example_dx_env_def dx11_drivers_def dx11_feature_levels_def example_dx_os_def)
qed

text \<open>C16: StartOutputDuplication releases every interface it obtains on the way (the DXGI
  device, adapter, output and \<open>IDXGIOutput1\<close>) on every return: the only object it leaves
  alive is the duplication it returns, and it returns one exactly when all five calls
  succeed.\<close>

lemma StartOutputDuplication_releases_locals:
  assumes "os_wf s" and "StartOutputDuplication env s = (dup, s')"
  shows "live_set s' = live_set s \<union> set_option dup \<and> os_wf s' \<and>
         (dup \<noteq> None \<longleftrightarrow> SUCCEEDED (qi_dxgi_device env) \<and> SUCCEEDED (get_parent_adapter env) \<and>
            SUCCEEDED (enum_outputs env) \<and> SUCCEEDED (qi_output1 env) \<and> SUCCEEDED (duplicate_output env))"
proof -
  note e = StartOutputDuplication_effect [OF assms(2,1)]
  have "live_set s' = live_set s \<union> set_option dup"
  proof (cases dup)
    case None
    then show ?thesis using e by (simp add: live_set_def live_def)
  next
    case (Some h)
    then show ?thesis using e by (auto simp: live_set_def live_def)
  qed
  then show ?thesis using e by simp
qed

lemma StartOutputDuplication_releases_locals_witness:
  "\<exists>s'. StartOutputDuplication example_dx_env example_dx_os = (Some 5, s') \<and>
     live_set s' = live_set example_dx_os \<union> {5}"
proof -
  obtain dup s' where e: "StartOutputDuplication example_dx_env example_dx_os = (dup, s')"
    by (metis prod.exhaust)
  moreover have "dup = Some 5"
    using e by (simp add: StartOutputDuplication_def example_dx_env_def example_dx_os_def os_create_def
        SUCCEEDED_def eval_nat_numeral)
  ultimately show ?thesis
    using StartOutputDuplication_releases_locals [OF os_wf_example_dx(1) e] by simp
qed

text \<open>C17: a Startup followed by a Shutdown leaves no COM object alive, whether Startup
  succeeded or failed at any step, and the object holds no reference afterwards.\<close>

lemma dx11_startup_shutdown_no_leak:
  assumes "os_wf s" and "dx_handles d = []"
    and "dx11_startup env d s = (ok, d1, s1)" and "dx11_shutdown d1 s1 = (d2, s2)"
  shows "os_refs s2 = os_refs s \<and> live_set s2 = live_set s \<and> dx_handles d2 = [] \<and> os_wf s2"
proof -
  note e = dx11_startup_effect [OF assms(3,1,2)]
  have sd: "d2 = d1\<lparr>dx_staging := None, dx_dupl := None, dx_device := None, dx_context := None,
      dx_buffer := []\<rparr>" "s2 = scope_exit (dx_handles d1) s1"
    using assms(4) by (simp_all add: dx11_shutdown_scope)
  have s2: "s2 = scope_exit (dx_handles d1) s1" "dx_handles d2 = []"
    using sd by (simp_all add: dx_handles_def)
  then have r: "os_refs s2 = os_refs s" using e by (simp add: fun_eq_iff)
  moreover have "os_wf s2" using s2(1) e by blast
  ultimately show ?thesis using s2(2) by (simp add: live_set_def live_def)
qed

lemma dx11_startup_shutdown_no_leak_witness:
  "os_refs (snd (dx11_shutdown example_dx_started example_dx_started_os)) = os_refs example_dx_os"
proof -
  have h: "dx_handles dx11_init = []" by (simp add: dx_handles_def dx11_init_def)
  show ?thesis
    using dx11_startup_shutdown_no_leak [OF os_wf_example_dx(1) h example_startup prod.collapse [symmetric]]
    by simp
qed

text \<open>C18: a Startup whose device negotiation succeeds but whose output duplication fails
  returns false and still holds the device and the immediate context, alive until Shutdown.\<close>

lemma dx11_startup_failure_keeps_device:
  assumes "os_wf s" and "dx_handles d = []" and "dx11_startup env d s = (False, d', s')"
    and "\<exists>drv\<in>set dx11_drivers. \<exists>lvl\<in>set dx11_feature_levels. drv_supports env drv lvl"
  shows "\<exists>dev ctx. dx_device d' = Some dev \<and> dx_context d' = Some ctx \<and> dx_dupl d' = None \<and>
           live_set s' = live_set s \<union> {dev, ctx} \<and> dev \<notin> live_set s \<and> ctx \<notin> live_set s"
proof -
  note e = dx11_startup_effect [OF assms(3,1,2)]
  obtain dev ctx where dc: "dx_device d' = Some dev" "dx_context d' = Some ctx"
    using e assms(4) by (auto simp: list_ex_iff)
  have hs: "dx_handles d' = [dev, ctx]" using e dc by (simp add: dx_handles_def)
  have r: "os_refs s' = (\<lambda>h. os_refs s h + count_list (dx_handles d') h)" using e by blast
  have "live_set s' = live_set s \<union> {dev, ctx}" using live_set_add_handles [OF r] hs by simp
  moreover have "dev \<notin> live_set s" "ctx \<notin> live_set s"
    using e hs assms(1) by (auto simp: live_set_def live_def os_wf_def)
  ultimately show ?thesis using dc e by simp
qed

lemma dx11_startup_failure_keeps_device_witness:
  "\<exists>dev ctx. dx_device (fst (snd (dx11_startup (example_dx_env\<lparr>duplicate_output := E_FAIL\<rparr>) dx11_init example_dx_os))) = Some dev \<and>
     dx_context (fst (snd (dx11_startup (example_dx_env\<lparr>duplicate_output := E_FAIL\<rparr>) dx11_init example_dx_os))) = Some ctx"
proof -
  let ?env = "example_dx_env\<lparr>duplicate_output := E_FAIL\<rparr>"
  obtain ok d' s' where e: "dx11_startup ?env dx11_init example_dx_os = (ok, d', s')"
    by (metis prod.exhaust)
  have h: "dx_handles dx11_init = []" by (simp add: dx_handles_def dx11_init_def)
  have "ok = False"
    using e by (simp add: dx11_startup_def InitializeDevice_def dx11_drivers_def dx11_feature_levels_def
        d3d11_create_device_def example_dx_env_def StartOutputDuplication_def os_create_def Let_def
        scope_exit_def SUCCEEDED_def)
  then have e': "dx11_startup ?env dx11_init example_dx_os = (False, d', s')" using e by simp
  have sup: "\<exists>drv\<in>set dx11_drivers. \<exists>lvl\<in>set dx11_feature_levels. drv_supports ?env drv lvl"
    by (simp add: example_dx_env_def dx11_drivers_def dx11_feature_levels_def)
  show ?thesis
    using dx11_startup_failure_keeps_device [OF os_wf_example_dx(1) h e' sup]
    unfolding e' fst_conv snd_conv by blast
qed

end
