(* ===== verification/Session.thy ===== *)
theory Session
  imports GDI DX11
begin

text \<open>
  \<open>ScreenCapture\<close> (src/ScreenCap.h): the facade.  Its fields are the record \<open>session\<close>:
  \<open>m_mode\<close> and the two backend pointers, each \<open>None\<close> when null and otherwise the backend
  object it points to.  \<open>new\<close> is the backend's initial object, \<open>delete\<close> runs the backend's
  destructor, which calls its \<open>Shutdown\<close>.  Every method takes the platform state and returns
  it updated; the environment of each backend call (system metrics, driver answers, screen
  contents) is a parameter of the facade method that makes it.
\<close>

datatype ScreenCaptureMode = ScreenCaptureMode_Invalid | ScreenCaptureMode_GDI | ScreenCaptureMode_DX11

record session =
  sc_mode :: ScreenCaptureMode
  sc_capgdi :: "gdi option"
  sc_capdx11 :: "dx11 option"

definition session_init :: session where
  "session_init = \<lparr>sc_mode = ScreenCaptureMode_Invalid, sc_capgdi = None, sc_capdx11 = None\<rparr>"

definition sc_shutdown :: "session \<Rightarrow> os \<Rightarrow> session \<times> os" where
  "sc_shutdown sc s =
     (let s1 = (case sc_capgdi sc of Some g \<Rightarrow> snd (gdi_shutdown g s) | None \<Rightarrow> s);
          s2 = (case sc_capdx11 sc of Some d \<Rightarrow> snd (dx11_shutdown d s1) | None \<Rightarrow> s1)
      in (sc\<lparr>sc_capgdi := None, sc_capdx11 := None, sc_mode := ScreenCaptureMode_Invalid\<rparr>, s2))"

definition sc_startup ::
    "gdi_env \<Rightarrow> dx11_env \<Rightarrow> ScreenCaptureMode \<Rightarrow> session \<Rightarrow> os \<Rightarrow> bool \<times> session \<times> os" where
  "sc_startup genv denv mode sc s =
     (let (sc1, s1) = (if sc_mode sc \<noteq> ScreenCaptureMode_Invalid then sc_shutdown sc s else (sc, s));
          sc2 = sc1\<lparr>sc_mode := mode\<rparr>
      in case mode of
           ScreenCaptureMode_GDI \<Rightarrow>
             (let (ok, g, s2) = gdi_startup genv gdi_init s1 in (ok, sc2\<lparr>sc_capgdi := Some g\<rparr>, s2))
         | ScreenCaptureMode_DX11 \<Rightarrow>
             (let (ok, d, s2) = dx11_startup denv dx11_init s1 in (ok, sc2\<lparr>sc_capdx11 := Some d\<rparr>, s2))
         | ScreenCaptureMode_Invalid \<Rightarrow> (False, sc2, s1))"

definition sc_capture :: "screen \<Rightarrow> dx11_env \<Rightarrow> session \<Rightarrow> os \<Rightarrow> bool \<times> session \<times> os" where
  "sc_capture scr denv sc s =
     (case sc_capgdi sc of
        Some g \<Rightarrow> (let (ok, g', s') = gdi_capture scr g s in (ok, sc\<lparr>sc_capgdi := Some g'\<rparr>, s'))
      | None \<Rightarrow>
          (case sc_capdx11 sc of
             Some d \<Rightarrow> (let (ok, d', s') = dx11_capture denv d s in (ok, sc\<lparr>sc_capdx11 := Some d'\<rparr>, s'))
           | None \<Rightarrow> (False, sc, s)))"

subsection \<open>Accessors\<close>

definition sc_frame_width :: "session \<Rightarrow> u32" where
  "sc_frame_width sc = (case sc_capgdi sc of Some g \<Rightarrow> gdi_width g
     | None \<Rightarrow> (case sc_capdx11 sc of Some d \<Rightarrow> dx_width d | None \<Rightarrow> 0))"

definition sc_frame_height :: "session \<Rightarrow> u32" where
  "sc_frame_height sc = (case sc_capgdi sc of Some g \<Rightarrow> gdi_height g
     | None \<Rightarrow> (case sc_capdx11 sc of Some d \<Rightarrow> dx_height d | None \<Rightarrow> 0))"

definition sc_frame_depth :: "session \<Rightarrow> u32" where
  "sc_frame_depth sc = (case sc_capgdi sc of Some g \<Rightarrow> gdi_depth g
     | None \<Rightarrow> (case sc_capdx11 sc of Some d \<Rightarrow> dx_depth d | None \<Rightarrow> 0))"

definition sc_frame_stride :: "session \<Rightarrow> u32" where
  "sc_frame_stride sc = (case sc_capgdi sc of Some g \<Rightarrow> gdi_frame_stride g
     | None \<Rightarrow> (case sc_capdx11 sc of Some d \<Rightarrow> dx_stride d | None \<Rightarrow> 0))"

text \<open>
  A \<open>const uint8_t *\<close> is the buffer it points into (\<open>None\<close> for \<open>nullptr\<close>) and a byte
  offset; adding an \<open>unsigned\<close> adds its value.  Reading is defined inside the buffer only.
\<close>

datatype cptr = CPtr "byte list option" nat

fun ptr_add :: "cptr \<Rightarrow> u32 \<Rightarrow> cptr" where
  "ptr_add (CPtr b i) k = CPtr b (i + unat k)"

fun ptr_read :: "cptr \<Rightarrow> byte option" where
  "ptr_read (CPtr (Some b) i) = (if i < length b then Some (b ! i) else None)"
| "ptr_read (CPtr None i) = None"

definition sc_frame_buffer :: "session \<Rightarrow> cptr" where
  "sc_frame_buffer sc = (case sc_capgdi sc of Some g \<Rightarrow> CPtr (gdi_dibBits g) 0
     | None \<Rightarrow> (case sc_capdx11 sc of Some d \<Rightarrow> CPtr (Some (dx_buffer d)) 0 | None \<Rightarrow> CPtr None 0))"

definition sc_scanline_ptr :: "session \<Rightarrow> u32 \<Rightarrow> cptr" where
  "sc_scanline_ptr sc y = ptr_add (sc_frame_buffer sc) (sc_frame_stride sc * y)"

definition sc_pixel_ptr :: "session \<Rightarrow> u32 \<Rightarrow> u32 \<Rightarrow> cptr" where
  "sc_pixel_ptr sc y x =
     ptr_add (ptr_add (sc_frame_buffer sc) (sc_frame_stride sc * y)) (x * sc_frame_depth sc div 8)"

text \<open>The backends' own pointer accessors (inline in src/ScreenCapGDI.h and
  src/ScreenCapDX11.h).  The GDI ones return \<open>nullptr\<close> when there is no pixel memory; the
  DX11 ones offset \<open>m_frameBuffer.data()\<close>.  The facade does not call them: it recomposes
  the pointer from \<open>GetFrameBuffer\<close>, \<open>GetFrameStride\<close> and \<open>GetFrameDepth\<close>.\<close>

definition gdi_scanline_ptr :: "gdi \<Rightarrow> u32 \<Rightarrow> cptr" where
  "gdi_scanline_ptr g y =
     (case gdi_dibBits g of None \<Rightarrow> CPtr None 0 | Some b \<Rightarrow> ptr_add (CPtr (Some b) 0) (gdi_frame_stride g * y))"

definition gdi_pixel_ptr :: "gdi \<Rightarrow> u32 \<Rightarrow> u32 \<Rightarrow> cptr" where
  "gdi_pixel_ptr g y x =
     (case gdi_dibBits g of None \<Rightarrow> CPtr None 0
      | Some b \<Rightarrow> ptr_add (ptr_add (CPtr (Some b) 0) (gdi_frame_stride g * y)) (x * gdi_depth g div 8))"

definition dx11_scanline_ptr :: "dx11 \<Rightarrow> u32 \<Rightarrow> cptr" where
  "dx11_scanline_ptr d y = ptr_add (CPtr (Some (dx_buffer d)) 0) (dx_stride d * y)"

definition dx11_pixel_ptr :: "dx11 \<Rightarrow> u32 \<Rightarrow> u32 \<Rightarrow> cptr" where
  "dx11_pixel_ptr d y x = ptr_add (ptr_add (CPtr (Some (dx_buffer d)) 0) (dx_stride d * y)) (x * dx_depth d div 8)"

subsection \<open>Sessions as sequences of calls\<close>

datatype sc_op =
    Op_Startup gdi_env dx11_env ScreenCaptureMode
  | Op_Shutdown
  | Op_Capture screen dx11_env

fun sc_step :: "sc_op \<Rightarrow> session \<times> os \<Rightarrow> session \<times> os" where
  "sc_step (Op_Startup genv denv mode) (sc, s) = snd (sc_startup genv denv mode sc s)"
| "sc_step Op_Shutdown (sc, s) = sc_shutdown sc s"
| "sc_step (Op_Capture scr denv) (sc, s) = snd (sc_capture scr denv sc s)"

inductive sc_reach :: "os \<Rightarrow> session \<times> os \<Rightarrow> bool" for s0 where
  init: "sc_reach s0 (session_init, s0)"
| step: "sc_reach s0 c \<Longrightarrow> sc_reach s0 (sc_step op c)"

subsection \<open>Invariant\<close>

definition sc_handles :: "session \<Rightarrow> handle list" where
  "sc_handles sc = (case sc_capgdi sc of Some g \<Rightarrow> gdi_handles g | None \<Rightarrow> []) @
                   (case sc_capdx11 sc of Some d \<Rightarrow> dx_handles d | None \<Rightarrow> [])"

definition sc_mode_ok :: "session \<Rightarrow> bool" where
  "sc_mode_ok sc \<longleftrightarrow>
     (case sc_mode sc of
        ScreenCaptureMode_Invalid \<Rightarrow> sc_capgdi sc = None \<and> sc_capdx11 sc = None
      | ScreenCaptureMode_GDI \<Rightarrow> sc_capgdi sc \<noteq> None \<and> sc_capdx11 sc = None
      | ScreenCaptureMode_DX11 \<Rightarrow> sc_capgdi sc = None \<and> sc_capdx11 sc \<noteq> None)"

definition sc_backend_ok :: "session \<Rightarrow> os \<Rightarrow> bool" where
  "sc_backend_ok sc s \<longleftrightarrow>
     (case sc_capgdi sc of Some g \<Rightarrow> gdi_holds g s \<or> gdi_handles g = [] | None \<Rightarrow> True) \<and>
     (case sc_capdx11 sc of Some d \<Rightarrow> dx_staging d = None | None \<Rightarrow> True)"

definition sc_inv :: "os \<Rightarrow> session \<times> os \<Rightarrow> bool" where
  "sc_inv s0 c \<longleftrightarrow> (case c of (sc, s) \<Rightarrow>
     os_wf s \<and> os_next s0 \<le> os_next s \<and> sc_mode_ok sc \<and> sc_backend_ok sc s \<and>
     os_refs s = (\<lambda>h. os_refs s0 h + count_list (sc_handles sc) h) \<and>
     (\<forall>h\<in>set (sc_handles sc). os_next s0 \<le> h))"

subsection \<open>Example sessions\<close>

text \<open>A single 2x2 monitor for the GDI backend; the DX11 examples are those of the DX11 theory.\<close>

definition example_small_env :: gdi_env where
  "example_small_env = \<lparr>sm_cxscreen = 2, sm_cyscreen = 2, sm_cmonitors = 1,
     sm_cxvirtualscreen = 2, sm_cyvirtualscreen = 2, dc_alloc_ok = True, dib_alloc_ok = True\<rparr>"

definition example_dx_session :: session where
  "example_dx_session = \<lparr>sc_mode = ScreenCaptureMode_DX11, sc_capgdi = None, sc_capdx11 = Some example_dx_started\<rparr>"

subsection \<open>The invariant is preserved\<close>

lemma sc_inv_init: "os_wf s0 \<Longrightarrow> sc_inv s0 (session_init, s0)"
  by (simp add: sc_inv_def session_init_def sc_mode_ok_def sc_backend_ok_def sc_handles_def)

lemma sc_shutdown_effect:
  assumes mo: "sc_mode_ok sc" and bo: "sc_backend_ok sc s" and sd: "sc_shutdown sc s = (sc', s')"
  shows "os_refs s' = (\<lambda>h. os_refs s h - count_list (sc_handles sc) h) \<and> os_next s' = os_next s \<and>
         sc' = sc\<lparr>sc_capgdi := None, sc_capdx11 := None, sc_mode := ScreenCaptureMode_Invalid\<rparr>"
proof -
  have sc': "sc' = sc\<lparr>sc_capgdi := None, sc_capdx11 := None, sc_mode := ScreenCaptureMode_Invalid\<rparr>"
    using sd by (simp add: sc_shutdown_def Let_def)
  have "os_refs s' = (\<lambda>h. os_refs s h - count_list (sc_handles sc) h) \<and> os_next s' = os_next s"
  proof (cases "sc_mode sc")
    case ScreenCaptureMode_Invalid
    then show ?thesis using mo sd by (simp add: sc_mode_ok_def sc_handles_def sc_shutdown_def)
  next
    case ScreenCaptureMode_GDI
    then obtain g where g: "sc_capgdi sc = Some g" "sc_capdx11 sc = None"
      using mo by (auto simp: sc_mode_ok_def)
    obtain g' s1 where gs: "gdi_shutdown g s = (g', s1)" by (metis prod.exhaust)
    have s': "s' = s1" using sd g gs by (simp add: sc_shutdown_def)
    show ?thesis
    proof (cases "gdi_handles g = []")
      case True
      then show ?thesis using gs s' g by (simp add: gdi_shutdown_unstarted sc_handles_def)
    next
      case False
      then have "gdi_holds g s" using bo g by (simp add: sc_backend_ok_def)
      from gdi_shutdown_refs [OF this gs] show ?thesis using s' g by (simp add: sc_handles_def)
    qed
  next
    case ScreenCaptureMode_DX11
    then obtain d where d: "sc_capgdi sc = None" "sc_capdx11 sc = Some d"
      using mo by (auto simp: sc_mode_ok_def)
    then have "s' = scope_exit (dx_handles d) s"
      using sd by (simp add: sc_shutdown_def dx11_shutdown_scope)
    then show ?thesis using d by (simp add: sc_handles_def)
  qed
  then show ?thesis using sc' by simp
qed

lemma sc_shutdown_inv:
  assumes wf0: "os_wf s0" and inv: "sc_inv s0 (sc, s)" and sd: "sc_shutdown sc s = (sc', s')"
  shows "sc_inv s0 (sc', s') \<and> sc_handles sc' = [] \<and> os_refs s' = os_refs s0 \<and>
         sc_mode sc' = ScreenCaptureMode_Invalid \<and> os_next s' = os_next s"
proof -
  have i: "os_wf s" "os_next s0 \<le> os_next s" "sc_mode_ok sc" "sc_backend_ok sc s"
      "os_refs s = (\<lambda>h. os_refs s0 h + count_list (sc_handles sc) h)"
    using inv by (simp_all add: sc_inv_def)
  have r: "os_refs s' = os_refs s0 \<and> os_next s' = os_next s"
    and sc': "sc' = sc\<lparr>sc_capgdi := None, sc_capdx11 := None, sc_mode := ScreenCaptureMode_Invalid\<rparr>"
    using sc_shutdown_effect [OF i(3,4) sd] i(5) by simp_all
  have "os_wf s'" using r i(1,2) wf0 by (simp add: os_wf_def)
  then show ?thesis
    using r sc' i(2) by (simp add: sc_inv_def sc_mode_ok_def sc_backend_ok_def sc_handles_def)
qed

lemma sc_backend_ok_same:
  assumes "sc_backend_ok sc s" and "\<forall>h\<in>set (sc_handles sc). os_refs s' h = os_refs s h"
    and "os_dc_bmp s' = os_dc_bmp s" "os_bmp_dc s' = os_bmp_dc s"
  shows "sc_backend_ok sc s'"
  using assms by (auto simp: sc_backend_ok_def gdi_holds_def sc_handles_def gdi_handles_def split: option.splits)

lemma sc_startup_inv:
  assumes wf0: "os_wf s0" and inv: "sc_inv s0 (sc, s)"
    and st: "sc_startup genv denv mode sc s = (ok, sc', s')"
  shows "sc_inv s0 (sc', s') \<and> sc_mode sc' = mode"
proof -
  obtain sc1 s1 where c1: "(if sc_mode sc \<noteq> ScreenCaptureMode_Invalid then sc_shutdown sc s else (sc, s)) = (sc1, s1)"
    by (metis prod.exhaust)
  have h1: "sc_inv s0 (sc1, s1) \<and> sc_capgdi sc1 = None \<and> sc_capdx11 sc1 = None \<and> os_refs s1 = os_refs s0"
  proof (cases "sc_mode sc = ScreenCaptureMode_Invalid")
    case True
    then show ?thesis using c1 inv by (simp add: sc_inv_def sc_mode_ok_def sc_handles_def)
  next
    case False
    then have "sc_shutdown sc s = (sc1, s1)" using c1 by simp
    moreover from this have "sc_capgdi sc1 = None \<and> sc_capdx11 sc1 = None"
      by (auto simp: sc_shutdown_def Let_def)
    ultimately show ?thesis using sc_shutdown_inv [OF wf0 inv] by blast
  qed
  then have i1: "os_wf s1" "os_next s0 \<le> os_next s1" "sc_capgdi sc1 = None" "sc_capdx11 sc1 = None"
      "os_refs s1 = os_refs s0"
    unfolding sc_inv_def by blast+
  let ?sc2 = "sc1\<lparr>sc_mode := mode\<rparr>"
  have fresh0: "\<And>h. os_next s0 \<le> h \<Longrightarrow> os_refs s0 h = 0" using wf0 by (simp add: os_wf_def)
  show ?thesis
  proof (cases mode)
    case ScreenCaptureMode_Invalid
    then have "(sc', s') = (?sc2, s1)" using st c1 by (simp add: sc_startup_def)
    then show ?thesis using h1 ScreenCaptureMode_Invalid
      by (simp add: sc_inv_def sc_mode_ok_def sc_backend_ok_def sc_handles_def)
  next
    case ScreenCaptureMode_GDI
    obtain gok g s2 where gs: "gdi_startup genv gdi_init s1 = (gok, g, s2)" by (metis prod.exhaust)
    then have res: "sc' = ?sc2\<lparr>sc_capgdi := Some g\<rparr>" "s' = s2"
      using st c1 ScreenCaptureMode_GDI by (simp_all add: sc_startup_def)
    note e = gdi_startup_refs [OF i1(1) gs]
    have "gdi_holds g s2 \<or> gdi_handles g = []"
      using e by (cases gok) (auto simp: gdi_ready_holds gdi_init_def)
    then show ?thesis
      using e res i1 ScreenCaptureMode_GDI
      by (auto simp: sc_inv_def sc_mode_ok_def sc_backend_ok_def sc_handles_def gdi_init_def)
  next
    case ScreenCaptureMode_DX11
    obtain dok d s2 where ds: "dx11_startup denv dx11_init s1 = (dok, d, s2)" by (metis prod.exhaust)
    then have res: "sc' = ?sc2\<lparr>sc_capdx11 := Some d\<rparr>" "s' = s2"
      using st c1 ScreenCaptureMode_DX11 by (simp_all add: sc_startup_def)
    have h0: "dx_handles dx11_init = []" by (simp add: dx_handles_def dx11_init_def)
    note e = dx11_startup_effect [OF ds i1(1) h0]
    show ?thesis
      using e res i1 ScreenCaptureMode_DX11
      by (auto simp: sc_inv_def sc_mode_ok_def sc_backend_ok_def sc_handles_def)
  qed
qed

lemma sc_capture_effect:
  assumes wf: "os_wf s" and mo: "sc_mode_ok sc" and bo: "sc_backend_ok sc s"
    and cap: "sc_capture scr denv sc s = (ok, sc', s')"
  shows "sc_mode sc' = sc_mode sc \<and> sc_handles sc' = sc_handles sc \<and> os_refs s' = os_refs s \<and>
         os_wf s' \<and> os_next s \<le> os_next s' \<and> sc_mode_ok sc' \<and> sc_backend_ok sc' s'"
proof (cases "sc_capgdi sc")
  case (Some g)
  obtain gok g' s1 where gc: "gdi_capture scr g s = (gok, g', s1)" by (metis prod.exhaust)
  have res: "sc' = sc\<lparr>sc_capgdi := Some g'\<rparr>" "s' = s1" using cap Some gc by (simp_all add: sc_capture_def)
  show ?thesis using gdi_capture_effect [OF wf gc] res mo bo Some
    by (auto simp: sc_mode_ok_def sc_backend_ok_def sc_handles_def split: ScreenCaptureMode.splits)
next
  case None
  show ?thesis
  proof (cases "sc_capdx11 sc")
    case (Some d)
    obtain dok d' s1 where dc: "dx11_capture denv d s = (dok, d', s1)" by (metis prod.exhaust)
    have res: "sc' = sc\<lparr>sc_capdx11 := Some d'\<rparr>" "s' = s1" using cap None Some dc by (simp_all add: sc_capture_def)
    have st: "dx_staging d = None" using bo None Some by (simp add: sc_backend_ok_def)
    have "dx_handles d' = dx_handles d" "dx_staging d' = None"
      using dx11_capture_effect [OF dc wf] st by (simp_all add: dx_handles_def)
    then show ?thesis using dx11_capture_effect [OF dc wf] res mo bo None Some
      by (auto simp: sc_mode_ok_def sc_backend_ok_def sc_handles_def split: ScreenCaptureMode.splits)
  next
    case None
    then show ?thesis using cap \<open>sc_capgdi sc = None\<close> wf mo bo by (simp add: sc_capture_def)
  qed
qed

lemma sc_capture_inv:
  assumes inv: "sc_inv s0 (sc, s)" and cap: "sc_capture scr denv sc s = (ok, sc', s')"
  shows "sc_inv s0 (sc', s') \<and> sc_mode sc' = sc_mode sc \<and> sc_handles sc' = sc_handles sc \<and>
         os_refs s' = os_refs s"
proof -
  have i: "os_wf s" "sc_mode_ok sc" "sc_backend_ok sc s"
    using inv by (simp_all add: sc_inv_def)
  show ?thesis using sc_capture_effect [OF i cap] inv by (auto simp: sc_inv_def)
qed

lemma sc_step_inv:
  assumes wf0: "os_wf s0" and inv: "sc_inv s0 (sc, s)"
  shows "sc_inv s0 (sc_step op (sc, s))"
proof (cases op)
  case (Op_Startup genv denv mode)
  obtain ok sc' s' where "sc_startup genv denv mode sc s = (ok, sc', s')" by (metis prod.exhaust)
  then show ?thesis using sc_startup_inv [OF wf0 inv] Op_Startup by simp
next
  case Op_Shutdown
  obtain sc' s' where "sc_shutdown sc s = (sc', s')" by (metis prod.exhaust)
  then show ?thesis using sc_shutdown_inv [OF wf0 inv] Op_Shutdown by simp
next
  case (Op_Capture scr denv)
  obtain ok sc' s' where "sc_capture scr denv sc s = (ok, sc', s')" by (metis prod.exhaust)
  then show ?thesis using sc_capture_inv [OF inv] Op_Capture by simp
qed

lemma sc_reach_inv: "sc_reach s0 c \<Longrightarrow> os_wf s0 \<Longrightarrow> sc_inv s0 c"
proof (induction rule: sc_reach.induct)
  case init
  then show ?case by (rule sc_inv_init)
next
  case (step c op)
  then show ?case by (cases c) (simp add: sc_step_inv)
qed

lemma example_dx_session_startup:
  "sc_startup genv example_dx_env ScreenCaptureMode_DX11 session_init example_dx_os =
     (True, example_dx_session, example_dx_started_os)"
  using example_startup by (simp add: sc_startup_def session_init_def example_dx_session_def)

lemma example_dx_session_reach: "sc_reach example_dx_os (example_dx_session, example_dx_started_os)"
  using sc_reach.step [OF sc_reach.init, of example_dx_os "Op_Startup example_env example_dx_env ScreenCaptureMode_DX11"]
  by (simp add: example_dx_session_startup)

text \<open>The facade's recomposed pointers are the backend's own whenever the backend has pixel
  memory; a GDI backend without it (never started, or after a failed Startup) answers
  \<open>nullptr\<close> itself, while the facade offsets the null pointer by \<open>stride * y\<close>.\<close>

lemma sc_pointers_backend:
  shows "sc_capgdi sc = Some g \<Longrightarrow> gdi_dibBits g \<noteq> None \<Longrightarrow>
           sc_scanline_ptr sc y = gdi_scanline_ptr g y \<and> sc_pixel_ptr sc y x = gdi_pixel_ptr g y x"
    and "sc_capgdi sc = None \<Longrightarrow> sc_capdx11 sc = Some d \<Longrightarrow>
           sc_scanline_ptr sc y = dx11_scanline_ptr d y \<and> sc_pixel_ptr sc y x = dx11_pixel_ptr d y x"
    and "sc_capgdi sc = Some g \<Longrightarrow> gdi_dibBits g = None \<Longrightarrow>
           gdi_scanline_ptr g y = CPtr None 0 \<and> sc_scanline_ptr sc y = CPtr None (unat (gdi_frame_stride g * y))"
  by (auto simp: sc_scanline_ptr_def sc_pixel_ptr_def sc_frame_buffer_def sc_frame_stride_def sc_frame_depth_def
      gdi_scanline_ptr_def gdi_pixel_ptr_def dx11_scanline_ptr_def dx11_pixel_ptr_def)

section \<open>Properties of the facade\<close>

text \<open>C19: in every state a sequence of facade calls reaches, at most one backend exists, and
  \<open>m_mode\<close> names the one that exists: Invalid exactly when none does.\<close>

theorem sc_exactly_one_backend:
  assumes "sc_reach s0 (sc, s)" and "os_wf s0"
  shows "\<not> (sc_capgdi sc \<noteq> None \<and> sc_capdx11 sc \<noteq> None) \<and>
         (sc_mode sc = ScreenCaptureMode_Invalid \<longleftrightarrow> sc_capgdi sc = None \<and> sc_capdx11 sc = None) \<and>
         (sc_mode sc = ScreenCaptureMode_GDI \<longleftrightarrow> sc_capgdi sc \<noteq> None) \<and>
         (sc_mode sc = ScreenCaptureMode_DX11 \<longleftrightarrow> sc_capdx11 sc \<noteq> None)"
proof -
  have "sc_mode_ok sc" using sc_reach_inv [OF assms] by (simp add: sc_inv_def)
  then show ?thesis by (cases "sc_mode sc") (auto simp: sc_mode_ok_def)
qed

theorem sc_exactly_one_backend_witness:
  "sc_mode example_dx_session = ScreenCaptureMode_DX11 \<and> sc_capgdi example_dx_session = None"
  using sc_exactly_one_backend [OF example_dx_session_reach os_wf_example_dx(1)]
  by (simp add: example_dx_session_def)

text \<open>C20: whatever sequence of Startups (in any modes, successful or not), captures and
  Shutdowns has run, a final Shutdown leaves exactly the objects that were alive before the
  session started, with their reference counts.\<close>

theorem sc_shutdown_no_leak:
  assumes "sc_reach s0 (sc, s)" and "os_wf s0" and "sc_shutdown sc s = (sc', s')"
  shows "os_refs s' = os_refs s0 \<and> live_set s' = live_set s0 \<and> sc_mode sc' = ScreenCaptureMode_Invalid"
  using sc_shutdown_inv [OF assms(2) sc_reach_inv [OF assms(1,2)] assms(3)]
  by (simp add: live_set_def live_def)

theorem sc_shutdown_no_leak_witness:
  "os_refs (snd (sc_shutdown example_dx_session example_dx_started_os)) = os_refs example_dx_os"
  using sc_shutdown_no_leak [OF example_dx_session_reach os_wf_example_dx(1) prod.collapse [symmetric]]
  by simp

text \<open>C21: a Startup on a running session, in the same or the other mode, first releases
  everything the previous backend held: afterwards the live objects are those alive before the
  session began plus those of the new backend alone, and the session runs in the new mode.\<close>

theorem sc_mode_switch_no_leak:
  assumes "sc_reach s0 (sc, s)" and "os_wf s0"
    and "sc_startup genv denv mode sc s = (ok, sc', s')"
  shows "sc_mode sc' = mode \<and>
         live_set s' = live_set s0 \<union> set (sc_handles sc') \<and> set (sc_handles sc') \<inter> live_set s0 = {} \<and>
         (mode = ScreenCaptureMode_GDI \<longrightarrow> sc_capdx11 sc' = None) \<and>
         (mode = ScreenCaptureMode_DX11 \<longrightarrow> sc_capgdi sc' = None)"
proof -
  have i: "sc_inv s0 (sc', s')" "sc_mode sc' = mode"
    using sc_startup_inv [OF assms(2) sc_reach_inv [OF assms(1,2)] assms(3)] by simp_all
  then have "live_set s' = live_set s0 \<union> set (sc_handles sc')"
    by (auto simp: sc_inv_def live_set_add_handles)
  moreover have "set (sc_handles sc') \<inter> live_set s0 = {}"
    using i assms(2) by (auto simp: sc_inv_def os_wf_def live_set_def live_def)
  moreover have "sc_mode_ok sc'" using i by (simp add: sc_inv_def)
  ultimately show ?thesis using i(2) by (auto simp: sc_mode_ok_def)
qed

theorem sc_mode_switch_no_leak_witness:
  "sc_mode (fst (snd (sc_startup example_small_env example_dx_env ScreenCaptureMode_GDI
       example_dx_session example_dx_started_os))) = ScreenCaptureMode_GDI"
proof -
  obtain ok sc' s' where e: "sc_startup example_small_env example_dx_env ScreenCaptureMode_GDI
      example_dx_session example_dx_started_os = (ok, sc', s')"
    by (metis prod.exhaust)
  show ?thesis using sc_mode_switch_no_leak [OF example_dx_session_reach os_wf_example_dx(1) e] e by simp
qed

text \<open>C22: after Shutdown, from any state, the facade has no backend and answers with the
  zero defaults: width, height, depth and stride are 0, the frame buffer and every scanline and
  pixel pointer are null, and CaptureFrame fails without touching any state.\<close>

theorem sc_shutdown_zero_defaults:
  assumes "sc_shutdown sc s = (sc', s')"
  shows "sc_frame_width sc' = 0 \<and> sc_frame_height sc' = 0 \<and> sc_frame_depth sc' = 0 \<and>
         sc_frame_stride sc' = 0 \<and> sc_frame_buffer sc' = CPtr None 0 \<and>
         ptr_read (sc_scanline_ptr sc' y) = None \<and> ptr_read (sc_pixel_ptr sc' y x) = None \<and>
         sc_capture scr denv sc' s' = (False, sc', s') \<and> sc_mode sc' = ScreenCaptureMode_Invalid"
  using assms
  by (auto simp: sc_shutdown_def Let_def sc_frame_width_def sc_frame_height_def sc_frame_depth_def
      sc_frame_stride_def sc_frame_buffer_def sc_scanline_ptr_def sc_pixel_ptr_def sc_capture_def)

theorem sc_shutdown_zero_defaults_witness:
  "sc_frame_width (fst (sc_shutdown example_dx_session example_dx_started_os)) = 0 \<and>
   sc_frame_buffer (fst (sc_shutdown example_dx_session example_dx_started_os)) = CPtr None 0"
  using sc_shutdown_zero_defaults [OF prod.collapse [symmetric], of example_dx_session example_dx_started_os]
  by simp

text \<open>C23: a GDI Startup whose memory DC cannot be created returns false but leaves the
  session in GDI mode with the failed backend installed, and the size accessors then report
  the screen size instead of zero.\<close>

theorem sc_failed_startup_keeps_backend:
  assumes "\<not> dc_alloc_ok genv" and "sc_startup genv denv ScreenCaptureMode_GDI sc s = (ok, sc', s')"
  shows "\<not> ok \<and> sc_mode sc' = ScreenCaptureMode_GDI \<and> sc_capgdi sc' \<noteq> None \<and>
         (sc_frame_width sc', sc_frame_height sc') = gdi_screen_size genv"
proof -
  obtain sc1 s1 where c1: "(if sc_mode sc \<noteq> ScreenCaptureMode_Invalid then sc_shutdown sc s else (sc, s)) = (sc1, s1)"
    by (metis prod.exhaust)
  obtain gok g s2 where gs: "gdi_startup genv gdi_init s1 = (gok, g, s2)" by (metis prod.exhaust)
  have res: "ok = gok" "sc' = sc1\<lparr>sc_mode := ScreenCaptureMode_GDI, sc_capgdi := Some g\<rparr>"
    using assms(2) c1 gs by (simp_all add: sc_startup_def)
  have "\<not> gok \<and> (gdi_width g, gdi_height g) = gdi_screen_size genv"
    using gs assms(1)
    by (auto simp: gdi_startup_def create_compatible_dc_def Let_def case_prod_unfold split: prod.splits)
  then show ?thesis using res by (simp add: sc_frame_width_def sc_frame_height_def)
qed

theorem sc_failed_startup_keeps_backend_witness:
  "sc_mode (fst (snd (sc_startup (example_small_env\<lparr>dc_alloc_ok := False\<rparr>) example_dx_env
     ScreenCaptureMode_GDI session_init empty_os))) = ScreenCaptureMode_GDI \<and>
   sc_frame_width (fst (snd (sc_startup (example_small_env\<lparr>dc_alloc_ok := False\<rparr>) example_dx_env
     ScreenCaptureMode_GDI session_init empty_os))) = 2"
proof -
  obtain ok sc' s' where e: "sc_startup (example_small_env\<lparr>dc_alloc_ok := False\<rparr>) example_dx_env
      ScreenCaptureMode_GDI session_init empty_os = (ok, sc', s')"
    by (metis prod.exhaust)
  show ?thesis
    using sc_failed_startup_keeps_backend [OF _ e] e
    by (simp add: example_small_env_def gdi_screen_size_def)
qed

text \<open>C24: on a started GDI session whose frame fits in 32-bit arithmetic, \<open>GetFrameBufferPixelPtr(y, x)\<close>
  for every pixel of the frame points at byte \<open>4 * (width * y + x)\<close> of the pixel memory,
  inside it: the \<open>unsigned\<close> products of the accessor do not wrap.\<close>

theorem sc_pixel_ptr_in_frame:
  assumes "sc_capgdi sc = Some g" and "gdi_ready g s" and "gdi_dibBits g = Some bits"
    and "unat (gdi_width g) < 2 ^ 27" and "4 * unat (gdi_width g) * unat (gdi_height g) < 2 ^ 32"
    and "y < gdi_height g" and "x < gdi_width g"
  shows "sc_pixel_ptr sc y x = CPtr (Some bits) (4 * (unat (gdi_width g) * unat y + unat x)) \<and>
         4 * (unat (gdi_width g) * unat y + unat x) < length bits"
proof -
  let ?W = "unat (gdi_width g)" and ?H = "unat (gdi_height g)"
  have yx: "unat y < ?H" "unat x < ?W" using assms(6,7) by (simp_all add: word_less_nat_alt)
  have st: "unat (sc_frame_stride sc) = 4 * ?W"
    using assms(1) unat_gdi_frame_stride [OF assms(2,4)] by (simp add: sc_frame_stride_def)
  have dp: "sc_frame_depth sc = 32" using assms(1,2) by (auto simp: sc_frame_depth_def gdi_ready_def split: option.splits)
  have "4 * ?W * unat y \<le> 4 * ?W * ?H" using yx(1) by simp
  then have "unat (sc_frame_stride sc) * unat y < 2 ^ 32" using st assms(5) by (simp only: st)
  then have o1: "unat (sc_frame_stride sc * y) = 4 * ?W * unat y"
    using st by (simp add: unat_mult_lem [THEN iffD1])
  have o2: "unat (x * 32 div 8) = 4 * unat x"
    using yx(2) assms(4) by (intro unat_width_times_32) simp
  have len: "length bits = 4 * ?W * ?H"
    using assms(2,3) by (simp add: gdi_ready_def split: option.splits)
  have "4 * (?W * unat y + unat x) < 4 * (?W * unat y + ?W)" using yx(2) by simp
  also have "\<dots> = 4 * ?W * (unat y + 1)" by (simp add: algebra_simps)
  also have "\<dots> \<le> 4 * ?W * ?H" using yx(1) by (intro mult_le_mono2) simp
  finally have inb: "4 * (?W * unat y + unat x) < length bits" using len by simp
  have "sc_pixel_ptr sc y x = CPtr (Some bits) (4 * ?W * unat y + 4 * unat x)"
    using assms(1,3) o1 o2 dp by (simp add: sc_pixel_ptr_def sc_frame_buffer_def)
  then show ?thesis using inb by (simp add: algebra_simps)
qed

theorem sc_pixel_ptr_in_frame_witness:
  "sc_pixel_ptr \<lparr>sc_mode = ScreenCaptureMode_GDI, sc_capgdi = Some example_gdi, sc_capdx11 = None\<rparr> 1 1 =
     CPtr (Some (replicate 16 0)) 12"
proof -
  have r: "gdi_ready example_gdi example_os" using example_gdi_ready by simp
  show ?thesis
    using sc_pixel_ptr_in_frame [of "\<lparr>sc_mode = ScreenCaptureMode_GDI, sc_capgdi = Some example_gdi, sc_capdx11 = None\<rparr>"
        example_gdi example_os "replicate 16 0" 1 1, OF _ r]
    by (simp add: example_gdi_def)
qed

end
