(* ===== verification/BmpWrite.thy ===== *)
theory BmpWrite
  imports Prelude
begin

text \<open>
  \<open>BmpWrite\<close> (src/captest.cpp): writes a 24- or 32-bit image from memory to a .BMP file,
  bottom row first.  The file system is a map from paths to contents; \<open>fopen(.., "wb")\<close>
  creates or truncates, \<open>fwrite\<close> appends, \<open>_unlink\<close> removes.  Whether \<open>fopen\<close> and
  the \<open>k\<close>-th \<open>fwrite\<close> succeed is the record \<open>bmp_io\<close>.  The two header structures are
  written as their little-endian memory images (14 and 40 bytes); the \<open>LONG\<close> fields hold
  the bits of the \<open>unsigned\<close> arguments.  \<open>szPath\<close> and \<open>pBits\<close> are \<open>None\<close> when null;
  the scanline pointer is a signed byte offset into the caller's buffer.
\<close>

type_synonym fs = "string \<Rightarrow> byte list option"

record bmp_io =
  bmp_open_ok :: bool
  bmp_write_ok :: "nat \<Rightarrow> bool"

record bitmap_file_header =
  bfType :: "16 word"
  bfSize :: u32
  bfReserved1 :: "16 word"
  bfReserved2 :: "16 word"
  bfOffBits :: u32

record bitmap_info_header =
  biSize :: u32
  biWidth :: u32
  biHeight :: u32
  biPlanes :: "16 word"
  biBitCount :: "16 word"
  biCompression :: u32
  biSizeImage :: u32
  biXPelsPerMeter :: u32
  biYPelsPerMeter :: u32
  biClrUsed :: u32
  biClrImportant :: u32

subsection \<open>Little-endian memory images\<close>

fun le_bytes :: "nat \<Rightarrow> nat \<Rightarrow> byte list" where
  "le_bytes 0 n = []"
| "le_bytes (Suc k) n = of_nat (n mod 256) # le_bytes k (n div 256)"

definition le16 :: "16 word \<Rightarrow> byte list" where
  "le16 v = le_bytes 2 (unat v)"

definition le32 :: "u32 \<Rightarrow> byte list" where
  "le32 v = le_bytes 4 (unat v)"

definition file_header_bytes :: "bitmap_file_header \<Rightarrow> byte list" where
  "file_header_bytes h = le16 (bfType h) @ le32 (bfSize h) @ le16 (bfReserved1 h) @ le16 (bfReserved2 h) @
     le32 (bfOffBits h)"

definition info_header_bytes :: "bitmap_info_header \<Rightarrow> byte list" where
  "info_header_bytes h = le32 (biSize h) @ le32 (biWidth h) @ le32 (biHeight h) @ le16 (biPlanes h) @
     le16 (biBitCount h) @ le32 (biCompression h) @ le32 (biSizeImage h) @ le32 (biXPelsPerMeter h) @
     le32 (biYPelsPerMeter h) @ le32 (biClrUsed h) @ le32 (biClrImportant h)"

text \<open>Reading back a little-endian number, and the \<open>n\<close>-byte field at offset \<open>off\<close> of a
  file, for the round trip.\<close>

definition le_decode :: "byte list \<Rightarrow> nat" where
  "le_decode bs = foldr (\<lambda>b acc. unat b + 256 * acc) bs 0"

definition bmp_field :: "byte list \<Rightarrow> nat \<Rightarrow> nat \<Rightarrow> nat" where
  "bmp_field f off n = le_decode (take n (drop off f))"

subsection \<open>The function\<close>

text \<open>The argument check at the top of \<open>BmpWrite\<close> (the null checks are the \<open>case\<close>
  of \<open>bmp_write\<close>).\<close>

definition bmp_args_ok :: "string \<Rightarrow> u32 \<Rightarrow> u32 \<Rightarrow> u32 \<Rightarrow> u32 \<Rightarrow> bool" where
  "bmp_args_ok p width height stride bitsPerPixel \<longleftrightarrow>
     \<not> (p = [] \<or> width < 1 \<or> height < 1 \<or> stride < width * 3 \<or>
        (bitsPerPixel \<noteq> 24 \<and> bitsPerPixel \<noteq> 32))"

text \<open>\<open>while (outStride % 4) outStride++;\<close> on an \<open>unsigned\<close>.\<close>

function out_stride_align :: "u32 \<Rightarrow> u32" where
  "out_stride_align x = (if x mod 4 \<noteq> 0 then out_stride_align (x + 1) else x)"
  by pat_completeness auto
termination
proof (relation "measure (\<lambda>x. (4 - unat x mod 4) mod 4)")
  fix x :: u32
  assume a: "x mod 4 \<noteq> 0"
  have m: "unat (x mod 4) = unat x mod 4" by (simp add: unat_mod)
  then have r: "unat x mod 4 \<noteq> 0" using a by (metis unat_eq_zero)
  have "unat (x + 1) = (unat x + 1) mod 2 ^ 32" by (simp add: unat_word_ariths)
  then have e: "unat (x + 1) mod 4 = (unat x mod 4 + 1) mod 4"
    by (simp add: mod_mod_cancel mod_Suc_eq)
  have "unat x mod 4 < 4" by simp
  then have "unat x mod 4 = 1 \<or> unat x mod 4 = 2 \<or> unat x mod 4 = 3" using r by linarith
  then show "(x + 1, x) \<in> measure (\<lambda>x. (4 - unat x mod 4) mod 4)" using e by auto
qed simp

declare out_stride_align.simps [simp del]

definition fs_append :: "string \<Rightarrow> byte list \<Rightarrow> fs \<Rightarrow> fs" where
  "fs_append p bs fs = (case fs p of Some c \<Rightarrow> fs(p \<mapsto> c @ bs) | None \<Rightarrow> fs)"

text \<open>
  The scanline loop: \<open>n\<close> rows left, row \<open>y\<close> next, read from byte offset \<open>off\<close> of the
  buffer, which moves back by \<open>stride\<close> after each row.  The \<open>k\<close>-th \<open>fwrite\<close> of the
  function is the row's \<open>2 + y\<close>.
\<close>

fun bmp_rows :: "bmp_io \<Rightarrow> string \<Rightarrow> byte list \<Rightarrow> u32 \<Rightarrow> nat \<Rightarrow> nat \<Rightarrow> nat \<Rightarrow> int \<Rightarrow> fs \<Rightarrow> bool \<times> fs" where
  "bmp_rows io p b stride outStride 0 y off fs = (True, fs)"
| "bmp_rows io p b stride outStride (Suc n) y off fs =
     (if \<not> bmp_write_ok io (2 + y) then (False, fs(p := None))
      else bmp_rows io p b stride outStride n (Suc y) (off - int (unat stride))
             (fs_append p (buf_read b (nat off) outStride) fs))"

definition bmp_write ::
    "bmp_io \<Rightarrow> string option \<Rightarrow> u32 \<Rightarrow> u32 \<Rightarrow> u32 \<Rightarrow> u32 \<Rightarrow> byte list option \<Rightarrow> fs \<Rightarrow> bool \<times> fs" where
  "bmp_write io path width height stride bitsPerPixel bits fs =
     (case (path, bits) of
        (Some p, Some b) \<Rightarrow>
          (if \<not> bmp_args_ok p width height stride bitsPerPixel then (False, fs)
           else if \<not> bmp_open_ok io then (False, fs)
           else
             (let fs1 = fs(p \<mapsto> []);
                  outStride = out_stride_align (width * bitsPerPixel div 8);
                  ih = \<lparr>biSize = 40, biWidth = width, biHeight = height, biPlanes = 1,
                        biBitCount = ucast bitsPerPixel, biCompression = 0, biSizeImage = outStride * height,
                        biXPelsPerMeter = 0, biYPelsPerMeter = 0, biClrUsed = 0, biClrImportant = 0\<rparr>;
                  fh = \<lparr>bfType = 0x4D42, bfSize = 14 + biSize ih + biSizeImage ih, bfReserved1 = 0,
                        bfReserved2 = 0, bfOffBits = 14 + biSize ih\<rparr>
              in if \<not> bmp_write_ok io 0 then (False, fs1(p := None))
                 else
                   (let fs2 = fs_append p (file_header_bytes fh) fs1 in
                    if \<not> bmp_write_ok io 1 then (False, fs2(p := None))
                    else
                      bmp_rows io p b stride (unat outStride) (unat height) 0
                        (int (unat (stride * (height - 1))))
                        (fs_append p (info_header_bytes ih) fs2))))
      | _ \<Rightarrow> (False, fs))"

subsection \<open>Examples\<close>

text \<open>A 2x2 image of 32-bit pixels (stride 8), a file system where every call succeeds, and
  one where the third \<open>fwrite\<close> (the first scanline) fails.\<close>

definition example_bits :: "byte list" where
  "example_bits = map of_nat [1..<17]"

definition io_ok :: bmp_io where
  "io_ok = \<lparr>bmp_open_ok = True, bmp_write_ok = (\<lambda>k. True)\<rparr>"

definition io_row_fails :: bmp_io where
  "io_row_fails = \<lparr>bmp_open_ok = True, bmp_write_ok = (\<lambda>k. k \<noteq> 2)\<rparr>"

section \<open>Lemmas\<close>


lemma length_le_bytes [simp]: "length (le_bytes k n) = k"
  by (induction k arbitrary: n) auto

lemma le_decode_Cons: "le_decode (b # bs) = unat b + 256 * le_decode bs"
  by (simp add: le_decode_def)

lemma le_decode_le_bytes: "le_decode (le_bytes k n) = n mod 256 ^ k"
proof (induction k arbitrary: n)
  case 0
  then show ?case by (simp add: le_decode_def)
next
  case (Suc k)
  have b: "unat (of_nat (n mod 256) :: byte) = n mod 256"
    by (simp add: unat_of_nat)
  have "le_decode (le_bytes (Suc k) n) = n mod 256 + 256 * (n div 256 mod 256 ^ k)"
    by (simp only: le_bytes.simps le_decode_Cons b Suc.IH)
  also have "\<dots> = n mod 256 ^ Suc k"
    by (simp only: power_Suc mod_mult2_eq)
  finally show ?case .
qed

lemma le_decode_le32 [simp]: "le_decode (le32 v) = unat v"
proof -
  have "unat v < 2 ^ LENGTH(32)" by (rule unsigned_less)
  then show ?thesis by (simp only: le32_def le_decode_le_bytes) simp
qed

lemma le_decode_le16 [simp]: "le_decode (le16 v) = unat v"
proof -
  have "unat v < 2 ^ LENGTH(16)" by (rule unsigned_less)
  then show ?thesis by (simp only: le16_def le_decode_le_bytes) simp
qed

lemma length_le32 [simp]: "length (le32 v) = 4" and length_le16 [simp]: "length (le16 w) = 2"
  by (simp_all add: le32_def le16_def)

lemma length_file_header [simp]: "length (file_header_bytes h) = 14"
  by (simp add: file_header_bytes_def)

lemma length_info_header [simp]: "length (info_header_bytes h) = 40"
  by (simp add: info_header_bytes_def)

lemma round_up4_exact: "(m::nat) mod 4 = 0 \<Longrightarrow> (m + 3) div 4 * 4 = m"
  by presburger

lemma round_up4_step: "(m::nat) mod 4 \<noteq> 0 \<Longrightarrow> (m + 4) div 4 * 4 = (m + 3) div 4 * 4"
  by presburger

lemma out_stride_align_unat:
  "unat x + 3 < 2 ^ 32 \<Longrightarrow> unat (out_stride_align x) = (unat x + 3) div 4 * 4"
proof (induction x rule: out_stride_align.induct)
  case (1 x)
  have m: "unat (x mod 4) = unat x mod 4" by (simp add: unat_mod)
  show ?case
  proof (cases "x mod 4 = 0")
    case True
    then have "unat x mod 4 = 0" using m by simp
    moreover have "out_stride_align x = x" using True by (simp add: out_stride_align.simps [of x])
    ultimately show ?thesis by (simp add: round_up4_exact)
  next
    case False
    then have r: "unat x mod 4 \<noteq> 0" using m by (metis unat_eq_zero)
    have "unat x \<noteq> 4294967292" using r by auto
    moreover have "unat x + 3 < 4294967296" using "1.prems" by simp
    ultimately have "unat x + 4 < 4294967296" by linarith
    then have x4: "unat x + 4 < 2 ^ 32" by simp
    then have u: "unat (x + 1) = unat x + 1" by (simp add: unat_word_ariths)
    have "unat (out_stride_align (x + 1)) = (unat (x + 1) + 3) div 4 * 4"
      using "1.IH" [OF False] x4 u by simp
    moreover have "out_stride_align x = out_stride_align (x + 1)"
      using False by (simp add: out_stride_align.simps [of x])
    ultimately show ?thesis using u round_up4_step [OF r] by simp
  qed
qed

lemma fs_append_other [simp]: "q \<noteq> p \<Longrightarrow> fs_append p bs fs q = fs q"
  by (simp add: fs_append_def split: option.splits)

lemma fs_append_Some [simp]: "fs p = Some c \<Longrightarrow> fs_append p bs fs = fs(p \<mapsto> c @ bs)"
  by (simp add: fs_append_def)

lemma fs_append_unlink [simp]: "(fs_append p bs fs)(p := None) = fs(p := None)"
  by (auto simp: fs_append_def fun_eq_iff split: option.splits)

lemma bmp_rows_ok:
  assumes "\<forall>k<n. bmp_write_ok io (2 + y + k)" and "fs p = Some c"
  shows "bmp_rows io p b stride os n y off fs =
           (True, fs(p \<mapsto> c @ concat (map (\<lambda>i. buf_read b (nat (off - int i * int (unat stride))) os) [0..<n])))"
  using assms
proof (induction n arbitrary: y off fs c)
  case 0
  then show ?case by (simp add: fun_upd_idem)
next
  case (Suc n)
  have w: "bmp_write_ok io (2 + y)" using Suc.prems(1) by (metis add_0_right zero_less_Suc)
  have pre: "\<forall>k<n. bmp_write_ok io (2 + Suc y + k)"
  proof (intro allI impI)
    fix k assume "k < n"
    then show "bmp_write_ok io (2 + Suc y + k)" using Suc.prems(1) [rule_format, of "Suc k"] by simp
  qed
  note ih = Suc.IH [OF pre, of "fs(p \<mapsto> c @ buf_read b (nat off) os)" "c @ buf_read b (nat off) os"
      "off - int (unat stride)"]
  have "map (\<lambda>i. buf_read b (nat (off - int i * int (unat stride))) os) [0..<Suc n] =
        buf_read b (nat off) os #
        map (\<lambda>i. buf_read b (nat (off - int (unat stride) - int i * int (unat stride))) os) [0..<n]"
    by (simp only: upt_conv_Cons zero_less_Suc map_Suc_upt [symmetric] list.map map_map o_def)
       (simp add: algebra_simps)
  moreover have "bmp_rows io p b stride os (Suc n) y off fs =
      bmp_rows io p b stride os n (Suc y) (off - int (unat stride)) (fs(p \<mapsto> c @ buf_read b (nat off) os))"
    using w Suc.prems(2) by simp
  moreover have "bmp_rows io p b stride os n (Suc y) (off - int (unat stride))
      (fs(p \<mapsto> c @ buf_read b (nat off) os)) =
    (True, fs(p \<mapsto> c @ buf_read b (nat off) os @ concat (map (\<lambda>i. buf_read b
       (nat (off - int (unat stride) - int i * int (unat stride))) os) [0..<n])))"
    using ih by (simp only: fun_upd_upd append_assoc fun_upd_same option.sel)
  ultimately show ?case by (simp del: upt_Suc add: fun_eq_iff)
qed

lemma bmp_rows_fail:
  "\<not> (\<forall>k<n. bmp_write_ok io (2 + y + k)) \<Longrightarrow> bmp_rows io p b stride os n y off fs = (False, fs(p := None))"
proof (induction n arbitrary: y off fs)
  case 0
  then show ?case by simp
next
  case (Suc n)
  show ?case
  proof (cases "bmp_write_ok io (2 + y)")
    case True
    obtain k where k: "k < Suc n" "\<not> bmp_write_ok io (2 + y + k)" using Suc.prems by blast
    then obtain k' where "k = Suc k'" using True by (cases k) auto
    then have "\<not> (\<forall>k<n. bmp_write_ok io (2 + Suc y + k))" using k by auto
    then have ih: "bmp_rows io p b stride os n (Suc y) (off - int (unat stride))
        (fs_append p (buf_read b (nat off) os) fs) = (False, (fs_append p (buf_read b (nat off) os) fs)(p := None))"
      by (rule Suc.IH)
    have "bmp_rows io p b stride os (Suc n) y off fs =
        bmp_rows io p b stride os n (Suc y) (off - int (unat stride)) (fs_append p (buf_read b (nat off) os) fs)"
      using True by simp
    then show ?thesis by (simp only: ih fs_append_unlink)
  next
    case False
    then show ?thesis by (simp add: fun_eq_iff)
  qed
qed

lemma bmp_write_success:
  assumes g: "bmp_args_ok p width height stride bitsPerPixel"
    and io: "bmp_open_ok io" "\<forall>k. bmp_write_ok io k"
  defines "os \<equiv> out_stride_align (width * bitsPerPixel div 8)"
  shows "bmp_write io (Some p) width height stride bitsPerPixel (Some b) fs =
           (True, fs(p \<mapsto>
              file_header_bytes \<lparr>bfType = 0x4D42, bfSize = 14 + 40 + os * height, bfReserved1 = 0,
                                 bfReserved2 = 0, bfOffBits = 14 + 40\<rparr> @
              info_header_bytes \<lparr>biSize = 40, biWidth = width, biHeight = height, biPlanes = 1,
                                 biBitCount = ucast bitsPerPixel, biCompression = 0, biSizeImage = os * height,
                                 biXPelsPerMeter = 0, biYPelsPerMeter = 0, biClrUsed = 0, biClrImportant = 0\<rparr> @
              concat (map (\<lambda>i. buf_read b (nat (int (unat (stride * (height - 1))) - int i * int (unat stride)))
                                   (unat os)) [0..<unat height])))"
  using g io bmp_rows_ok [where n = "unat height" and y = 0 and io = io] unfolding os_def
  by (simp add: bmp_write_def Let_def)

lemma unat_row_offset:
  assumes "1 \<le> height" and "unat stride * (unat height - 1) < 2 ^ 32"
  shows "unat (stride * (height - 1)) = unat stride * (unat (height :: u32) - 1)"
proof -
  have "unat (height - 1) = unat height - 1"
    using assms(1) by (simp add: unat_sub word_le_nat_alt)
  then show ?thesis using assms(2) by (simp add: unat_mult_lem [THEN iffD1])
qed

lemma row_offset_back:
  assumes "(i::nat) < h"
  shows "int (s * (h - 1)) - int i * int s = int ((h - 1 - i) * s)"
proof -
  obtain k where "h = Suc (i + k)" using assms by (metis less_iff_Suc_add)
  then show ?thesis by (simp add: algebra_simps)
qed

lemma bmp_rows_bottom_up:
  assumes "1 \<le> height" and "unat stride * (unat height - 1) < 2 ^ 32"
  shows "map (\<lambda>i. buf_read b (nat (int (unat (stride * (height - 1))) - int i * int (unat stride))) os)
           [0..<unat height] =
         rev (map (\<lambda>i. buf_read b (i * unat stride) os) [0..<unat (height :: u32)])"
proof (rule nth_equalityI)
  fix i assume "i < length (map (\<lambda>i. buf_read b (nat (int (unat (stride * (height - 1))) - int i * int (unat stride))) os)
           [0..<unat height])"
  then have i: "i < unat height" by simp
  have "int (unat (stride * (height - 1))) - int i * int (unat stride) = int ((unat height - 1 - i) * unat stride)"
    by (simp only: unat_row_offset [OF assms] row_offset_back [OF i])
  then have o: "nat (int (unat (stride * (height - 1))) - int i * int (unat stride)) = (unat height - 1 - i) * unat stride"
    by (simp only: nat_int)
  show "map (\<lambda>i. buf_read b (nat (int (unat (stride * (height - 1))) - int i * int (unat stride))) os)
           [0..<unat height] ! i = rev (map (\<lambda>i. buf_read b (i * unat stride) os) [0..<unat height]) ! i"
    using i by (simp add: rev_nth o del: of_nat_unat)
qed simp

lemma bmp_rows_result:
  assumes "fs p = Some c" and "bmp_rows io p b stride os n y off fs = (ok, fs')"
  shows "(ok \<longrightarrow> (\<exists>c'. fs' = fs(p \<mapsto> c'))) \<and> (\<not> ok \<longrightarrow> fs' = fs(p := None))"
proof (cases "\<forall>k<n. bmp_write_ok io (2 + y + k)")
  case True
  then show ?thesis using assms bmp_rows_ok [where n = n and y = y and io = io and fs = fs and p = p and c = c and b = b
      and stride = stride and os = os and off = off] by auto
next
  case False
  then show ?thesis using assms(2) bmp_rows_fail [OF False, of p b stride os off fs] by auto
qed

lemma out_stride_align_step:
  "x mod 4 \<noteq> 0 \<Longrightarrow> out_stride_align x = out_stride_align (x + 1)"
  by (simp add: out_stride_align.simps [of x])

lemma out_stride_align_wrap:
  assumes "4294967292 < unat (x :: u32)"
  shows "out_stride_align x = 0"
proof -
  have z: "(4294967296 :: u32) = 0" by simp
  have "unat x < 2 ^ LENGTH(32)" by (rule unsigned_less)
  then have "unat x = 4294967293 \<or> unat x = 4294967294 \<or> unat x = 4294967295" using assms by simp linarith
  then have "x = 4294967293 \<or> x = 4294967294 \<or> x = 4294967295"
    by (auto simp: word_unat_eq_iff)
  moreover have "out_stride_align 4294967295 = 0"
    by (simp add: out_stride_align_step z out_stride_align.simps [of 0])
  moreover have "out_stride_align 4294967294 = 0"
    by (simp add: out_stride_align_step z out_stride_align.simps [of 0])
  moreover have "out_stride_align 4294967293 = 0"
    by (simp add: out_stride_align_step z out_stride_align.simps [of 0])
  ultimately show ?thesis by (elim disjE) simp_all
qed

lemma bmp_header_fields:
  assumes "f = file_header_bytes fh @ info_header_bytes ih @ r"
  shows "bmp_field f 0 2 = unat (bfType fh) \<and> bmp_field f 2 4 = unat (bfSize fh) \<and>
         bmp_field f 10 4 = unat (bfOffBits fh) \<and> bmp_field f 18 4 = unat (biWidth ih) \<and>
         bmp_field f 22 4 = unat (biHeight ih) \<and> bmp_field f 28 2 = unat (biBitCount ih) \<and>
         bmp_field f 34 4 = unat (biSizeImage ih) \<and> drop 54 f = r"
  using assms by (simp add: bmp_field_def file_header_bytes_def info_header_bytes_def)

lemma bmp_args_okD:
  "bmp_args_ok p width height stride bitsPerPixel \<Longrightarrow>
     p \<noteq> [] \<and> 1 \<le> width \<and> 1 \<le> height \<and> width * 3 \<le> stride \<and> (bitsPerPixel = 24 \<or> bitsPerPixel = 32)"
  by (auto simp: bmp_args_ok_def not_less word_le_sub1)

lemma bmp_rows_upd_result:
  assumes "bmp_rows io p b stride os n y off (fs(p \<mapsto> c)) = (ok, fs')"
  shows "(ok \<longrightarrow> (\<exists>c'. fs' = fs(p \<mapsto> c'))) \<and> (\<not> ok \<longrightarrow> fs' = fs(p := None))"
  using bmp_rows_result [of "fs(p \<mapsto> c)" p c, OF _ assms] by auto

text \<open>Every outcome of \<open>BmpWrite\<close> on the file system: its own file written, untouched or
  removed, and no other file changed.\<close>

lemma bmp_write_cases:
  assumes "bmp_write io (Some p) width height stride bitsPerPixel bits fs = (ok, fs')"
  shows "(ok \<longrightarrow> (\<exists>c. fs' = fs(p \<mapsto> c))) \<and> (\<not> ok \<longrightarrow> fs' = fs \<or> fs' = fs(p := None))"
  using assms
  by (auto simp: bmp_write_def Let_def split: option.splits if_splits dest!: bmp_rows_upd_result dest: fun_upd_eqD)

lemma bmp_write_writes:
  assumes "bmp_args_ok p width height stride bitsPerPixel" and "bmp_open_ok io" and "\<forall>k. bmp_write_ok io k"
  shows "\<exists>c. bmp_write io (Some p) width height stride bitsPerPixel (Some b) fs = (True, fs(p \<mapsto> c))"
  using bmp_write_success [OF assms, of b fs] by blast

lemma round_up4_gt: "(m::nat) mod 4 \<noteq> 0 \<Longrightarrow> m < (m + 3) div 4 * 4"
  by presburger

section \<open>Properties of BmpWrite\<close>

text \<open>C25: when the arguments pass the check, the caller's buffer holds every byte the row
  loop reads (the \<open>outStride\<close> bytes of each scanline, the last at \<open>stride * (height - 1)\<close>)
  and every file operation succeeds, \<open>BmpWrite\<close> returns true and leaves a file of exactly
  \<open>54 + outStride * height\<close> bytes whose header fields read back as the signature "BM", the
  file size 54 plus the image size, the pixel offset 54, the width, the height and the bit
  depth, and whose pixel data are the caller's scanlines of \<open>outStride\<close> bytes in bottom-up
  order.  The argument check alone does not ensure the read premise (see the finding on
  \<open>captest.cpp:116\<close>).\<close>

theorem bmp_write_roundtrip:
  assumes args: "bmp_args_ok p width height stride bitsPerPixel"
    and io: "bmp_open_ok io" "\<forall>k. bmp_write_ok io k"
    and nw: "unat stride * (unat height - 1) < 2 ^ 32"
  defines "os \<equiv> out_stride_align (width * bitsPerPixel div 8)"
  assumes inb: "unat stride * (unat height - 1) + unat os \<le> length b"
  shows "\<exists>f. bmp_write io (Some p) width height stride bitsPerPixel (Some b) fs = (True, fs(p \<mapsto> f)) \<and>
           length f = 54 + unat os * unat height \<and>
           bmp_field f 0 2 = 0x4D42 \<and> bmp_field f 2 4 = unat (54 + os * height) \<and>
           bmp_field f 10 4 = 54 \<and> bmp_field f 18 4 = unat width \<and> bmp_field f 22 4 = unat height \<and>
           bmp_field f 28 2 = unat bitsPerPixel \<and> bmp_field f 34 4 = unat (os * height) \<and>
           drop 54 f = concat (rev (map (\<lambda>i. take (unat os) (drop (i * unat stride) b)) [0..<unat height]))"
proof -
  have a: "1 \<le> height" "bitsPerPixel = 24 \<or> bitsPerPixel = 32" using bmp_args_okD [OF args] by auto
  have bc: "unat (ucast bitsPerPixel :: 16 word) = unat bitsPerPixel" using a(2) by auto
  let ?fh = "\<lparr>bfType = 0x4D42, bfSize = 14 + 40 + os * height, bfReserved1 = 0, bfReserved2 = 0,
             bfOffBits = 14 + 40\<rparr>"
  let ?ih = "\<lparr>biSize = 40, biWidth = width, biHeight = height, biPlanes = 1,
             biBitCount = ucast bitsPerPixel, biCompression = 0, biSizeImage = os * height,
             biXPelsPerMeter = 0, biYPelsPerMeter = 0, biClrUsed = 0, biClrImportant = 0\<rparr>"
  let ?r = "concat (rev (map (\<lambda>i. buf_read b (i * unat stride) (unat os)) [0..<unat height]))"
  have w: "bmp_write io (Some p) width height stride bitsPerPixel (Some b) fs =
             (True, fs(p \<mapsto> file_header_bytes ?fh @ info_header_bytes ?ih @ ?r))"
    using bmp_write_success [OF args io, of b fs] bmp_rows_bottom_up [OF a(1) nw, of b "unat os"]
    unfolding os_def by simp
  have u: "uniform_rows (unat os) (rev (map (\<lambda>i. buf_read b (i * unat stride) (unat os)) [0..<unat height]))"
    unfolding uniform_rows_def
  proof
    fix r assume "r \<in> set (rev (map (\<lambda>i. buf_read b (i * unat stride) (unat os)) [0..<unat height]))"
    then obtain i where i: "i < unat height" "r = buf_read b (i * unat stride) (unat os)" by auto
    then have "i \<le> unat height - 1" by simp
    then have "i * unat stride \<le> unat stride * (unat height - 1)" by (metis mult.commute mult_le_mono2)
    then have "i * unat stride + unat os \<le> length b" using inb by linarith
    then show "length r = unat os" using i(2) by (simp add: length_buf_read)
  qed
  have len: "length ?r = unat os * unat height"
    using length_concat_uniform [OF u] by simp
  show ?thesis
    using w bmp_header_fields [OF refl, of ?fh ?ih ?r] bc len by (auto simp: buf_read_def)
qed

theorem bmp_write_roundtrip_witness:
  "fst (bmp_write io_ok (Some ''frame0.bmp'') 2 2 8 32 (Some example_bits) Map.empty) \<and>
   drop 54 (the (snd (bmp_write io_ok (Some ''frame0.bmp'') 2 2 8 32 (Some example_bits) Map.empty) ''frame0.bmp'')) =
     map of_nat ([9..<17] @ [1..<9]) \<and>
   length (the (snd (bmp_write io_ok (Some ''frame0.bmp'') 2 2 8 32 (Some example_bits) Map.empty) ''frame0.bmp'')) = 70"
  using bmp_write_roundtrip [where p = "''frame0.bmp''" and width = 2 and height = 2 and stride = 8
      and bitsPerPixel = 32 and io = io_ok and b = example_bits and fs = Map.empty]
  by (auto simp: bmp_args_ok_def io_ok_def example_bits_def buf_read_def out_stride_align.simps [of 8] upt_rec)

text \<open>C26: the \<open>while (outStride % 4) outStride++\<close> loop ends, and yields the
  smallest multiple of 4 not below its start, computed modulo \<open>2^32\<close>: it wraps to 0
  only for the three values above the largest multiple of 4.\<close>

theorem out_stride_align_round_up:
  "unat (out_stride_align x) = (unat x + 3) div 4 * 4 mod 2 ^ 32"
proof (cases "unat x + 3 < 2 ^ 32")
  case True
  have "(unat x + 3) div 4 * 4 \<le> unat x + 3" by (rule div_times_less_eq_dividend)
  then show ?thesis using out_stride_align_unat [OF True] True by simp
next
  case False
  have "unat x < 2 ^ LENGTH(32)" by (rule unsigned_less)
  then have "unat x = 4294967293 \<or> unat x = 4294967294 \<or> unat x = 4294967295" using False by simp linarith
  moreover have "4294967292 < unat x" using False by simp
  ultimately show ?thesis using out_stride_align_wrap by auto
qed

text \<open>C27: \<open>BmpWrite\<close> touches no file but its own; on success the file exists, and on
  failure either nothing changed (a rejected argument or a failed \<open>fopen\<close>) or the file
  was removed by \<open>_unlink\<close> (a failed \<open>fwrite\<close>).\<close>

theorem bmp_write_failure_cleanup:
  assumes "bmp_write io (Some p) width height stride bitsPerPixel bits fs = (ok, fs')"
  shows "(\<forall>q. q \<noteq> p \<longrightarrow> fs' q = fs q) \<and> (ok \<longrightarrow> fs' p \<noteq> None) \<and>
         (\<not> ok \<longrightarrow> fs' = fs \<or> fs' = fs(p := None))"
  using bmp_write_cases [OF assms] by (cases ok) auto

theorem bmp_write_failure_cleanup_witness:
  "snd (bmp_write io_row_fails (Some ''frame0.bmp'') 2 2 8 32 (Some example_bits) [''old.bmp'' \<mapsto> []])
     ''old.bmp'' = Some []"
  using bmp_write_failure_cleanup [where io = io_row_fails and p = "''frame0.bmp''" and width = 2 and height = 2
      and stride = 8 and bitsPerPixel = 32 and bits = "Some example_bits" and fs = "[''old.bmp'' \<mapsto> []]",
      OF prod.collapse [symmetric]]
  by simp

end
