(* ===== verification/CapTest.thy ===== *)
theory CapTest
  imports Session BmpWrite
begin

text \<open>
  The \<open>main\<close> of src/captest.cpp: it parses the capture mode from the command line, starts a
  \<open>ScreenCapture\<close> session, runs 100 capture attempts and writes every captured frame to
  \<open>frame<n>.bmp\<close> with \<open>BmpWrite\<close>, then shuts the session down.  The state is the facade
  session, the platform object store and the file system.  The environment of the \<open>n\<close>-th
  loop iteration (screen contents, DXGI answers, file-operation outcomes) is \<open>env n\<close>.  The
  object \<open>cap\<close> is destroyed on every return after its declaration, and its destructor calls
  \<open>Shutdown\<close>; \<open>printf\<close> and the timing with \<open>GetTickCount64\<close> only print statistics.
\<close>

type_synonym frame_env = "nat \<Rightarrow> screen \<times> dx11_env \<times> bmp_io"

subsection \<open>Command line\<close>

text \<open>\<open>_stricmp(a, b) == 0\<close>: equal after mapping ASCII lower case to upper case.\<close>

definition upper_char :: "char \<Rightarrow> char" where
  "upper_char c = (let n = (of_char c :: nat) in if 97 \<le> n \<and> n \<le> 122 then char_of (n - 32) else c)"

definition stricmp_eq :: "string \<Rightarrow> string \<Rightarrow> bool" where
  "stricmp_eq a b \<longleftrightarrow> map upper_char a = map upper_char b"

definition parse_mode :: "string \<Rightarrow> ScreenCaptureMode" where
  "parse_mode arg =
     (if stricmp_eq arg ''GDI'' then ScreenCaptureMode_GDI
      else if stricmp_eq arg ''DX11'' then ScreenCaptureMode_DX11
      else ScreenCaptureMode_Invalid)"

text \<open>\<open>snprintf(filename, .., "frame%d.bmp", iframe)\<close> for \<open>0 \<le> iframe < 100\<close>.\<close>

fun dec_string :: "nat \<Rightarrow> string" where
  "dec_string n = (if n < 10 then [char_of (48 + n)] else dec_string (n div 10) @ [char_of (48 + n mod 10)])"

declare dec_string.simps [simp del]

definition frame_name :: "nat \<Rightarrow> string" where
  "frame_name i = ''frame'' @ dec_string i @ ''.bmp''"

text \<open>Reading a decimal numeral back, for the round trip of the file names.\<close>

definition dec_value :: "string \<Rightarrow> nat" where
  "dec_value cs = foldl (\<lambda>acc c. 10 * acc + (of_char c - 48)) 0 cs"

text \<open>The bytes a \<open>const void *\<close> designates: the rest of its buffer from its offset.\<close>

fun cptr_buf :: "cptr \<Rightarrow> byte list option" where
  "cptr_buf (CPtr b i) = map_option (drop i) b"

subsection \<open>The capture loop and main\<close>

text \<open>\<open>n\<close> iterations left, the next one \<open>iframe\<close>; the result is whether the loop ran to its
  end (false: \<open>BmpWrite\<close> failed and \<open>main\<close> returns), \<open>numFrames\<close> and the state.\<close>

fun cap_loop :: "frame_env \<Rightarrow> nat \<Rightarrow> nat \<Rightarrow> nat \<Rightarrow> session \<Rightarrow> os \<Rightarrow> fs \<Rightarrow> bool \<times> nat \<times> session \<times> os \<times> fs" where
  "cap_loop env 0 iframe numFrames sc s fs = (True, numFrames, sc, s, fs)"
| "cap_loop env (Suc n) iframe numFrames sc s fs =
     (case env iframe of (scr, denv, io) \<Rightarrow>
        (case sc_capture scr denv sc s of (ok, sc1, s1) \<Rightarrow>
           if \<not> ok \<or> sc_frame_width sc1 < 1 then cap_loop env n (Suc iframe) numFrames sc1 s1 fs
           else
             (case bmp_write io (Some (frame_name iframe)) (sc_frame_width sc1) (sc_frame_height sc1)
                     (sc_frame_stride sc1) (sc_frame_depth sc1) (cptr_buf (sc_frame_buffer sc1)) fs of
                (wok, fs1) \<Rightarrow>
                  if \<not> wok then (False, Suc numFrames, sc1, s1, fs1)
                  else cap_loop env n (Suc iframe) (Suc numFrames) sc1 s1 fs1)))"

definition captest_main ::
    "string list \<Rightarrow> gdi_env \<Rightarrow> dx11_env \<Rightarrow> frame_env \<Rightarrow> os \<Rightarrow> fs \<Rightarrow> int \<times> nat \<times> session \<times> os \<times> fs" where
  "captest_main argv genv denv env s fs =
     (if length argv < 2 then (-1, 0, session_init, s, fs)
      else
        (let mode = parse_mode (argv ! 1) in
         if mode = ScreenCaptureMode_Invalid then (-1, 0, session_init, s, fs)
         else
           (case sc_startup genv denv mode session_init s of (ok, sc1, s1) \<Rightarrow>
              if \<not> ok then (case sc_shutdown sc1 s1 of (sc2, s2) \<Rightarrow> (-1, 0, sc2, s2, fs))
              else
                (case cap_loop env 100 0 0 sc1 s1 fs of (lok, numFrames, sc2, s2, fs2) \<Rightarrow>
                   if \<not> lok then (case sc_shutdown sc2 s2 of (sc3, s3) \<Rightarrow> (-1, numFrames, sc3, s3, fs2))
                   else
                     (case sc_shutdown sc2 s2 of (sc3, s3) \<Rightarrow>
                        (case sc_shutdown sc3 s3 of (sc4, s4) \<Rightarrow> (0, numFrames, sc4, s4, fs2)))))))"

text \<open>The file \<open>f\<close> is a 32-bit BMP of the \<open>w\<close> by \<open>h\<close> screen \<open>scr\<close>: its header gives the size
  and depth and its pixel data are the screen's rows from the bottom up, the order of a BMP
  with positive height, so the file shows the screen upright.\<close>

definition bmp_shows :: "screen \<Rightarrow> u32 \<Rightarrow> u32 \<Rightarrow> byte list \<Rightarrow> bool" where
  "bmp_shows scr w h f \<longleftrightarrow>
     length f = 54 + 4 * unat w * unat h \<and> bmp_field f 18 4 = unat w \<and> bmp_field f 22 4 = unat h \<and>
     bmp_field f 28 2 = 32 \<and> drop 54 f = concat (rev (map (screen_row scr (unat w)) [0..<unat h]))"

section \<open>Lemmas\<close>


lemma dec_value_dec_string: "dec_value (dec_string n) = n"
proof (induction n rule: dec_string.induct)
  case (1 n)
  show ?case
  proof (cases "n < 10")
    case True
    then show ?thesis by (simp add: dec_string.simps [of n] dec_value_def)
  next
    case False
    have d: "dec_string n = dec_string (n div 10) @ [char_of (48 + n mod 10)]"
      using False by (simp add: dec_string.simps [of n])
    have m: "(48 + n mod 10) mod 256 = 48 + n mod 10" by simp
    have "dec_value (dec_string n) = 10 * dec_value (dec_string (n div 10)) + n mod 10"
      by (simp only: d) (simp add: dec_value_def m)
    then show ?thesis using 1 False by simp
  qed
qed

text \<open>The file names \<open>frame%d.bmp\<close> of different iterations differ (the number reads
  back from the name), so no frame file overwrites another.\<close>

lemma frame_name_inj: "frame_name i = frame_name j \<longleftrightarrow> i = j"
  by (metis dec_value_dec_string frame_name_def same_append_eq append_same_eq)

lemma window_Suc:
  assumes "\<exists>j. Suc i \<le> j \<and> j < Suc i + n \<and> P j"
  shows "\<exists>j. i \<le> j \<and> j < i + Suc n \<and> P j"
proof -
  obtain j where "Suc i \<le> j" "j < Suc i + n" "P j" using assms by blast
  then show ?thesis by (intro exI [of _ j]) simp
qed

lemma cap_loop_files:
  assumes "cap_loop env n i k sc s fs = (lok, nf, sc', s', fs')"
  shows "k \<le> nf \<and> nf \<le> k + n \<and> (\<forall>q. fs' q \<noteq> fs q \<longrightarrow> (\<exists>j. i \<le> j \<and> j < i + n \<and> q = frame_name j))"
  using assms
proof (induction n arbitrary: i k sc s fs)
  case 0
  then show ?case by simp
next
  case (Suc n)
  obtain scr denv io where e: "env i = (scr, denv, io)" by (metis prod.exhaust)
  obtain ok sc1 s1 where c: "sc_capture scr denv sc s = (ok, sc1, s1)" by (metis prod.exhaust)
  show ?case
  proof (cases "\<not> ok \<or> sc_frame_width sc1 < 1")
    case True
    then have "cap_loop env n (Suc i) k sc1 s1 fs = (lok, nf, sc', s', fs')" using Suc.prems e c by simp
    from Suc.IH [OF this] show ?thesis using window_Suc [where P = "\<lambda>j. _ = frame_name j"] by auto
  next
    case False
    obtain wok fs1 where w: "bmp_write io (Some (frame_name i)) (sc_frame_width sc1) (sc_frame_height sc1)
        (sc_frame_stride sc1) (sc_frame_depth sc1) (cptr_buf (sc_frame_buffer sc1)) fs = (wok, fs1)"
      by (metis prod.exhaust)
    have f1: "\<forall>q. q \<noteq> frame_name i \<longrightarrow> fs1 q = fs q" using bmp_write_cases [OF w] by auto
    show ?thesis
    proof (cases wok)
      case False
      then have "(lok, nf, sc', s', fs') = (False, Suc k, sc1, s1, fs1)"
        using Suc.prems e c w \<open>\<not> (\<not> ok \<or> sc_frame_width sc1 < 1)\<close> by simp
      then show ?thesis using f1 by auto
    next
      case True
      then have "cap_loop env n (Suc i) (Suc k) sc1 s1 fs1 = (lok, nf, sc', s', fs')"
        using Suc.prems e c w \<open>\<not> (\<not> ok \<or> sc_frame_width sc1 < 1)\<close> by simp
      note ih = Suc.IH [OF this]
      have "\<exists>j. i \<le> j \<and> j < i + Suc n \<and> q = frame_name j" if "fs' q \<noteq> fs q" for q
      proof (cases "fs' q = fs1 q")
        case True
        then show ?thesis using that f1 by auto
      next
        case False
        then show ?thesis using ih that window_Suc [where P = "\<lambda>j. q = frame_name j"] by auto
      qed
      then show ?thesis using ih by auto
    qed
  qed
qed

lemma cap_loop_inv:
  assumes "sc_inv s0 (sc, s)" and "cap_loop env n i k sc s fs = (lok, nf, sc', s', fs')"
  shows "sc_inv s0 (sc', s')"
  using assms
proof (induction n arbitrary: i k sc s fs)
  case 0
  then show ?case by simp
next
  case (Suc n)
  obtain scr denv io where e: "env i = (scr, denv, io)" by (metis prod.exhaust)
  obtain ok sc1 s1 where c: "sc_capture scr denv sc s = (ok, sc1, s1)" by (metis prod.exhaust)
  have i1: "sc_inv s0 (sc1, s1)" using sc_capture_inv [OF Suc.prems(1) c] by blast
  obtain wok fs1 where w: "bmp_write io (Some (frame_name i)) (sc_frame_width sc1) (sc_frame_height sc1)
      (sc_frame_stride sc1) (sc_frame_depth sc1) (cptr_buf (sc_frame_buffer sc1)) fs = (wok, fs1)"
    by (metis prod.exhaust)
  show ?case
    using Suc.prems(2) e c w Suc.IH [OF i1] i1 by (auto split: if_splits)
qed

lemma captest_main_bad_args:
  assumes "length argv < 2 \<or> parse_mode (argv ! 1) = ScreenCaptureMode_Invalid"
  shows "captest_main argv genv denv env s fs = (-1, 0, session_init, s, fs)"
  using assms by (cases "length argv < 2") (auto simp: captest_main_def Let_def)

lemma captest_main_effect:
  assumes wf: "os_wf s" and m: "captest_main argv genv denv env s fs = (r, nf, sc', s', fs')"
  shows "os_refs s' = os_refs s \<and> sc_mode sc' = ScreenCaptureMode_Invalid \<and> sc_handles sc' = []"
proof (cases "length argv < 2 \<or> parse_mode (argv ! 1) = ScreenCaptureMode_Invalid")
  case True
  then show ?thesis using m by (auto simp: captest_main_bad_args session_init_def sc_handles_def)
next
  case False
  obtain ok sc1 s1 where st: "sc_startup genv denv (parse_mode (argv ! 1)) session_init s = (ok, sc1, s1)"
    by (metis prod.exhaust)
  have i1: "sc_inv s (sc1, s1)" using sc_startup_inv [OF wf sc_inv_init [OF wf] st] by blast
  note sd = sc_shutdown_inv [OF wf]
  show ?thesis
  proof (cases ok)
    case False
    obtain sc2 s2 where d2: "sc_shutdown sc1 s1 = (sc2, s2)" by (metis prod.exhaust)
    then show ?thesis using m st False \<open>\<not> (length argv < 2 \<or> _)\<close> sd [OF i1 d2]
      by (auto simp: captest_main_def Let_def)
  next
    case True
    obtain lok nf2 sc2 s2 fs2 where l: "cap_loop env 100 0 0 sc1 s1 fs = (lok, nf2, sc2, s2, fs2)"
      by (metis prod.exhaust)
    have i2: "sc_inv s (sc2, s2)" using cap_loop_inv [OF i1 l] .
    obtain sc3 s3 where d3: "sc_shutdown sc2 s2 = (sc3, s3)" by (metis prod.exhaust)
    note e3 = sd [OF i2 d3]
    obtain sc4 s4 where d4: "sc_shutdown sc3 s3 = (sc4, s4)" by (metis prod.exhaust)
    note e4 = sd [OF conjunct1 [OF e3] d4]
    show ?thesis using m st True l d3 d4 e3 e4 \<open>\<not> (length argv < 2 \<or> _)\<close>
      by (cases lok) (auto simp: captest_main_def Let_def)
  qed
qed

lemma captest_main_files:
  assumes m: "captest_main argv genv denv env s fs = (r, nf, sc', s', fs')"
  shows "nf \<le> 100 \<and> (\<forall>q. fs' q \<noteq> fs q \<longrightarrow> (\<exists>j<100. q = frame_name j))"
proof (cases "length argv < 2 \<or> parse_mode (argv ! 1) = ScreenCaptureMode_Invalid")
  case True
  then show ?thesis using m by (simp add: captest_main_bad_args)
next
  case False
  obtain ok sc1 s1 where st: "sc_startup genv denv (parse_mode (argv ! 1)) session_init s = (ok, sc1, s1)"
    by (metis prod.exhaust)
  obtain lok nf2 sc2 s2 fs2 where l: "cap_loop env 100 0 0 sc1 s1 fs = (lok, nf2, sc2, s2, fs2)"
    by (metis prod.exhaust)
  note c = cap_loop_files [OF l]
  show ?thesis using m st l c False
    by (cases ok; cases lok) (auto simp: captest_main_def Let_def split: prod.splits)
qed

lemma cap_gdi_capture:
  fixes scr :: screen
  assumes g: "sc_capgdi sc = Some g" and r: "gdi_ready g s" and wf: "os_wf s"
    and w: "gdi_width g \<noteq> 0" "unat (gdi_width g) < 2 ^ 27" and h: "gdi_height g \<noteq> 0"
  defines "g' \<equiv> g\<lparr>gdi_dibBits := Some (gdi_image scr g)\<rparr>" and "s' \<equiv> s\<lparr>os_next := Suc (os_next s)\<rparr>"
  shows "sc_capture scr denv sc s = (True, sc\<lparr>sc_capgdi := Some g'\<rparr>, s') \<and> gdi_ready g' s' \<and> os_wf s' \<and>
         unat (gdi_frame_stride g') = 4 * unat (gdi_width g) \<and> gdi_depth g = 32 \<and>
         bmp_args_ok (frame_name i) (gdi_width g) (gdi_height g) (gdi_frame_stride g') (gdi_depth g) \<and>
         sc_frame_width (sc\<lparr>sc_capgdi := Some g'\<rparr>) = gdi_width g \<and>
         sc_frame_height (sc\<lparr>sc_capgdi := Some g'\<rparr>) = gdi_height g \<and>
         sc_frame_stride (sc\<lparr>sc_capgdi := Some g'\<rparr>) = gdi_frame_stride g' \<and>
         sc_frame_depth (sc\<lparr>sc_capgdi := Some g'\<rparr>) = gdi_depth g \<and>
         cptr_buf (sc_frame_buffer (sc\<lparr>sc_capgdi := Some g'\<rparr>)) = Some (gdi_image scr g)"
proof -
  have gc: "gdi_capture scr g s = (True, g', s')" unfolding g'_def s'_def by (rule gdi_capture_ready [OF r wf w])
  have r': "gdi_ready g' s'" unfolding g'_def s'_def by (rule gdi_ready_after_capture [OF r])
  have stride: "unat (gdi_frame_stride g') = 4 * unat (gdi_width g)"
    using unat_gdi_frame_stride [OF r'] w(2) by (simp add: g'_def)
  have depth: "gdi_depth g = 32" using r by (auto simp: gdi_ready_def split: option.splits)
  have "unat (gdi_width g * 3) = unat (gdi_width g) * 3"
    using w(2) by (simp add: unat_mult_lem [THEN iffD1])
  then have "\<not> gdi_frame_stride g' < gdi_width g * 3" using stride by (simp add: word_less_nat_alt)
  then have args: "bmp_args_ok (frame_name i) (gdi_width g) (gdi_height g) (gdi_frame_stride g') (gdi_depth g)"
    using w(1) h depth by (simp add: bmp_args_ok_def frame_name_def)
  show ?thesis
    using gc g r' gdi_capture_effect [OF wf gc] stride depth args
    by (simp add: sc_capture_def sc_frame_width_def sc_frame_height_def sc_frame_stride_def sc_frame_depth_def
        sc_frame_buffer_def g'_def)
qed

lemma bmp_write_screen:
  assumes args: "bmp_args_ok p (gdi_width g) (gdi_height g) st 32"
    and io: "bmp_open_ok io" "\<forall>k. bmp_write_ok io k"
    and st: "unat st = 4 * unat (gdi_width g)" and w: "unat (gdi_width g) < 2 ^ 27"
    and fit: "4 * unat (gdi_width g) * unat (gdi_height g) < 2 ^ 32"
  shows "\<exists>f. bmp_write io (Some p) (gdi_width g) (gdi_height g) st 32 (Some (gdi_image scr g)) fs = (True, fs(p \<mapsto> f)) \<and>
           length f = 54 + 4 * unat (gdi_width g) * unat (gdi_height g) \<and>
           bmp_field f 18 4 = unat (gdi_width g) \<and> bmp_field f 22 4 = unat (gdi_height g) \<and> bmp_field f 28 2 = 32 \<and>
           drop 54 f = concat (rev (map (screen_row scr (unat (gdi_width g))) [0..<unat (gdi_height g)]))"
proof -
  let ?W = "gdi_width g" and ?H = "gdi_height g"
  let ?os = "out_stride_align (?W * 32 div 8)"
  let ?rs = "map (screen_row scr (unat ?W)) [0..<unat ?H]"
  have h1: "1 \<le> ?H" using bmp_args_okD [OF args] by simp
  have os: "unat ?os = 4 * unat ?W"
    using out_stride_align_unat [of "?W * 32 div 8"] unat_width_times_32 [OF w] w round_up4_exact [of "4 * unat ?W"]
    by simp
  have "unat st * (unat ?H - 1) \<le> 4 * unat ?W * unat ?H" using st by simp
  then have nw: "unat st * (unat ?H - 1) < 2 ^ 32" using fit by linarith
  have u: "uniform_rows (4 * unat ?W) ?rs" by (simp add: uniform_rows_def)
  have rows: "map (\<lambda>i. buf_read (gdi_image scr g) (i * unat st) (unat ?os)) [0..<unat ?H] = ?rs"
  proof (rule nth_equalityI)
    fix i assume "i < length (map (\<lambda>i. buf_read (gdi_image scr g) (i * unat st) (unat ?os)) [0..<unat ?H])"
    then have i: "i < length ?rs" by simp
    show "map (\<lambda>i. buf_read (gdi_image scr g) (i * unat st) (unat ?os)) [0..<unat ?H] ! i = ?rs ! i"
      using buf_read_row [OF u i] i st os by (simp add: gdi_image_def del: nth_map_upt)
  qed simp
  let ?fh = "\<lparr>bfType = 0x4D42, bfSize = 14 + 40 + ?os * ?H, bfReserved1 = 0, bfReserved2 = 0, bfOffBits = 14 + 40\<rparr>"
  let ?ih = "\<lparr>biSize = 40, biWidth = ?W, biHeight = ?H, biPlanes = 1,
             biBitCount = ucast (32 :: u32), biCompression = 0, biSizeImage = ?os * ?H,
             biXPelsPerMeter = 0, biYPelsPerMeter = 0, biClrUsed = 0, biClrImportant = 0\<rparr>"
  have wr: "bmp_write io (Some p) ?W ?H st 32 (Some (gdi_image scr g)) fs =
              (True, fs(p \<mapsto> file_header_bytes ?fh @ info_header_bytes ?ih @ concat (rev ?rs)))"
    using bmp_write_success [OF args io, of "gdi_image scr g" fs] bmp_rows_bottom_up [OF h1 nw, of "gdi_image scr g" "unat ?os"]
      rows by simp
  have len: "length (concat (rev ?rs)) = 4 * unat ?W * unat ?H"
    using length_concat_uniform [of "4 * unat ?W" "rev ?rs"] u by (simp add: uniform_rows_def)
  show ?thesis
    using wr bmp_header_fields [OF refl, of ?fh ?ih "concat (rev ?rs)"] len by auto
qed

lemma cap_loop_gdi:
  assumes "sc_capgdi sc = Some g" and "gdi_ready g s" and "os_wf s" and "gdi_width g \<noteq> 0"
    and "unat (gdi_width g) < 2 ^ 27" and "gdi_height g \<noteq> 0"
    and io: "\<forall>j. bmp_open_ok (snd (snd (env j))) \<and> (\<forall>k. bmp_write_ok (snd (snd (env j))) k)"
  shows "\<exists>sc' s' fs'. cap_loop env n i k sc s fs = (True, k + n, sc', s', fs') \<and>
           (\<forall>j. i \<le> j \<and> j < i + n \<longrightarrow> fs' (frame_name j) \<noteq> None) \<and> (\<forall>q. fs q \<noteq> None \<longrightarrow> fs' q \<noteq> None)"
  using assms(1-6)
proof (induction n arbitrary: i k g sc s fs)
  case 0
  then show ?case by auto
next
  case (Suc n)
  obtain scr denv io' where e: "env i = (scr, denv, io')" by (metis prod.exhaust)
  let ?g' = "g\<lparr>gdi_dibBits := Some (gdi_image scr g)\<rparr>"
  let ?s' = "s\<lparr>os_next := Suc (os_next s)\<rparr>"
  let ?sc1 = "sc\<lparr>sc_capgdi := Some ?g'\<rparr>"
  note cg = cap_gdi_capture [OF Suc.prems(1-6), of scr denv i]
  have "bmp_open_ok io'" "\<forall>k. bmp_write_ok io' k" using io e by (metis snd_conv)+
  then obtain f where w: "bmp_write io' (Some (frame_name i)) (gdi_width g) (gdi_height g) (gdi_frame_stride ?g')
      (gdi_depth g) (Some (gdi_image scr g)) fs = (True, fs(frame_name i \<mapsto> f))"
    using bmp_write_writes cg by blast
  have loop: "cap_loop env (Suc n) i k sc s fs = cap_loop env n (Suc i) (Suc k) ?sc1 ?s' (fs(frame_name i \<mapsto> f))"
    using e cg w Suc.prems(4) by simp
  have "\<exists>sc' s'' fs'. cap_loop env n (Suc i) (Suc k) ?sc1 ?s' (fs(frame_name i \<mapsto> f)) = (True, Suc k + n, sc', s'', fs') \<and>
      (\<forall>j. Suc i \<le> j \<and> j < Suc i + n \<longrightarrow> fs' (frame_name j) \<noteq> None) \<and>
      (\<forall>q. (fs(frame_name i \<mapsto> f)) q \<noteq> None \<longrightarrow> fs' q \<noteq> None)"
    by (rule Suc.IH [where g = ?g']) (use cg Suc.prems(4-6) in simp_all)
  then obtain sc' s'' fs' where ih: "cap_loop env n (Suc i) (Suc k) ?sc1 ?s' (fs(frame_name i \<mapsto> f)) = (True, Suc k + n, sc', s'', fs')"
      "\<forall>j. Suc i \<le> j \<and> j < Suc i + n \<longrightarrow> fs' (frame_name j) \<noteq> None"
      "\<forall>q. (fs(frame_name i \<mapsto> f)) q \<noteq> None \<longrightarrow> fs' q \<noteq> None"
    by blast
  have "fs' (frame_name j) \<noteq> None" if "i \<le> j" "j < i + Suc n" for j
  proof (cases "j = i")
    case True
    then show ?thesis using ih(3) by simp
  next
    case False
    then show ?thesis using ih(2) that by simp
  qed
  moreover have "\<forall>q. fs q \<noteq> None \<longrightarrow> fs' q \<noteq> None" using ih(3) by (metis fun_upd_apply option.distinct(1))
  ultimately show ?case using loop ih(1) by auto
qed

lemma cap_loop_gdi_content:
  assumes "sc_capgdi sc = Some g" and "gdi_ready g s" and "os_wf s" and "gdi_width g \<noteq> 0"
    and "unat (gdi_width g) < 2 ^ 27" and "gdi_height g \<noteq> 0"
    and "4 * unat (gdi_width g) * unat (gdi_height g) < 2 ^ 32"
    and io: "\<forall>j. bmp_open_ok (snd (snd (env j))) \<and> (\<forall>k. bmp_write_ok (snd (snd (env j))) k)"
  shows "\<exists>sc' s' fs'. cap_loop env n i k sc s fs = (True, k + n, sc', s', fs') \<and>
           (\<forall>j. i \<le> j \<and> j < i + n \<longrightarrow>
              (\<exists>f. fs' (frame_name j) = Some f \<and> bmp_shows (fst (env j)) (gdi_width g) (gdi_height g) f))"
  using assms(1-7)
proof (induction n arbitrary: i k g sc s fs)
  case 0
  then show ?case by auto
next
  case (Suc n)
  obtain scr denv io' where e: "env i = (scr, denv, io')" by (metis prod.exhaust)
  let ?g' = "g\<lparr>gdi_dibBits := Some (gdi_image scr g)\<rparr>"
  let ?s' = "s\<lparr>os_next := Suc (os_next s)\<rparr>"
  let ?sc1 = "sc\<lparr>sc_capgdi := Some ?g'\<rparr>"
  note cg = cap_gdi_capture [OF Suc.prems(1-6), of scr denv i]
  have "bmp_open_ok io'" "\<forall>k. bmp_write_ok io' k" using io e by (metis snd_conv)+
  then obtain f where w: "bmp_write io' (Some (frame_name i)) (gdi_width g) (gdi_height g) (gdi_frame_stride ?g')
      32 (Some (gdi_image scr g)) fs = (True, fs(frame_name i \<mapsto> f))" and sh: "bmp_shows scr (gdi_width g) (gdi_height g) f"
    using bmp_write_screen [where p = "frame_name i" and g = g and st = "gdi_frame_stride ?g'" and io = io'
        and scr = scr and fs = fs] cg Suc.prems(5,7)
    by (auto simp: bmp_shows_def)
  have loop: "cap_loop env (Suc n) i k sc s fs = cap_loop env n (Suc i) (Suc k) ?sc1 ?s' (fs(frame_name i \<mapsto> f))"
    using e cg w Suc.prems(4) by simp
  have "\<exists>sc' s'' fs'. cap_loop env n (Suc i) (Suc k) ?sc1 ?s' (fs(frame_name i \<mapsto> f)) = (True, Suc k + n, sc', s'', fs') \<and>
      (\<forall>j. Suc i \<le> j \<and> j < Suc i + n \<longrightarrow>
         (\<exists>f. fs' (frame_name j) = Some f \<and> bmp_shows (fst (env j)) (gdi_width ?g') (gdi_height ?g') f))"
    by (rule Suc.IH [where g = ?g']) (use cg Suc.prems(4-7) in simp_all)
  then have "\<exists>sc' s'' fs'. cap_loop env n (Suc i) (Suc k) ?sc1 ?s' (fs(frame_name i \<mapsto> f)) = (True, Suc k + n, sc', s'', fs') \<and>
      (\<forall>j. Suc i \<le> j \<and> j < Suc i + n \<longrightarrow>
         (\<exists>f. fs' (frame_name j) = Some f \<and> bmp_shows (fst (env j)) (gdi_width g) (gdi_height g) f))"
    by simp
  then obtain sc' s'' fs' where ih: "cap_loop env n (Suc i) (Suc k) ?sc1 ?s' (fs(frame_name i \<mapsto> f)) = (True, Suc k + n, sc', s'', fs')"
      "\<forall>j. Suc i \<le> j \<and> j < Suc i + n \<longrightarrow>
         (\<exists>f. fs' (frame_name j) = Some f \<and> bmp_shows (fst (env j)) (gdi_width g) (gdi_height g) f)"
    by blast
  have ch: "\<forall>q. fs' q \<noteq> (fs(frame_name i \<mapsto> f)) q \<longrightarrow> (\<exists>j. Suc i \<le> j \<and> j < Suc i + n \<and> q = frame_name j)"
    using cap_loop_files [OF ih(1)] by blast
  have keep: "fs' (frame_name i) = Some f"
  proof (rule ccontr)
    assume "fs' (frame_name i) \<noteq> Some f"
    then have "fs' (frame_name i) \<noteq> (fs(frame_name i \<mapsto> f)) (frame_name i)" by simp
    then obtain j where "Suc i \<le> j" "frame_name i = frame_name j" using ch by blast
    then show False by (simp add: frame_name_inj)
  qed
  have "\<exists>f. fs' (frame_name j) = Some f \<and> bmp_shows (fst (env j)) (gdi_width g) (gdi_height g) f"
    if "i \<le> j" "j < i + Suc n" for j
  proof (cases "j = i")
    case True
    then show ?thesis using keep sh e by simp
  next
    case False
    then show ?thesis using ih(2) that by simp
  qed
  then show ?case using loop ih(1) by auto
qed

lemma parse_mode_gdi: "parse_mode ''gdi'' = ScreenCaptureMode_GDI"
  by code_simp

section \<open>Properties of captest\<close>

text \<open>C29: on every return path of \<open>main\<close> (bad command line, failed Startup, failed
  \<open>BmpWrite\<close>, normal end), and for every environment, the platform objects alive afterwards are
  exactly those alive before, with their reference counts: the destructor of \<open>cap\<close> releases
  what the early returns leave behind.\<close>

theorem captest_no_leak:
  assumes "os_wf s"
  shows "case captest_main argv genv denv env s fs of (r, nf, sc', s', fs') \<Rightarrow>
           os_refs s' = os_refs s \<and> live_set s' = live_set s \<and> sc_mode sc' = ScreenCaptureMode_Invalid"
proof -
  obtain r nf sc' s' fs' where m: "captest_main argv genv denv env s fs = (r, nf, sc', s', fs')"
    by (metis prod.exhaust)
  show ?thesis using captest_main_effect [OF assms m] m by (simp add: live_set_def live_def)
qed

theorem captest_no_leak_witness:
  "case captest_main [''captest'', ''gdi''] example_small_env example_dx_env
          (\<lambda>_. (example_screen, example_dx_env, io_ok)) empty_os Map.empty of
     (r, nf, sc', s', fs') \<Rightarrow> os_refs s' = os_refs empty_os"
  using captest_no_leak [OF os_wf_empty_os, where argv = "[''captest'', ''gdi'']" and genv = example_small_env
      and denv = example_dx_env and env = "\<lambda>_. (example_screen, example_dx_env, io_ok)" and fs = Map.empty]
  by (auto split: prod.splits)

text \<open>C30: \<open>main\<close> counts at most 100 frames and changes no file but \<open>frame0.bmp\<close> to
  \<open>frame99.bmp\<close>.\<close>

theorem captest_writes_only_frames:
  "case captest_main argv genv denv env s fs of (r, nf, sc', s', fs') \<Rightarrow>
     nf \<le> 100 \<and> (\<forall>q. fs' q \<noteq> fs q \<longrightarrow> (\<exists>j<100. q = frame_name j))"
proof -
  obtain r nf sc' s' fs' where m: "captest_main argv genv denv env s fs = (r, nf, sc', s', fs')"
    by (metis prod.exhaust)
  show ?thesis using captest_main_files [OF m] m by simp
qed

theorem captest_writes_only_frames_witness:
  "case captest_main [''captest'', ''dx11''] example_small_env example_dx_env
          (\<lambda>_. (example_screen, example_dx_env, io_ok)) example_dx_os [''notes.txt'' \<mapsto> []] of
     (r, nf, sc', s', fs') \<Rightarrow> fs' ''notes.txt'' = Some []"
  using captest_writes_only_frames [where argv = "[''captest'', ''dx11'']" and genv = example_small_env
      and denv = example_dx_env and env = "\<lambda>_. (example_screen, example_dx_env, io_ok)" and s = example_dx_os
      and fs = "[''notes.txt'' \<mapsto> []]"]
  by (auto simp: frame_name_def split: prod.splits dest!: spec [of _ "''notes.txt''"])

text \<open>C32: with the GDI backend on a screen of width below \<open>2^27\<close> pixels whose allocations
  succeed, and file operations that succeed, \<open>main\<close> runs to its end: it returns 0 after
  capturing 100 frames, and \<open>frame0.bmp\<close> to \<open>frame99.bmp\<close> all exist.\<close>

theorem captest_gdi_writes_all_frames:
  assumes "2 \<le> length argv" and "parse_mode (argv ! 1) = ScreenCaptureMode_GDI" and wf: "os_wf s"
    and dc: "dc_alloc_ok genv" and dib: "dib_alloc_ok genv" and sz: "gdi_screen_size genv = (w, h)"
    and "w \<noteq> 0" and "h \<noteq> 0" and "unat w < 2 ^ 27"
    and io: "\<forall>j. bmp_open_ok (snd (snd (env j))) \<and> (\<forall>k. bmp_write_ok (snd (snd (env j))) k)"
  shows "\<exists>sc' s' fs'. captest_main argv genv denv env s fs = (0, 100, sc', s', fs') \<and>
           (\<forall>j<100. fs' (frame_name j) \<noteq> None)"
proof -
  obtain ok g s1 where gs: "gdi_startup genv gdi_init s = (ok, g, s1)" by (metis prod.exhaust)
  have g: "ok" "gdi_ready g s1" "os_wf s1" "gdi_width g = w" "gdi_height g = h"
    using gdi_startup_success [OF wf dc dib, of gdi_init] gs sz by auto
  let ?sc1 = "session_init\<lparr>sc_mode := ScreenCaptureMode_GDI, sc_capgdi := Some g\<rparr>"
  have st: "sc_startup genv denv ScreenCaptureMode_GDI session_init s = (True, ?sc1, s1)"
    using gs g(1) by (simp add: sc_startup_def session_init_def)
  obtain sc2 s2 fs2 where l: "cap_loop env 100 0 0 ?sc1 s1 fs = (True, 100, sc2, s2, fs2)"
      "\<forall>j. 0 \<le> j \<and> j < 100 \<longrightarrow> fs2 (frame_name j) \<noteq> None"
    using cap_loop_gdi [OF _ g(2,3) _ _ _ io, where sc = ?sc1 and n = 100 and i = 0 and k = 0 and fs = fs]
      g(4,5) assms(7-9) by auto
  show ?thesis using st l assms(1,2) by (auto simp: captest_main_def Let_def split: prod.splits)
qed

theorem captest_gdi_writes_all_frames_witness:
  "\<exists>sc' s' fs'. captest_main [''captest'', ''gdi''] example_small_env example_dx_env
      (\<lambda>_. (example_screen, example_dx_env, io_ok)) empty_os Map.empty = (0, 100, sc', s', fs') \<and>
    (\<forall>j<100. fs' (frame_name j) \<noteq> None)"
  using captest_gdi_writes_all_frames [where argv = "[''captest'', ''gdi'']" and genv = example_small_env
      and denv = example_dx_env and env = "\<lambda>_. (example_screen, example_dx_env, io_ok)" and s = empty_os
      and fs = Map.empty and w = 2 and h = 2]
  by (simp add: os_wf_empty_os example_small_env_def gdi_screen_size_def parse_mode_gdi io_ok_def)

text \<open>C2: with the GDI backend on a screen whose allocations succeed and whose frame fits
  32-bit arithmetic, and file operations that succeed, every file \<open>frame<j>.bmp\<close> that
  \<open>main\<close> writes is a 32-bit BMP of the screen of iteration \<open>j\<close>: width, height and depth in
  the header, \<open>54 + 4 * width * height\<close> bytes, and the screen's rows stored bottom-up, so
  the picture is upright.  The GDI flip and the bottom-up row loop of \<open>BmpWrite\<close> compose
  to this; each file holds its own iteration's screen.\<close>

theorem captest_gdi_frames_show_screens:
  assumes "2 \<le> length argv" and "parse_mode (argv ! 1) = ScreenCaptureMode_GDI" and wf: "os_wf s"
    and dc: "dc_alloc_ok genv" and dib: "dib_alloc_ok genv" and sz: "gdi_screen_size genv = (w, h)"
    and "w \<noteq> 0" and "h \<noteq> 0" and "unat w < 2 ^ 27" and "4 * unat w * unat h < 2 ^ 32"
    and io: "\<forall>j. bmp_open_ok (snd (snd (env j))) \<and> (\<forall>k. bmp_write_ok (snd (snd (env j))) k)"
  shows "\<exists>sc' s' fs'. captest_main argv genv denv env s fs = (0, 100, sc', s', fs') \<and>
           (\<forall>j<100. \<exists>f. fs' (frame_name j) = Some f \<and> bmp_shows (fst (env j)) w h f)"
proof -
  obtain ok g s1 where gs: "gdi_startup genv gdi_init s = (ok, g, s1)" by (metis prod.exhaust)
  have g: "ok" "gdi_ready g s1" "os_wf s1" "gdi_width g = w" "gdi_height g = h"
    using gdi_startup_success [OF wf dc dib, of gdi_init] gs sz by auto
  let ?sc1 = "session_init\<lparr>sc_mode := ScreenCaptureMode_GDI, sc_capgdi := Some g\<rparr>"
  have st: "sc_startup genv denv ScreenCaptureMode_GDI session_init s = (True, ?sc1, s1)"
    using gs g(1) by (simp add: sc_startup_def session_init_def)
  obtain sc2 s2 fs2 where l: "cap_loop env 100 0 0 ?sc1 s1 fs = (True, 100, sc2, s2, fs2)"
      "\<forall>j. 0 \<le> j \<and> j < 100 \<longrightarrow> (\<exists>f. fs2 (frame_name j) = Some f \<and> bmp_shows (fst (env j)) w h f)"
    using cap_loop_gdi_content [OF _ g(2,3) _ _ _ _ io, where sc = ?sc1 and n = 100 and i = 0 and k = 0 and fs = fs]
      g(4,5) assms(7-10) by auto
  show ?thesis using st l assms(1,2) by (auto simp: captest_main_def Let_def split: prod.splits)
qed

theorem captest_gdi_frames_show_screens_witness:
  "\<exists>sc' s' fs'. captest_main [''captest'', ''gdi''] example_small_env example_dx_env
      (\<lambda>_. (example_screen, example_dx_env, io_ok)) empty_os Map.empty = (0, 100, sc', s', fs') \<and>
    (\<forall>j<100. \<exists>f. fs' (frame_name j) = Some f \<and> bmp_shows example_screen 2 2 f)"
  using captest_gdi_frames_show_screens [where argv = "[''captest'', ''gdi'']" and genv = example_small_env
      and denv = example_dx_env and env = "\<lambda>_. (example_screen, example_dx_env, io_ok)" and s = empty_os
      and fs = Map.empty and w = 2 and h = 2]
  by (simp add: os_wf_empty_os example_small_env_def gdi_screen_size_def parse_mode_gdi io_ok_def)

end
