(* ===== verification/Encoder.thy ===== *)
theory Encoder
  imports Scanlines Platform
begin

text \<open>
  \<open>VideoFileEncoder\<close> (src/VideoFileEncoder.h, src/VideoFileEncoder.cpp): encodes frames
  of 32-bit pixels to a video file through a Media Foundation sink writer.  The class's
  fields are the record \<open>encoder\<close>.  Media Foundation is modelled as far as the class
  depends on it: the record \<open>mf\<close> holds the \<open>MFStartup\<close> and \<open>CoInitializeEx\<close> counts,
  the attributes of every media type object, and for every sink writer its URL, its stream's
  output and input types, whether \<open>BeginWriting\<close> ran, the samples written to it and whether
  it was finalized; memory buffers and samples are the objects of the platform store, a
  buffer's bytes are its \<open>os_tex\<close> contents.  Every COM object is a handle of the platform
  store with its reference count.

  Each fallible call the class makes is a constructor of \<open>mf_call\<close>, executed by
  \<open>mf_call_exec\<close> with the \<open>HRESULT\<close> the system returns for it; which call fails is the
  environment \<open>mf_env\<close>, the result of the \<open>k\<close>-th call of one method invocation.  The
  chains \<open>if (SUCCEEDED(hr)) hr = ...;\<close> of the source are \<open>mf_chain\<close> over the list of
  calls.  Undefined behaviour (a call through a null pointer, a copy outside a buffer, a
  \<open>double\<close> out of the range of \<open>uint32_t\<close>) is an \<open>enc_error\<close> on the left of the result.
\<close>

subsection \<open>Media Foundation values\<close>

datatype guid =
    MFVideoFormat_H264
  | MFVideoFormat_WMV3
  | MFVideoFormat_RGB32
  | MFMediaType_Video
  | Other_GUID nat

datatype mf_attr =
    MF_MT_MAJOR_TYPE
  | MF_MT_SUBTYPE
  | MF_MT_AVG_BITRATE
  | MF_MT_INTERLACE_MODE
  | MF_MT_FRAME_SIZE
  | MF_MT_FRAME_RATE
  | MF_MT_PIXEL_ASPECT_RATIO

text \<open>\<open>MFSetAttributeSize\<close> and \<open>MFSetAttributeRatio\<close> store a pair of \<open>UINT32\<close>s.\<close>

datatype attr_val = Attr_GUID guid | Attr_UINT32 u32 | Attr_Pair u32 u32

type_synonym media_type = "mf_attr \<Rightarrow> attr_val option"

definition MFVideoInterlace_Progressive :: u32 where
  "MFVideoInterlace_Progressive = 2"

record mf_sample =
  smp_time :: int
  smp_duration :: int
  smp_data :: "byte list"

record mf =
  mf_startups :: nat
  mf_coinits :: nat
  mf_types :: "handle \<Rightarrow> media_type"
  mf_url :: "handle \<Rightarrow> string"
  mf_stream_out :: "handle \<Rightarrow> media_type option"
  mf_stream_in :: "handle \<Rightarrow> media_type option"
  mf_writing :: "handle \<Rightarrow> bool"
  mf_written :: "handle \<Rightarrow> mf_sample list"
  mf_finalized :: "handle \<Rightarrow> bool"
  mf_buf_len :: "handle \<Rightarrow> nat"
  mf_smp_buffers :: "handle \<Rightarrow> handle list"
  mf_smp_time :: "handle \<Rightarrow> int"
  mf_smp_duration :: "handle \<Rightarrow> int"

datatype enc_error =
    Null_Dereference
  | Out_Of_Bounds_Read
  | Out_Of_Bounds_Write
  | Float_Conversion_Overflow

type_synonym mf_env = "nat \<Rightarrow> hresult"

subsection \<open>The calls\<close>

text \<open>The local pointer variables of \<open>InitializeSinkWriter\<close> and \<open>WriteFrame\<close>.\<close>

record mf_locals =
  l_writer :: "handle option"
  l_out :: "handle option"
  l_in :: "handle option"
  l_stream :: u32
  l_buffer :: "handle option"
  l_sample :: "handle option"

definition mf_locals0 :: mf_locals where
  "mf_locals0 = \<lparr>l_writer = None, l_out = None, l_in = None, l_stream = 0, l_buffer = None, l_sample = None\<rparr>"

datatype mf_call =
    MFCreateSinkWriterFromURL string
  | MFCreateMediaType bool
  | SetAttr bool mf_attr attr_val
  | AddStream
  | SetInputMediaType
  | BeginWriting
  | MFCreateMemoryBuffer u32
  | Lock
  | MFCopyImage "byte list" u32 u32
  | SetCurrentLength u32
  | MFCreateSample
  | AddBuffer
  | SetSampleTime int
  | SetSampleDuration int
  | WriteSample "handle option" u32

text \<open>
  One call, given the \<open>HRESULT\<close> the system answers.  \<open>SetAttr True\<close> addresses
  \<open>pMediaTypeOut\<close>, \<open>SetAttr False\<close> \<open>pMediaTypeIn\<close>.  A new memory buffer has its
  maximum length of bytes and current length 0; \<open>SetCurrentLength\<close> beyond the maximum,
  \<open>WriteSample\<close> before \<open>BeginWriting\<close> or to another stream than the one added fail.
  \<open>AddBuffer\<close> gives the sample a reference to the buffer; \<open>WriteSample\<close> delivers the
  sample's time, duration and bytes to the writer's stream.
\<close>

fun mf_call_exec :: "mf_call \<Rightarrow> hresult \<Rightarrow> mf_locals \<times> os \<times> mf \<Rightarrow> enc_error + hresult \<times> mf_locals \<times> os \<times> mf" where
  "mf_call_exec (MFCreateSinkWriterFromURL url) hr (l, s, m) =
     (if \<not> SUCCEEDED hr then Inr (hr, l, s, m)
      else (case os_create s of (w, s') \<Rightarrow>
        Inr (hr, l\<lparr>l_writer := Some w\<rparr>, s',
             m\<lparr>mf_url := (mf_url m)(w := url), mf_stream_out := (mf_stream_out m)(w := None),
               mf_stream_in := (mf_stream_in m)(w := None), mf_writing := (mf_writing m)(w := False),
               mf_written := (mf_written m)(w := []), mf_finalized := (mf_finalized m)(w := False)\<rparr>)))"
| "mf_call_exec (MFCreateMediaType out) hr (l, s, m) =
     (if \<not> SUCCEEDED hr then Inr (hr, l, s, m)
      else (case os_create s of (t, s') \<Rightarrow>
        Inr (hr, if out then l\<lparr>l_out := Some t\<rparr> else l\<lparr>l_in := Some t\<rparr>, s',
             m\<lparr>mf_types := (mf_types m)(t := Map.empty)\<rparr>)))"
| "mf_call_exec (SetAttr out a v) hr (l, s, m) =
     (case if out then l_out l else l_in l of
        None \<Rightarrow> Inl Null_Dereference
      | Some t \<Rightarrow>
          Inr (hr, l, s, if SUCCEEDED hr then m\<lparr>mf_types := (mf_types m)(t := (mf_types m t)(a \<mapsto> v))\<rparr> else m))"
| "mf_call_exec AddStream hr (l, s, m) =
     (case (l_writer l, l_out l) of
        (Some w, Some t) \<Rightarrow>
          if SUCCEEDED hr then Inr (hr, l\<lparr>l_stream := 0\<rparr>, s, m\<lparr>mf_stream_out := (mf_stream_out m)(w \<mapsto> mf_types m t)\<rparr>)
          else Inr (hr, l, s, m)
      | _ \<Rightarrow> Inl Null_Dereference)"
| "mf_call_exec SetInputMediaType hr (l, s, m) =
     (case (l_writer l, l_in l) of
        (Some w, Some t) \<Rightarrow>
          if SUCCEEDED hr then Inr (hr, l, s, m\<lparr>mf_stream_in := (mf_stream_in m)(w \<mapsto> mf_types m t)\<rparr>)
          else Inr (hr, l, s, m)
      | _ \<Rightarrow> Inl Null_Dereference)"
| "mf_call_exec BeginWriting hr (l, s, m) =
     (case l_writer l of
        Some w \<Rightarrow> Inr (hr, l, s, if SUCCEEDED hr then m\<lparr>mf_writing := (mf_writing m)(w := True)\<rparr> else m)
      | None \<Rightarrow> Inl Null_Dereference)"
| "mf_call_exec (MFCreateMemoryBuffer cb) hr (l, s, m) =
     (if \<not> SUCCEEDED hr then Inr (hr, l, s, m)
      else (case os_create s of (b, s') \<Rightarrow>
        Inr (hr, l\<lparr>l_buffer := Some b\<rparr>, s'\<lparr>os_tex := (os_tex s')(b := replicate (unat cb) 0)\<rparr>,
             m\<lparr>mf_buf_len := (mf_buf_len m)(b := 0)\<rparr>)))"
| "mf_call_exec Lock hr (l, s, m) =
     (case l_buffer l of Some b \<Rightarrow> Inr (hr, l, s, m) | None \<Rightarrow> Inl Null_Dereference)"
| "mf_call_exec (MFCopyImage src widthBytes lines) hr (l, s, m) =
     (case l_buffer l of
        None \<Rightarrow> Inl Null_Dereference
      | Some b \<Rightarrow>
          (let n = unat widthBytes * unat lines in
           if sint widthBytes < 0 \<or> length src < n then Inl Out_Of_Bounds_Read
           else if length (os_tex s b) < n then Inl Out_Of_Bounds_Write
           else Inr (hr, l, if SUCCEEDED hr then s\<lparr>os_tex := (os_tex s)(b := buf_write (os_tex s b) 0 (take n src))\<rparr>
                            else s, m)))"
| "mf_call_exec (SetCurrentLength cb) hr (l, s, m) =
     (case l_buffer l of
        None \<Rightarrow> Inl Null_Dereference
      | Some b \<Rightarrow>
          if length (os_tex s b) < unat cb then Inr (E_FAIL, l, s, m)
          else Inr (hr, l, s, if SUCCEEDED hr then m\<lparr>mf_buf_len := (mf_buf_len m)(b := unat cb)\<rparr> else m))"
| "mf_call_exec MFCreateSample hr (l, s, m) =
     (if \<not> SUCCEEDED hr then Inr (hr, l, s, m)
      else (case os_create s of (smp, s') \<Rightarrow>
        Inr (hr, l\<lparr>l_sample := Some smp\<rparr>, s',
             m\<lparr>mf_smp_buffers := (mf_smp_buffers m)(smp := []), mf_smp_time := (mf_smp_time m)(smp := 0),
               mf_smp_duration := (mf_smp_duration m)(smp := 0)\<rparr>)))"
| "mf_call_exec AddBuffer hr (l, s, m) =
     (case (l_sample l, l_buffer l) of
        (Some smp, Some b) \<Rightarrow>
          if SUCCEEDED hr then Inr (hr, l, os_addref b s, m\<lparr>mf_smp_buffers := (mf_smp_buffers m)(smp := mf_smp_buffers m smp @ [b])\<rparr>)
          else Inr (hr, l, s, m)
      | _ \<Rightarrow> Inl Null_Dereference)"
| "mf_call_exec (SetSampleTime t) hr (l, s, m) =
     (case l_sample l of
        Some smp \<Rightarrow> Inr (hr, l, s, if SUCCEEDED hr then m\<lparr>mf_smp_time := (mf_smp_time m)(smp := t)\<rparr> else m)
      | None \<Rightarrow> Inl Null_Dereference)"
| "mf_call_exec (SetSampleDuration d) hr (l, s, m) =
     (case l_sample l of
        Some smp \<Rightarrow> Inr (hr, l, s, if SUCCEEDED hr then m\<lparr>mf_smp_duration := (mf_smp_duration m)(smp := d)\<rparr> else m)
      | None \<Rightarrow> Inl Null_Dereference)"
| "mf_call_exec (WriteSample pWriter idx) hr (l, s, m) =
     (case (pWriter, l_sample l) of
        (Some w, Some smp) \<Rightarrow>
          if \<not> mf_writing m w \<or> idx \<noteq> 0 then Inr (E_FAIL, l, s, m)
          else if \<not> SUCCEEDED hr then Inr (hr, l, s, m)
          else Inr (hr, l, s, m\<lparr>mf_written := (mf_written m)(w := mf_written m w @
                 [\<lparr>smp_time = mf_smp_time m smp, smp_duration = mf_smp_duration m smp,
                   smp_data = concat (map (\<lambda>b. take (mf_buf_len m b) (os_tex s b)) (mf_smp_buffers m smp))\<rparr>])\<rparr>)
      | _ \<Rightarrow> Inl Null_Dereference)"

text \<open>\<open>hr = call1; if (SUCCEEDED(hr)) hr = call2; ...\<close>: the \<open>k\<close>-th call is answered by
  \<open>env k\<close>; after the first failure no further call is made.\<close>

fun mf_chain ::
    "mf_env \<Rightarrow> nat \<Rightarrow> mf_call list \<Rightarrow> hresult \<Rightarrow> mf_locals \<times> os \<times> mf \<Rightarrow> enc_error + hresult \<times> mf_locals \<times> os \<times> mf" where
  "mf_chain env k [] hr st = Inr (hr, st)"
| "mf_chain env k (c # cs) hr st =
     (if \<not> SUCCEEDED hr then Inr (hr, st)
      else (case mf_call_exec c (env k) st of
              Inl err \<Rightarrow> Inl err
            | Inr (hr', st') \<Rightarrow> mf_chain env (Suc k) cs hr' st'))"

text \<open>\<open>SafeRelease\<close>, and the release of a sample, which frees its buffers with it.\<close>

definition safe_release :: "handle option \<Rightarrow> os \<Rightarrow> os" where
  "safe_release p s = (case p of Some h \<Rightarrow> os_release h s | None \<Rightarrow> s)"

definition sample_release :: "handle option \<Rightarrow> mf \<Rightarrow> os \<Rightarrow> os" where
  "sample_release p m s =
     (case p of
        None \<Rightarrow> s
      | Some smp \<Rightarrow>
          (let s1 = os_release smp s in
           if os_refs s1 smp = 0 then fold os_release (mf_smp_buffers m smp) s1 else s1))"

subsection \<open>The class\<close>

record encoder =
  m_width :: u32
  m_height :: u32
  m_fps :: u32
  m_frameDuration :: u32
  m_bitRate :: u32
  m_encodingFormat :: guid
  m_inputFormat :: guid
  m_pixels :: "byte list"
  m_pSinkWriter :: "handle option"
  m_stream :: u32
  m_doMFStartup :: bool
  m_doCoInitialize :: bool

text \<open>\<open>std::vector::resize\<close>: keeps the prefix and appends zero bytes.\<close>

definition vec_resize :: "byte list \<Rightarrow> nat \<Rightarrow> byte list" where
  "vec_resize xs n = take n xs @ replicate (n - length xs) 0"

text \<open>
  \<open>static_cast<uint32_t>(width * height * 2.5)\<close>: the product is an \<open>uint32_t\<close> (wrapping),
  then a \<open>double\<close>, in which \<open>2.5 * wh\<close> is exact; the conversion truncates, and is
  undefined when the value does not fit.
\<close>

definition SetFrameFormat :: "u32 \<Rightarrow> u32 \<Rightarrow> u32 \<Rightarrow> encoder \<Rightarrow> enc_error + bool \<times> encoder" where
  "SetFrameFormat width height fps e =
     (if width < 1 \<or> height < 1 \<or> fps < 1 then Inr (False, e)
      else
        (let wh = width * height;
             rate = 5 * unat wh div 2
         in if 2 ^ 32 \<le> rate then Inl Float_Conversion_Overflow
            else Inr (True, e\<lparr>m_width := width, m_height := height, m_fps := fps,
                              m_frameDuration := 10000000 div fps, m_bitRate := of_nat rate,
                              m_pixels := vec_resize (m_pixels e) (unat wh * 4)\<rparr>)))"

definition isw_calls :: "string \<Rightarrow> encoder \<Rightarrow> mf_call list" where
  "isw_calls filename e =
     [MFCreateSinkWriterFromURL filename,
      MFCreateMediaType True,
      SetAttr True MF_MT_MAJOR_TYPE (Attr_GUID MFMediaType_Video),
      SetAttr True MF_MT_SUBTYPE (Attr_GUID (m_encodingFormat e)),
      SetAttr True MF_MT_AVG_BITRATE (Attr_UINT32 (m_bitRate e)),
      SetAttr True MF_MT_INTERLACE_MODE (Attr_UINT32 MFVideoInterlace_Progressive),
      SetAttr True MF_MT_FRAME_SIZE (Attr_Pair (m_width e) (m_height e)),
      SetAttr True MF_MT_FRAME_RATE (Attr_Pair (m_fps e) 1),
      SetAttr True MF_MT_PIXEL_ASPECT_RATIO (Attr_Pair 1 1),
      AddStream,
      MFCreateMediaType False,
      SetAttr False MF_MT_MAJOR_TYPE (Attr_GUID MFMediaType_Video),
      SetAttr False MF_MT_SUBTYPE (Attr_GUID (m_inputFormat e)),
      SetAttr False MF_MT_INTERLACE_MODE (Attr_UINT32 MFVideoInterlace_Progressive),
      SetAttr False MF_MT_FRAME_SIZE (Attr_Pair (m_width e) (m_height e)),
      SetAttr False MF_MT_FRAME_RATE (Attr_Pair (m_fps e) 1),
      SetAttr False MF_MT_PIXEL_ASPECT_RATIO (Attr_Pair 1 1),
      SetInputMediaType,
      BeginWriting]"

text \<open>The three \<open>SafeRelease\<close> calls at the end of \<open>InitializeSinkWriter\<close>.\<close>

definition isw_cleanup :: "mf_locals \<Rightarrow> os \<Rightarrow> os" where
  "isw_cleanup l s = safe_release (l_in l) (safe_release (l_out l) (safe_release (l_writer l) s))"

definition InitializeSinkWriter ::
    "mf_env \<Rightarrow> string \<Rightarrow> encoder \<Rightarrow> os \<Rightarrow> mf \<Rightarrow> enc_error + hresult \<times> handle option \<times> u32 \<times> os \<times> mf" where
  "InitializeSinkWriter env filename e s m =
     (case mf_chain env 0 (isw_calls filename e) S_OK (mf_locals0, s, m) of
        Inl err \<Rightarrow> Inl err
      | Inr (hr, l, s1, m1) \<Rightarrow>
          if \<not> SUCCEEDED hr then Inr (hr, None, 0, isw_cleanup l s1, m1)
          else (case l_writer l of
                  None \<Rightarrow> Inl Null_Dereference
                | Some w \<Rightarrow> Inr (hr, Some w, l_stream l, isw_cleanup l (os_addref w s1), m1)))"

text \<open>
  \<open>WriteFrame\<close>: \<open>cbWidth\<close> is a \<open>LONG\<close> holding \<open>4 * m_width\<close>, \<open>cbBuffer\<close> a \<open>DWORD\<close>;
  both are the 32-bit words below (\<open>sint\<close> reads the \<open>LONG\<close>).  The \<open>Unlock\<close> between
  the two chains changes nothing the model keeps.  The timestamp, an \<open>uint64_t\<close> bound to a
  \<open>const LONGLONG &\<close>, is read as a signed 64-bit number.
\<close>

definition WriteFrame ::
    "mf_env \<Rightarrow> handle option \<Rightarrow> u32 \<Rightarrow> 64 word \<Rightarrow> encoder \<Rightarrow> os \<Rightarrow> mf \<Rightarrow> enc_error + hresult \<times> os \<times> mf" where
  "WriteFrame env pWriter streamIndex timestamp e s m =
     (let cbWidth = 4 * m_width e;
          cbBuffer = cbWidth * m_height e
      in case mf_chain env 0
                [MFCreateMemoryBuffer cbBuffer, Lock, MFCopyImage (m_pixels e) cbWidth (m_height e),
                 SetCurrentLength cbBuffer, MFCreateSample, AddBuffer, SetSampleTime (sint timestamp),
                 SetSampleDuration (int (unat (m_frameDuration e))), WriteSample pWriter streamIndex]
                S_OK (mf_locals0, s, m) of
           Inl err \<Rightarrow> Inl err
         | Inr (hr, l, s1, m1) \<Rightarrow> Inr (hr, safe_release (l_buffer l) (sample_release (l_sample l) m1 s1), m1))"

text \<open>The constructor and the destructor.  The constructor calls \<open>CoInitializeEx\<close> and
  \<open>MFStartup\<close> whatever its flags; the destructor undoes them only when the flags are set.\<close>

definition encoder_init :: "bool \<Rightarrow> bool \<Rightarrow> encoder" where
  "encoder_init doMFStartup doCoInitialize =
     \<lparr>m_width = 0, m_height = 0, m_fps = 0, m_frameDuration = 0, m_bitRate = 0,
      m_encodingFormat = MFVideoFormat_H264, m_inputFormat = MFVideoFormat_RGB32, m_pixels = [],
      m_pSinkWriter = None, m_stream = 0, m_doMFStartup = doMFStartup, m_doCoInitialize = doCoInitialize\<rparr>"

definition VideoFileEncoder :: "bool \<Rightarrow> bool \<Rightarrow> mf \<Rightarrow> encoder \<times> mf" where
  "VideoFileEncoder doMFStartup doCoInitialize m =
     (encoder_init doMFStartup doCoInitialize,
      m\<lparr>mf_coinits := Suc (mf_coinits m), mf_startups := Suc (mf_startups m)\<rparr>)"

text \<open>\<open>Stop\<close>: \<open>fin\<close> is what \<open>Finalize\<close> returns on a writer that is writing; on one
  that is not, Media Foundation refuses the request.\<close>

definition Stop :: "hresult \<Rightarrow> encoder \<Rightarrow> os \<Rightarrow> mf \<Rightarrow> bool \<times> encoder \<times> os \<times> mf" where
  "Stop fin e s m =
     (case m_pSinkWriter e of
        None \<Rightarrow> (False, e, s, m)
      | Some w \<Rightarrow>
          (let hr = (if mf_writing m w then fin else E_FAIL);
               m1 = (if SUCCEEDED hr then m\<lparr>mf_finalized := (mf_finalized m)(w := True),
                                           mf_writing := (mf_writing m)(w := False)\<rparr> else m)
           in (SUCCEEDED hr, e\<lparr>m_pSinkWriter := None\<rparr>, os_release w s, m1)))"

definition VideoFileEncoder_destroy :: "hresult \<Rightarrow> encoder \<Rightarrow> os \<Rightarrow> mf \<Rightarrow> os \<times> mf" where
  "VideoFileEncoder_destroy fin e s m =
     (case Stop fin e s m of (_, e1, s1, m1) \<Rightarrow>
        (let m2 = (if m_doMFStartup e1 then m1\<lparr>mf_startups := mf_startups m1 - 1\<rparr> else m1);
             m3 = (if m_doCoInitialize e1 then m2\<lparr>mf_coinits := mf_coinits m2 - 1\<rparr> else m2)
         in (s1, m3)))"

definition SetEncodingFormat :: "guid \<Rightarrow> encoder \<Rightarrow> bool \<times> encoder" where
  "SetEncodingFormat fmt e = (True, e\<lparr>m_encodingFormat := fmt\<rparr>)"

text \<open>\<open>Start\<close>: \<open>fin\<close> answers the \<open>Finalize\<close> of the \<open>Stop\<close> it may call first,
  \<open>env\<close> the calls of \<open>InitializeSinkWriter\<close>.\<close>

definition Start ::
    "hresult \<Rightarrow> mf_env \<Rightarrow> string \<Rightarrow> u32 \<Rightarrow> u32 \<Rightarrow> u32 \<Rightarrow> encoder \<Rightarrow> os \<Rightarrow> mf \<Rightarrow>
       enc_error + bool \<times> encoder \<times> os \<times> mf" where
  "Start fin env filename width height fps e s m =
     (let (e1, s1, m1) = (if m_pSinkWriter e \<noteq> None then snd (Stop fin e s m) else (e, s, m))
      in case SetFrameFormat width height fps e1 of
           Inl err \<Rightarrow> Inl err
         | Inr (ok, e2) \<Rightarrow>
             if \<not> ok then Inr (False, e2, s1, m1)
             else
               (let e3 = e2\<lparr>m_pSinkWriter := None, m_stream := 0\<rparr> in
                case InitializeSinkWriter env filename e3 s1 m1 of
                  Inl err \<Rightarrow> Inl err
                | Inr (hr, w, st, s2, m2) \<Rightarrow> Inr (SUCCEEDED hr, e3\<lparr>m_pSinkWriter := w, m_stream := st\<rparr>, s2, m2)))"

text \<open>
  \<open>AddFrame\<close>: \<open>pixels\<close> is the caller's buffer (\<open>None\<close> for \<open>nullptr\<close>).  The
  \<open>memcpy\<close> copies \<open>m_width * m_height * sizeof(uint32_t)\<close> bytes (the product of the
  two \<open>uint32_t\<close> wraps before the \<open>size_t\<close> multiplication); the flip is the loop of the
  Scanlines theory, with \<open>unsigned stride = m_width * sizeof(uint32_t)\<close> and the start
  offset \<open>(m_height - 1) * stride\<close> computed in 32 bits.
\<close>

text \<open>The rows the flip loop copies lie inside the buffer: \<open>scanline1\<close> walks the first
  \<open>h div 2\<close> rows from offset 0, \<open>scanline2\<close> walks back from \<open>p2\<close>; a copy outside is
  undefined behaviour.\<close>

definition flip_in_bounds :: "nat \<Rightarrow> nat \<Rightarrow> nat \<Rightarrow> nat \<Rightarrow> bool" where
  "flip_in_bounds stride h p2 len \<longleftrightarrow>
     (0 < h div 2 \<longrightarrow> h div 2 * stride \<le> len \<and> (h div 2 - 1) * stride \<le> p2 \<and> p2 + stride \<le> len)"

definition AddFrame ::
    "mf_env \<Rightarrow> byte list option \<Rightarrow> bool \<Rightarrow> 64 word \<Rightarrow> encoder \<Rightarrow> os \<Rightarrow> mf \<Rightarrow>
       enc_error + bool \<times> encoder \<times> os \<times> mf" where
  "AddFrame env pixels flipY timestamp e s m =
     (case pixels of
        None \<Rightarrow> Inr (False, e, s, m)
      | Some src \<Rightarrow>
          if m_pixels e = [] then Inr (False, e, s, m)
          else
            (let n = unat (m_width e * m_height e) * 4 in
             if length src < n then Inl Out_Of_Bounds_Read
             else if length (m_pixels e) < n then Inl Out_Of_Bounds_Write
             else
               (let px1 = buf_write (m_pixels e) 0 (take n src);
                    stride = m_width e * 4;
                    p2 = unat ((m_height e - 1) * stride)
                in if flipY \<and> \<not> flip_in_bounds (unat stride) (unat (m_height e)) p2 (length px1)
                   then Inl Out_Of_Bounds_Write
                   else
                     (let px2 = (if flipY then flip_loop (unat stride) (unat (m_height e)) 0 0 p2 px1 else px1);
                          e1 = e\<lparr>m_pixels := px2\<rparr>
                      in case WriteFrame env (m_pSinkWriter e1) (m_stream e1) timestamp e1 s m of
                           Inl err \<Rightarrow> Inl err
                         | Inr (hr, s', m') \<Rightarrow> Inr (SUCCEEDED hr, e1, s', m')))))"

text \<open>The frame \<open>AddFrame\<close> delivers: the first \<open>4 * width * height\<close> bytes of the caller's
  buffer, with the rows reversed when \<open>flipY\<close> is set.\<close>

definition added_frame :: "encoder \<Rightarrow> byte list \<Rightarrow> bool \<Rightarrow> byte list" where
  "added_frame e src flipY =
     (let n = 4 * unat (m_width e) * unat (m_height e)
      in if flipY then concat (rev (rows_of (4 * unat (m_width e)) (unat (m_height e)) (take n src)))
         else take n src)"

text \<open>The output and input media types \<open>InitializeSinkWriter\<close> sets on the writer's stream,
  from the encoder's configuration.\<close>

definition enc_out_type :: "encoder \<Rightarrow> media_type" where
  "enc_out_type e =
     [MF_MT_MAJOR_TYPE \<mapsto> Attr_GUID MFMediaType_Video, MF_MT_SUBTYPE \<mapsto> Attr_GUID (m_encodingFormat e),
      MF_MT_AVG_BITRATE \<mapsto> Attr_UINT32 (m_bitRate e),
      MF_MT_INTERLACE_MODE \<mapsto> Attr_UINT32 MFVideoInterlace_Progressive,
      MF_MT_FRAME_SIZE \<mapsto> Attr_Pair (m_width e) (m_height e), MF_MT_FRAME_RATE \<mapsto> Attr_Pair (m_fps e) 1,
      MF_MT_PIXEL_ASPECT_RATIO \<mapsto> Attr_Pair 1 1]"

definition enc_in_type :: "encoder \<Rightarrow> media_type" where
  "enc_in_type e =
     [MF_MT_MAJOR_TYPE \<mapsto> Attr_GUID MFMediaType_Video, MF_MT_SUBTYPE \<mapsto> Attr_GUID (m_inputFormat e),
      MF_MT_INTERLACE_MODE \<mapsto> Attr_UINT32 MFVideoInterlace_Progressive,
      MF_MT_FRAME_SIZE \<mapsto> Attr_Pair (m_width e) (m_height e), MF_MT_FRAME_RATE \<mapsto> Attr_Pair (m_fps e) 1,
      MF_MT_PIXEL_ASPECT_RATIO \<mapsto> Attr_Pair 1 1]"

subsection \<open>Examples\<close>

text \<open>Media Foundation before any call, an empty object store, and a 2x2 encoder at 30 frames
  per second whose sink writer (handle 1, writing) was created by \<open>Start\<close>.\<close>

definition mf_init :: mf where
  "mf_init = \<lparr>mf_startups = 0, mf_coinits = 0, mf_types = (\<lambda>_. Map.empty), mf_url = (\<lambda>_. []),
     mf_stream_out = (\<lambda>_. None), mf_stream_in = (\<lambda>_. None), mf_writing = (\<lambda>_. False),
     mf_written = (\<lambda>_. []), mf_finalized = (\<lambda>_. False), mf_buf_len = (\<lambda>_. 0),
     mf_smp_buffers = (\<lambda>_. []), mf_smp_time = (\<lambda>_. 0), mf_smp_duration = (\<lambda>_. 0)\<rparr>"

definition enc_os0 :: os where
  "enc_os0 = \<lparr>os_next = 1, os_refs = (\<lambda>_. 0), os_dc_bmp = (\<lambda>_. None), os_bmp_dc = (\<lambda>_. None),
     os_tex = (\<lambda>_. []), os_frames = [], os_held = (\<lambda>_. False), os_ms = 0\<rparr>"

definition example_enc :: encoder where
  "example_enc = (encoder_init True True)\<lparr>m_width := 2, m_height := 2, m_fps := 30,
     m_frameDuration := 333333, m_bitRate := 10, m_pixels := replicate 16 0, m_pSinkWriter := Some 1\<rparr>"

definition example_enc_os :: os where
  "example_enc_os = enc_os0\<lparr>os_next := 4, os_refs := (\<lambda>h. if h = 1 then 1 else 0)\<rparr>"

definition example_enc_mf :: mf where
  "example_enc_mf = mf_init\<lparr>mf_writing := (\<lambda>h. h = 1), mf_url := (\<lambda>_. ''out.mp4'')\<rparr>"

definition example_pixels :: "byte list" where
  "example_pixels = map of_nat [0..<16]"

subsection \<open>Lemmas\<close>

lemmas mf_simps = mf_locals0_def os_create_def os_addref_def os_release_def isw_cleanup_def safe_release_def
  SUCCEEDED_def sample_release_def

lemma isw_effect:
  assumes wf: "os_wf s" and r: "InitializeSinkWriter env filename e s m = Inr (hr, w, st, s', m')"
  shows "os_next s \<le> os_next s' \<and> os_wf s' \<and>
         (if SUCCEEDED hr then w = Some (os_next s) \<and> os_refs s' = (os_refs s)(os_next s := 1)
          else w = None \<and> os_refs s' = os_refs s)"
proof -
  have z: "os_refs s (os_next s) = 0" "os_refs s (Suc (os_next s)) = 0" "os_refs s (Suc (Suc (os_next s))) = 0"
    using wf by (simp_all add: os_wf_def)
  show ?thesis
    using r z wf
    by (auto simp: InitializeSinkWriter_def isw_calls_def mf_simps os_wf_def fun_eq_iff split: if_splits)
qed

lemma writeframe_effect:
  assumes wf: "os_wf s" and r: "WriteFrame env pW idx ts e s m = Inr (hr, s', m')"
  shows "os_refs s' = os_refs s \<and> os_wf s' \<and> os_next s \<le> os_next s' \<and>
         (\<forall>h. pW \<noteq> Some h \<longrightarrow> mf_written m' h = mf_written m h) \<and>
         mf_writing m' = mf_writing m \<and> mf_url m' = mf_url m \<and> mf_finalized m' = mf_finalized m"
proof -
  have z: "os_refs s (os_next s) = 0" "os_refs s (Suc (os_next s)) = 0"
    using wf by (simp_all add: os_wf_def)
  show ?thesis
    using r z wf
    by (auto simp: WriteFrame_def mf_simps os_wf_def fun_eq_iff Let_def split: if_splits option.splits)
qed

text \<open>The frame fits: \<open>4 * width * height\<close> below \<open>2^31\<close>, so no product wraps and the
  \<open>LONG\<close> stride is positive.\<close>

lemma frame_arith:
  assumes "4 * unat (m_width e) * unat (m_height e) < 2 ^ 31" and "m_height e \<noteq> 0"
  shows "unat (4 * m_width e) = 4 * unat (m_width e)"
    and "sint (4 * m_width e) = int (4 * unat (m_width e))"
    and "unat (4 * m_width e * m_height e) = 4 * unat (m_width e) * unat (m_height e)"
proof -
  have h: "1 \<le> unat (m_height e)" using assms(2) by (simp add: unat_gt_0 Suc_le_eq)
  have "4 * unat (m_width e) \<le> 4 * unat (m_width e) * unat (m_height e)" using h by simp
  then have w: "4 * unat (m_width e) < 2 ^ 31" using assms(1) by linarith
  then show u: "unat (4 * m_width e) = 4 * unat (m_width e)" by (simp add: unat_mult_lem [THEN iffD1])
  show "sint (4 * m_width e) = int (4 * unat (m_width e))" using w u by (simp add: sint_small)
  have "unat (4 * m_width e) * unat (m_height e) < 2 ^ LENGTH(32)" using u assms(1) by simp
  then show "unat (4 * m_width e * m_height e) = 4 * unat (m_width e) * unat (m_height e)"
    using u by (simp add: unat_mult_lem [THEN iffD1])
qed

lemma writeframe_success:
  assumes env: "\<forall>k. env k = S_OK" and wr: "mf_writing m w"
    and fit: "4 * unat (m_width e) * unat (m_height e) < 2 ^ 31" "m_height e \<noteq> 0"
    and len: "length (m_pixels e) = 4 * unat (m_width e) * unat (m_height e)"
  shows "\<exists>s' m'. WriteFrame env (Some w) 0 ts e s m = Inr (S_OK, s', m') \<and>
           mf_written m' w = mf_written m w @
             [\<lparr>smp_time = sint ts, smp_duration = int (unat (m_frameDuration e)), smp_data = m_pixels e\<rparr>]"
  using env wr len frame_arith [OF fit]
  by (simp add: WriteFrame_def mf_simps Let_def buf_write_def)

lemma frame_arith2:
  assumes "4 * unat (m_width e) * unat (m_height e) < 2 ^ 31" and "m_height e \<noteq> 0"
  shows "unat (m_width e * m_height e) * 4 = 4 * unat (m_width e) * unat (m_height e)"
    and "unat (m_width e * 4) = 4 * unat (m_width e)"
    and "unat ((m_height e - 1) * (m_width e * 4)) = (unat (m_height e) - 1) * (4 * unat (m_width e))"
proof -
  have h: "1 \<le> unat (m_height e)" using assms(2) by (simp add: unat_gt_0 Suc_le_eq)
  have "unat (m_width e) * unat (m_height e) < 2 ^ LENGTH(32)" using assms(1) by (simp add: mult.commute)
  then show "unat (m_width e * m_height e) * 4 = 4 * unat (m_width e) * unat (m_height e)"
    by (simp add: unat_mult_lem [THEN iffD1])
  show u: "unat (m_width e * 4) = 4 * unat (m_width e)"
    using frame_arith(1) [OF assms] by (simp add: mult.commute)
  have hm: "unat (m_height e - 1) = unat (m_height e) - 1"
    using h by (simp add: unat_sub word_le_nat_alt)
  have le: "(unat (m_height e) - 1) * (4 * unat (m_width e)) \<le> 4 * unat (m_width e) * unat (m_height e)"
    by (simp add: algebra_simps)
  have "4 * unat (m_width e) * unat (m_height e) < 2 ^ 32" using assms(1) by simp
  then have b: "(unat (m_height e) - 1) * (4 * unat (m_width e)) < 2 ^ 32" by (rule le_less_trans [OF le])
  have "unat (m_height e - 1) * unat (m_width e * 4) < 2 ^ LENGTH(32)" by (simp only: hm u) (use b in simp)
  then show "unat ((m_height e - 1) * (m_width e * 4)) = (unat (m_height e) - 1) * (4 * unat (m_width e))"
    using hm u by (simp add: unat_mult_lem [THEN iffD1])
qed

lemma flip_in_bounds_frame:
  assumes "1 \<le> h"
  shows "flip_in_bounds s h ((h - 1) * s) (h * s)"
proof -
  have "h div 2 * s \<le> h * s" by simp
  moreover have "(h div 2 - 1) * s \<le> (h - 1) * s" by (intro mult_le_mono1) linarith
  moreover have "(h - 1) * s + s = h * s" using assms by (metis Suc_diff_1 add.commute mult_Suc linorder_not_le not_one_le_zero le_zero_eq)
  ultimately show ?thesis by (simp add: flip_in_bounds_def)
qed

lemma length_added_frame:
  "4 * unat (m_width e) * unat (m_height e) \<le> length src \<Longrightarrow>
     length (added_frame e src flipY) = 4 * unat (m_width e) * unat (m_height e)"
  by (simp add: added_frame_def Let_def length_flip_scanlines flip_scanlines_buffer [symmetric] mult.commute)

lemma addframe_unfold:
  assumes fit: "4 * unat (m_width e) * unat (m_height e) < 2 ^ 31" "m_height e \<noteq> 0"
    and len: "length (m_pixels e) = 4 * unat (m_width e) * unat (m_height e)" and ne: "m_pixels e \<noteq> []"
    and src: "4 * unat (m_width e) * unat (m_height e) \<le> length src"
  shows "AddFrame env (Some src) flipY ts e s m =
           (case WriteFrame env (m_pSinkWriter e) (m_stream e) ts (e\<lparr>m_pixels := added_frame e src flipY\<rparr>) s m of
              Inl err \<Rightarrow> Inl err
            | Inr (hr, s', m') \<Rightarrow> Inr (SUCCEEDED hr, e\<lparr>m_pixels := added_frame e src flipY\<rparr>, s', m'))"
proof -
  let ?W = "4 * unat (m_width e)" and ?H = "unat (m_height e)"
  let ?n = "?W * ?H" and ?fr = "added_frame e src flipY"
  have h1: "1 \<le> ?H" using fit(2) by (simp add: unat_gt_0 Suc_le_eq)
  have px1: "buf_write (m_pixels e) 0 (take ?n src) = take ?n src"
    using len src by (simp add: buf_write_def)
  have lt: "length (take ?n src) = ?H * ?W" using src by (simp add: mult.commute)
  have fl: "flip_loop ?W ?H 0 0 ((?H - 1) * ?W) (take ?n src) = concat (rev (rows_of ?W ?H (take ?n src)))"
    using flip_scanlines_buffer [OF lt] by (simp add: flip_scanlines_def)
  have bd: "flip_in_bounds ?W ?H ((?H - 1) * ?W) (length (take ?n src))"
    unfolding lt by (rule flip_in_bounds_frame [OF h1])
  note a = frame_arith2 [OF fit]
  show ?thesis
  proof (cases flipY)
    case True
    then have f: "flip_loop ?W ?H 0 0 ((?H - 1) * ?W) (take ?n src) = ?fr"
      using fl by (simp add: added_frame_def Let_def)
    show ?thesis unfolding AddFrame_def Let_def a
      using ne len src px1 bd f True by (simp cong: sum.case_cong split: sum.split)
  next
    case False
    then have f: "take ?n src = ?fr" by (simp add: added_frame_def Let_def)
    show ?thesis unfolding AddFrame_def Let_def a
      using ne len src px1 f False by (simp cong: sum.case_cong split: sum.split)
  qed
qed

lemma addframe_success:
  assumes env: "\<forall>k. env k = S_OK" and w: "m_pSinkWriter e = Some w" and st: "m_stream e = 0"
    and wr: "mf_writing m w"
    and fit: "4 * unat (m_width e) * unat (m_height e) < 2 ^ 31" "m_height e \<noteq> 0"
    and len: "length (m_pixels e) = 4 * unat (m_width e) * unat (m_height e)" and ne: "m_pixels e \<noteq> []"
    and src: "4 * unat (m_width e) * unat (m_height e) \<le> length src"
  shows "\<exists>s' m'. AddFrame env (Some src) flipY ts e s m =
           Inr (True, e\<lparr>m_pixels := added_frame e src flipY\<rparr>, s', m') \<and>
           mf_written m' w = mf_written m w @
             [\<lparr>smp_time = sint ts, smp_duration = int (unat (m_frameDuration e)), smp_data = added_frame e src flipY\<rparr>]"
proof -
  let ?e1 = "e\<lparr>m_pixels := added_frame e src flipY\<rparr>"
  obtain s' m' where wf: "WriteFrame env (Some w) 0 ts ?e1 s m = Inr (S_OK, s', m')"
      "mf_written m' w = mf_written m w @
         [\<lparr>smp_time = sint ts, smp_duration = int (unat (m_frameDuration e)), smp_data = added_frame e src flipY\<rparr>]"
    using writeframe_success [OF env wr, of ?e1 ts s] fit length_added_frame [OF src] by auto
  show ?thesis
    using addframe_unfold [OF fit len ne src, of env flipY ts s m] wf w st by (simp add: SUCCEEDED_def)
qed

lemma writeframe_null:
  assumes env: "\<forall>k. env k = S_OK"
    and fit: "4 * unat (m_width e) * unat (m_height e) < 2 ^ 31" "m_height e \<noteq> 0"
    and len: "length (m_pixels e) = 4 * unat (m_width e) * unat (m_height e)"
  shows "WriteFrame env None idx ts e s m = Inl Null_Dereference"
  using env len frame_arith [OF fit]
  by (simp add: WriteFrame_def mf_simps Let_def buf_write_def)

lemma isw_frame:
  assumes "InitializeSinkWriter env filename e s m = Inr (hr, w, st, s', m')"
  shows "(\<forall>h. h < os_next s \<longrightarrow> mf_url m' h = mf_url m h \<and> mf_written m' h = mf_written m h \<and>
                                mf_finalized m' h = mf_finalized m h \<and> mf_writing m' h = mf_writing m h) \<and>
         (\<forall>h. mf_finalized m' h \<longrightarrow> mf_finalized m h)"
  using assms
  by (auto simp: InitializeSinkWriter_def isw_calls_def mf_simps split: if_splits)

lemma isw_success:
  assumes env: "\<forall>k. env k = S_OK"
  shows "\<exists>s' m'. InitializeSinkWriter env filename e s m = Inr (S_OK, Some (os_next s), 0, s', m') \<and>
           mf_writing m' (os_next s) \<and> mf_written m' (os_next s) = [] \<and> mf_url m' (os_next s) = filename \<and>
           mf_stream_out m' (os_next s) = Some (enc_out_type e) \<and> mf_stream_in m' (os_next s) = Some (enc_in_type e)"
  using env by (simp add: InitializeSinkWriter_def isw_calls_def mf_simps enc_out_type_def enc_in_type_def)

lemma length_flip_loop:
  assumes "0 < h div 2 - y \<longrightarrow>
             p1 + (h div 2 - y) * s \<le> length b \<and> (h div 2 - y - 1) * s \<le> p2 \<and> p2 + s \<le> length b"
  shows "length (flip_loop s h y p1 p2 b) = length b"
  using assms
proof (induction s h y p1 p2 b rule: flip_loop.induct)
  case (1 s h y p1 p2 b)
  show ?case
  proof (cases "y < h div 2")
    case False
    then show ?thesis by (simp add: flip_loop.simps [of s h y])
  next
    case True
    define k where "k = h div 2 - y"
    have k: "0 < k" using True unfolding k_def by simp
    have b: "p1 + k * s \<le> length b" "(k - 1) * s \<le> p2" "p2 + s \<le> length b"
      using "1.prems" k unfolding k_def by blast+
    have "1 * s \<le> k * s" using k by (intro mult_le_mono1) simp
    then have "s \<le> k * s" by simp
    then have p1: "p1 + s \<le> length b" by (rule le_trans [OF add_left_mono b(1)])
    let ?b1 = "buf_write b p1 (buf_read b p2 s)"
    have l1: "length ?b1 = length b" using p1 b(3) by simp
    let ?b2 = "buf_write ?b1 p2 (buf_read b p1 s)"
    have l2: "length ?b2 = length b" using l1 p1 b(3) by simp
    have pre: "0 < h div 2 - Suc y \<longrightarrow>
        p1 + s + (h div 2 - Suc y) * s \<le> length ?b2 \<and> (h div 2 - Suc y - 1) * s \<le> p2 - s \<and>
        p2 - s + s \<le> length ?b2"
    proof
      assume k2: "0 < h div 2 - Suc y"
      define j where "j = k - 2"
      have j: "k = Suc (Suc j)" "h div 2 - Suc y = Suc j" using k2 unfolding j_def k_def by linarith+
      have c1: "p1 + s + (h div 2 - Suc y) * s = p1 + k * s" using j by simp
      have "Suc j * s \<le> p2" using b(2) j(1) by simp
      then have c2: "j * s + s \<le> p2" by simp
      have c3: "(h div 2 - Suc y - 1) * s = j * s" using j(2) by simp
      show "p1 + s + (h div 2 - Suc y) * s \<le> length ?b2 \<and> (h div 2 - Suc y - 1) * s \<le> p2 - s \<and>
          p2 - s + s \<le> length ?b2"
      proof (intro conjI)
        show "p1 + s + (h div 2 - Suc y) * s \<le> length ?b2" using c1 b(1) l2 by simp
        have "j * s \<le> p2 - s" using c2 by simp
        then show "(h div 2 - Suc y - 1) * s \<le> p2 - s" by (simp only: c3)
        show "p2 - s + s \<le> length ?b2" using c2 b(3) l2 by simp
      qed
    qed
    have "length (flip_loop s h (Suc y) (p1 + s) (p2 - s) ?b2) = length ?b2"
      using "1.IH" [OF True refl refl refl] pre by simp
    then show ?thesis using True l2 by (simp add: flip_loop.simps [of s h y] Let_def)
  qed
qed

lemma flip_in_bounds_length:
  "flip_in_bounds s h p2 (length b) \<Longrightarrow> length (flip_loop s h 0 0 p2 b) = length b"
  by (rule length_flip_loop) (auto simp: flip_in_bounds_def)

lemma addframe_effect:
  assumes "AddFrame env pixels flipY ts e s m = Inr (ok, e', s', m')"
  shows "(e' = e \<and> s' = s \<and> m' = m \<and> \<not> ok) \<or>
         (\<exists>hr. WriteFrame env (m_pSinkWriter e) (m_stream e) ts e' s m = Inr (hr, s', m') \<and> ok = SUCCEEDED hr \<and>
               e' = e\<lparr>m_pixels := m_pixels e'\<rparr> \<and> length (m_pixels e') = length (m_pixels e))"
  using assms
  by (auto simp: AddFrame_def Let_def min_def flip_in_bounds_length split: option.splits if_splits sum.splits)

lemma stop_encoder:
  "Stop fin e s m = (ok, e', s', m') \<Longrightarrow> e' = e\<lparr>m_pSinkWriter := None\<rparr>"
  by (auto simp: Stop_def Let_def split: option.splits)

lemma isw_no_error:
  "InitializeSinkWriter env filename e s m \<noteq> Inl err"
  by (auto simp: InitializeSinkWriter_def isw_calls_def mf_simps split: if_splits)

subsection \<open>Properties\<close>

text \<open>C33: With every Media Foundation call succeeding, \<open>AddFrame\<close> on a started encoder
  whose frame fits writes exactly one sample to the sink writer: its time is the timestamp read
  as a signed 64-bit number, its duration the frame duration, and its data the caller's
  \<open>4 * width * height\<close> bytes, rows reversed when \<open>flipY\<close> is set; no reference count changes.\<close>

lemma AddFrame_writes_frame:
  assumes env: "\<forall>k. env k = S_OK" and w: "m_pSinkWriter e = Some w" and st: "m_stream e = 0"
    and wr: "mf_writing m w" and wf: "os_wf s"
    and fit: "4 * unat (m_width e) * unat (m_height e) < 2 ^ 31" "m_height e \<noteq> 0"
    and len: "length (m_pixels e) = 4 * unat (m_width e) * unat (m_height e)" and ne: "m_pixels e \<noteq> []"
    and src: "4 * unat (m_width e) * unat (m_height e) \<le> length src"
  shows "\<exists>s' m'. AddFrame env (Some src) flipY ts e s m =
           Inr (True, e\<lparr>m_pixels := added_frame e src flipY\<rparr>, s', m') \<and>
           mf_written m' w = mf_written m w @
             [\<lparr>smp_time = sint ts, smp_duration = int (unat (m_frameDuration e)), smp_data = added_frame e src flipY\<rparr>] \<and>
           os_refs s' = os_refs s"
proof -
  obtain s' m' where a: "AddFrame env (Some src) flipY ts e s m = Inr (True, e\<lparr>m_pixels := added_frame e src flipY\<rparr>, s', m')"
      and wm: "mf_written m' w = mf_written m w @
             [\<lparr>smp_time = sint ts, smp_duration = int (unat (m_frameDuration e)), smp_data = added_frame e src flipY\<rparr>]"
    using addframe_success [OF env w st wr fit len ne src] by blast
  obtain hr where "WriteFrame env (m_pSinkWriter e) (m_stream e) ts (e\<lparr>m_pixels := added_frame e src flipY\<rparr>) s m = Inr (hr, s', m')"
    using addframe_effect [OF a] by auto
  then have "os_refs s' = os_refs s" using writeframe_effect [OF wf] by blast
  then show ?thesis using a wm by blast
qed

lemma AddFrame_writes_frame_witness:
  "\<exists>s' m'. AddFrame (\<lambda>_. S_OK) (Some example_pixels) True 0 example_enc example_enc_os example_enc_mf =
      Inr (True, example_enc\<lparr>m_pixels := added_frame example_enc example_pixels True\<rparr>, s', m') \<and>
      mf_written m' 1 = [\<lparr>smp_time = 0, smp_duration = 333333,
                          smp_data = map of_nat ([8..<16] @ [0..<8])\<rparr>] \<and>
      os_refs s' = os_refs example_enc_os"
proof -
  have fr: "added_frame example_enc example_pixels True = map of_nat ([8..<16] @ [0..<8])"
    by (simp add: added_frame_def example_enc_def encoder_init_def example_pixels_def rows_of_def upt_rec)
  show ?thesis unfolding fr
    using AddFrame_writes_frame [of "\<lambda>_. S_OK" example_enc 1 example_enc_mf example_enc_os example_pixels True 0,
                                 unfolded fr]
    by (simp add: example_enc_def encoder_init_def example_enc_mf_def mf_init_def example_enc_os_def
                  enc_os0_def os_wf_def example_pixels_def)
qed

text \<open>C34: After \<open>Stop\<close> (which sets \<open>m_pSinkWriter\<close> to null), a further \<open>AddFrame\<close>
  with a valid pixel buffer passes the \<open>m_pixels.empty()\<close> guard and calls \<open>WriteSample\<close>
  through the null writer: undefined behaviour.\<close>

lemma AddFrame_after_Stop_null:
  assumes stop: "Stop fin e s m = (ok, e', s', m')" and env: "\<forall>k. env k = S_OK"
    and fit: "4 * unat (m_width e) * unat (m_height e) < 2 ^ 31" "m_height e \<noteq> 0"
    and len: "length (m_pixels e) = 4 * unat (m_width e) * unat (m_height e)" and ne: "m_pixels e \<noteq> []"
    and src: "4 * unat (m_width e) * unat (m_height e) \<le> length src"
  shows "AddFrame env (Some src) flipY ts e' s' m' = Inl Null_Dereference"
proof -
  have e': "e' = e\<lparr>m_pSinkWriter := None\<rparr>" by (rule stop_encoder [OF stop])
  have f: "4 * unat (m_width e') * unat (m_height e') < 2 ^ 31" "m_height e' \<noteq> 0"
    and l: "length (m_pixels e') = 4 * unat (m_width e') * unat (m_height e')" "m_pixels e' \<noteq> []"
    and sr: "4 * unat (m_width e') * unat (m_height e') \<le> length src"
    using fit len ne src by (simp_all add: e')
  have "WriteFrame env None (m_stream e') ts (e'\<lparr>m_pixels := added_frame e' src flipY\<rparr>) s' m' = Inl Null_Dereference"
    using writeframe_null [OF env] f length_added_frame [OF sr] by simp
  then show ?thesis using addframe_unfold [OF f l sr, of env flipY ts s' m'] by (simp add: e')
qed

lemma AddFrame_after_Stop_null_witness:
  "AddFrame (\<lambda>_. S_OK) (Some example_pixels) True 0
     (example_enc\<lparr>m_pSinkWriter := None\<rparr>) (os_release 1 example_enc_os)
     (example_enc_mf\<lparr>mf_finalized := (mf_finalized example_enc_mf)(1 := True),
                     mf_writing := (mf_writing example_enc_mf)(1 := False)\<rparr>) = Inl Null_Dereference"
  using AddFrame_after_Stop_null [of S_OK example_enc example_enc_os example_enc_mf True
          "example_enc\<lparr>m_pSinkWriter := None\<rparr>" "os_release 1 example_enc_os"
          "example_enc_mf\<lparr>mf_finalized := (mf_finalized example_enc_mf)(1 := True),
                     mf_writing := (mf_writing example_enc_mf)(1 := False)\<rparr>" "\<lambda>_. S_OK" example_pixels True 0]
  by (simp add: Stop_def SUCCEEDED_def example_enc_def encoder_init_def example_enc_mf_def mf_init_def
                example_pixels_def)

text \<open>C36: \<open>InitializeSinkWriter\<close> never performs undefined behaviour, whichever of its
  nineteen calls fails; on failure it holds no reference and returns no writer, on success the
  new writer is the only object left, with one reference (the \<open>AddRef\<close> for the member).\<close>

lemma InitializeSinkWriter_failure_clean:
  assumes wf: "os_wf s"
  shows "\<exists>hr w st s' m'. InitializeSinkWriter env filename e s m = Inr (hr, w, st, s', m') \<and>
           (SUCCEEDED hr \<longrightarrow> w = Some (os_next s) \<and> os_refs s' = (os_refs s)(os_next s := 1)) \<and>
           (\<not> SUCCEEDED hr \<longrightarrow> w = None \<and> os_refs s' = os_refs s)"
proof (cases "InitializeSinkWriter env filename e s m")
  case (Inl err)
  then show ?thesis using isw_no_error by blast
next
  case (Inr r)
  then obtain hr w st s' m' where r: "InitializeSinkWriter env filename e s m = Inr (hr, w, st, s', m')"
    by (cases r) auto
  show ?thesis using isw_effect [OF wf r] r by (auto split: if_splits)
qed

lemma InitializeSinkWriter_failure_clean_witness:
  "\<exists>hr w st s' m'. InitializeSinkWriter (\<lambda>k. if k = 5 then E_FAIL else S_OK) ''out.mp4''
                     (encoder_init True True) enc_os0 mf_init = Inr (hr, w, st, s', m') \<and>
           (SUCCEEDED hr \<longrightarrow> w = Some (os_next enc_os0) \<and> os_refs s' = (os_refs enc_os0)(os_next enc_os0 := 1)) \<and>
           (\<not> SUCCEEDED hr \<longrightarrow> w = None \<and> os_refs s' = os_refs enc_os0)"
  by (rule InitializeSinkWriter_failure_clean) (simp add: enc_os0_def os_wf_def)

text \<open>C37: \<open>Start\<close> on an encoder without a writer, with non-zero dimensions and frame rate
  and a bit rate that fits \<open>uint32_t\<close>, succeeds when the calls do: it records the format,
  the frame duration \<open>10000000 / fps\<close>, the bit rate \<open>2.5 * width * height\<close> truncated,
  a pixel buffer of \<open>4 * width * height\<close> bytes, and a new writer that is writing to the
  file with the output and input media types of that configuration.\<close>

lemma Start_configures_writer:
  assumes env: "\<forall>k. env k = S_OK" and wf: "os_wf s" and nw: "m_pSinkWriter e = None"
    and args: "width \<noteq> 0" "height \<noteq> 0" "fps \<noteq> 0"
    and rate: "5 * unat (width * height) div 2 < 2 ^ 32"
  shows "\<exists>e' s' m'. Start fin env filename width height fps e s m = Inr (True, e', s', m') \<and>
           m_width e' = width \<and> m_height e' = height \<and> m_fps e' = fps \<and>
           m_frameDuration e' = 10000000 div fps \<and> unat (m_bitRate e') = 5 * unat (width * height) div 2 \<and>
           length (m_pixels e') = unat (width * height) * 4 \<and>
           m_pSinkWriter e' = Some (os_next s) \<and> m_stream e' = 0 \<and> os_refs s' = (os_refs s)(os_next s := 1) \<and>
           mf_writing m' (os_next s) \<and> mf_written m' (os_next s) = [] \<and> mf_url m' (os_next s) = filename \<and>
           mf_stream_out m' (os_next s) = Some (enc_out_type e') \<and> mf_stream_in m' (os_next s) = Some (enc_in_type e')"
proof -
  define r where "r = 5 * unat (width * height) div 2"
  define e3 where "e3 = e\<lparr>m_width := width, m_height := height, m_fps := fps,
                         m_frameDuration := 10000000 div fps, m_bitRate := of_nat r,
                         m_pixels := vec_resize (m_pixels e) (unat (width * height) * 4),
                         m_pSinkWriter := None, m_stream := 0\<rparr>"
  have sff: "SetFrameFormat width height fps e =
               Inr (True, e3\<lparr>m_pSinkWriter := m_pSinkWriter e, m_stream := m_stream e\<rparr>)"
    using args rate by (simp add: SetFrameFormat_def e3_def r_def Let_def word_less_1)
  obtain s' m' where isw: "InitializeSinkWriter env filename e3 s m = Inr (S_OK, Some (os_next s), 0, s', m')"
      and mf: "mf_writing m' (os_next s)" "mf_written m' (os_next s) = []" "mf_url m' (os_next s) = filename"
              "mf_stream_out m' (os_next s) = Some (enc_out_type e3)" "mf_stream_in m' (os_next s) = Some (enc_in_type e3)"
    using isw_success [OF env] by blast
  have refs: "os_refs s' = (os_refs s)(os_next s := 1)"
    using isw_effect [OF wf isw] by (simp add: SUCCEEDED_def)
  let ?e' = "e3\<lparr>m_pSinkWriter := Some (os_next s), m_stream := 0\<rparr>"
  have st: "Start fin env filename width height fps e s m = Inr (True, ?e', s', m')"
    using nw sff isw by (simp add: Start_def SUCCEEDED_def e3_def)
  have ty: "enc_out_type ?e' = enc_out_type e3" "enc_in_type ?e' = enc_in_type e3"
    by (simp_all add: enc_out_type_def enc_in_type_def)
  have br: "unat (of_nat r :: u32) = r" using rate by (simp add: r_def unat_of_nat)
  show ?thesis
    using st mf refs ty br by (simp add: e3_def r_def vec_resize_def)
qed

lemma Start_configures_writer_witness:
  "\<exists>e' s' m'. Start S_OK (\<lambda>_. S_OK) ''out.mp4'' 2 2 30 (encoder_init True True) enc_os0 mf_init =
                Inr (True, e', s', m') \<and>
           m_width e' = 2 \<and> m_height e' = 2 \<and> m_fps e' = 30 \<and>
           m_frameDuration e' = 333333 \<and> unat (m_bitRate e') = 10 \<and> length (m_pixels e') = 16 \<and>
           m_pSinkWriter e' = Some 1 \<and> m_stream e' = 0 \<and> os_refs s' = (os_refs enc_os0)(1 := 1) \<and>
           mf_writing m' 1 \<and> mf_written m' 1 = [] \<and> mf_url m' 1 = ''out.mp4'' \<and>
           mf_stream_out m' 1 = Some (enc_out_type e') \<and> mf_stream_in m' 1 = Some (enc_in_type e')"
  using Start_configures_writer [of "\<lambda>_. S_OK" enc_os0 "encoder_init True True" 2 2 30 S_OK "''out.mp4''" mf_init]
  by (simp add: enc_os0_def os_wf_def encoder_init_def)

end
