(* ===== verification/EncoderLife.thy ===== *)
theory EncoderLife
  imports Encoder
begin

text \<open>
  The life of a \<open>VideoFileEncoder\<close> object: the public member functions as operations on the
  configuration (the object, the platform store and Media Foundation), the configurations
  reachable from the constructor, the invariant they keep, and the refinement of the class by
  an abstract video recorder.
\<close>

subsection \<open>Operations and reachable configurations\<close>

type_synonym enc_conf = "encoder \<times> os \<times> mf"

datatype enc_op =
    Op_SetEncodingFormat guid
  | Op_Start string u32 u32 u32
  | Op_Stop
  | Op_AddFrame "byte list option" bool "64 word"

text \<open>One call of a public member function; \<open>None\<close> when it has undefined behaviour.
  \<open>fin\<close> answers \<open>Finalize\<close>, \<open>env\<close> the Media Foundation calls.\<close>

fun enc_exec :: "hresult \<Rightarrow> mf_env \<Rightarrow> enc_op \<Rightarrow> enc_conf \<Rightarrow> enc_conf option" where
  "enc_exec fin env (Op_SetEncodingFormat fmt) (e, s, m) = Some (snd (SetEncodingFormat fmt e), s, m)"
| "enc_exec fin env (Op_Start filename width height fps) (e, s, m) =
     (case Start fin env filename width height fps e s m of Inl _ \<Rightarrow> None | Inr (_, c) \<Rightarrow> Some c)"
| "enc_exec fin env Op_Stop (e, s, m) = Some (snd (Stop fin e s m))"
| "enc_exec fin env (Op_AddFrame pixels flipY ts) (e, s, m) =
     (case AddFrame env pixels flipY ts e s m of Inl _ \<Rightarrow> None | Inr (_, c) \<Rightarrow> Some c)"

text \<open>The configurations an encoder goes through: constructed on a well-formed store in which
  no handle still to be allocated is a finalized writer, then any sequence of calls, each
  answered by any results of the system.\<close>

inductive enc_reach :: "os \<Rightarrow> mf \<Rightarrow> enc_conf \<Rightarrow> bool" for s0 m0 where
  init: "os_wf s0 \<Longrightarrow> \<forall>h. os_next s0 \<le> h \<longrightarrow> \<not> mf_finalized m0 h \<Longrightarrow>
         VideoFileEncoder doMFStartup doCoInitialize m0 = (e, m) \<Longrightarrow> enc_reach s0 m0 (e, s0, m)"
| step: "enc_reach s0 m0 c \<Longrightarrow> enc_exec fin env op c = Some c' \<Longrightarrow> enc_reach s0 m0 c'"

text \<open>The reference counts of the store when the encoder holds its writer \<open>w\<close>: those of the
  initial store, and one reference on \<open>w\<close>.\<close>

definition writer_refs :: "os \<Rightarrow> handle option \<Rightarrow> handle \<Rightarrow> nat" where
  "writer_refs s0 w = (case w of None \<Rightarrow> os_refs s0 | Some h \<Rightarrow> (os_refs s0)(h := 1))"

definition writer_ok :: "handle \<Rightarrow> encoder \<Rightarrow> os \<Rightarrow> mf \<Rightarrow> bool" where
  "writer_ok n0 e s m \<longleftrightarrow>
     (case m_pSinkWriter e of
        None \<Rightarrow> True
      | Some w \<Rightarrow> n0 \<le> w \<and> w < os_next s \<and> m_stream e = 0 \<and> mf_writing m w \<and> \<not> mf_finalized m w \<and>
                  (\<forall>h. n0 \<le> h \<longrightarrow> mf_finalized m h \<longrightarrow> h < w))"

definition frame_ok :: "encoder \<Rightarrow> bool" where
  "frame_ok e \<longleftrightarrow>
     (m_pixels e \<noteq> [] \<longrightarrow> m_width e \<noteq> 0 \<and> m_height e \<noteq> 0 \<and> m_fps e \<noteq> 0 \<and>
                           length (m_pixels e) = unat (m_width e * m_height e) * 4)"

text \<open>The well-formedness of a configuration reached from \<open>s0\<close> and \<open>m0\<close>.\<close>

fun enc_inv :: "os \<Rightarrow> mf \<Rightarrow> enc_conf \<Rightarrow> bool" where
  "enc_inv s0 m0 (e, s, m) \<longleftrightarrow>
     os_wf s \<and> os_next s0 \<le> os_next s \<and> (\<forall>h. os_next s \<le> h \<longrightarrow> \<not> mf_finalized m h) \<and>
     os_refs s = writer_refs s0 (m_pSinkWriter e) \<and> writer_ok (os_next s0) e s m \<and> frame_ok e \<and>
     mf_startups m = Suc (mf_startups m0) \<and> mf_coinits m = Suc (mf_coinits m0)"

definition enc_conf0 :: enc_conf where
  "enc_conf0 = (encoder_init True True, enc_os0, mf_init\<lparr>mf_coinits := 1, mf_startups := 1\<rparr>)"

subsection \<open>The abstract recorder\<close>

text \<open>
  What the class promises its callers: a video recorder with at most one open recording (a
  file name and the frames added to it) and the recordings finalized so far, oldest first.
  Opening a recording closes the open one; a frame is appended to the open recording; closing
  finalizes it.
\<close>

record recorder =
  rec_open :: "(string \<times> mf_sample list) option"
  rec_done :: "(string \<times> mf_sample list) list"

datatype rec_op = R_Open string | R_Frame mf_sample | R_Close | R_Skip

definition rec_close :: "recorder \<Rightarrow> recorder" where
  "rec_close r = \<lparr>rec_open = None, rec_done = rec_done r @ (case rec_open r of None \<Rightarrow> [] | Some v \<Rightarrow> [v])\<rparr>"

fun rec_step :: "rec_op \<Rightarrow> recorder \<Rightarrow> recorder" where
  "rec_step (R_Open f) r = (rec_close r)\<lparr>rec_open := Some (f, [])\<rparr>"
| "rec_step (R_Frame x) r = r\<lparr>rec_open := map_option (\<lambda>(f, xs). (f, xs @ [x])) (rec_open r)\<rparr>"
| "rec_step R_Close r = rec_close r"
| "rec_step R_Skip r = r"

text \<open>The recording a sink writer holds: its file and the samples written to it.\<close>

definition recording :: "mf \<Rightarrow> handle \<Rightarrow> string \<times> mf_sample list" where
  "recording m h = (mf_url m h, mf_written m h)"

text \<open>The abstraction of a configuration: the writer the object holds is the open recording,
  the writers created since \<open>s0\<close> and finalized, in the order of their handles, are the
  closed ones.\<close>

fun enc_abs :: "os \<Rightarrow> enc_conf \<Rightarrow> recorder" where
  "enc_abs s0 (e, s, m) =
     \<lparr>rec_open = map_option (recording m) (m_pSinkWriter e),
      rec_done = map (recording m) (filter (mf_finalized m) [os_next s0..<os_next s])\<rparr>"

text \<open>The abstract operation a call performs.\<close>

fun enc_abs_op :: "encoder \<Rightarrow> enc_op \<Rightarrow> rec_op" where
  "enc_abs_op e (Op_SetEncodingFormat fmt) = R_Skip"
| "enc_abs_op e (Op_Start filename width height fps) =
     (if width = 0 \<or> height = 0 \<or> fps = 0 then R_Close else R_Open filename)"
| "enc_abs_op e Op_Stop = R_Close"
| "enc_abs_op e (Op_AddFrame None flipY ts) = R_Skip"
| "enc_abs_op e (Op_AddFrame (Some src) flipY ts) =
     (if m_pixels e = [] then R_Skip
      else R_Frame \<lparr>smp_time = sint ts, smp_duration = int (unat (m_frameDuration e)),
                    smp_data = added_frame e src flipY\<rparr>)"

text \<open>The caller's side of the contract: \<open>Start\<close> with a frame of fewer than \<open>2^31\<close>
  bytes, \<open>AddFrame\<close> with a buffer holding a whole frame and only while a writer is open
  (the class does not check it, see the property C34).\<close>

fun enc_pre :: "encoder \<Rightarrow> enc_op \<Rightarrow> bool" where
  "enc_pre e (Op_Start filename width height fps) \<longleftrightarrow> 4 * unat width * unat height < 2 ^ 31"
| "enc_pre e (Op_AddFrame (Some src) flipY ts) \<longleftrightarrow>
     (m_pixels e \<noteq> [] \<longrightarrow> m_pSinkWriter e \<noteq> None \<and> 4 * unat (m_width e) * unat (m_height e) < 2 ^ 31 \<and>
                           4 * unat (m_width e) * unat (m_height e) \<le> length src)"
| "enc_pre e op \<longleftrightarrow> True"

subsection \<open>Lemmas\<close>

lemma setframeformat_effect:
  assumes "SetFrameFormat width height fps e = Inr (ok, e')"
  shows "(\<not> ok \<and> e' = e) \<or>
         (ok \<and> width \<noteq> 0 \<and> height \<noteq> 0 \<and> fps \<noteq> 0 \<and>
          e' = e\<lparr>m_width := width, m_height := height, m_fps := fps, m_frameDuration := 10000000 div fps,
                 m_bitRate := of_nat (5 * unat (width * height) div 2),
                 m_pixels := vec_resize (m_pixels e) (unat (width * height) * 4)\<rparr>)"
  using assms by (auto simp: SetFrameFormat_def Let_def word_less_1 split: if_splits)

lemma start_unfold:
  assumes c: "(if m_pSinkWriter e \<noteq> None then snd (Stop fin e s m) else (e, s, m)) = (e1, s1, m1)"
  shows "Start fin env filename width height fps e s m =
          (case SetFrameFormat width height fps e1 of
             Inl err \<Rightarrow> Inl err
           | Inr (ok, e2) \<Rightarrow>
               if \<not> ok then Inr (False, e2, s1, m1)
               else (let e3 = e2\<lparr>m_pSinkWriter := None, m_stream := 0\<rparr> in
                     case InitializeSinkWriter env filename e3 s1 m1 of
                       Inl err \<Rightarrow> Inl err
                     | Inr (hr, w, st, s2, m2) \<Rightarrow> Inr (SUCCEEDED hr, e3\<lparr>m_pSinkWriter := w, m_stream := st\<rparr>, s2, m2)))"
  unfolding Start_def c by simp

lemma start_fresh:
  assumes n: "m_pSinkWriter e = None" and sff: "SetFrameFormat width height fps e = Inr (True, e2)"
    and isw: "InitializeSinkWriter env filename (e2\<lparr>m_pSinkWriter := None, m_stream := 0\<rparr>) s m = Inr (hr, w, st, s', m')"
  shows "Start fin env filename width height fps e s m = Inr (SUCCEEDED hr, e2\<lparr>m_pSinkWriter := w, m_stream := st\<rparr>, s', m')"
  using n sff isw by (simp add: Start_def Let_def)

lemma start_effect:
  assumes r: "Start fin env filename width height fps e s m = Inr (ok, e', s', m')"
    and c: "(if m_pSinkWriter e \<noteq> None then snd (Stop fin e s m) else (e, s, m)) = (e1, s1, m1)"
  shows "(\<not> ok \<and> e' = e1 \<and> s' = s1 \<and> m' = m1) \<or>
         (\<exists>e2 hr w st. SetFrameFormat width height fps e1 = Inr (True, e2) \<and>
            InitializeSinkWriter env filename (e2\<lparr>m_pSinkWriter := None, m_stream := 0\<rparr>) s1 m1 = Inr (hr, w, st, s', m') \<and>
            e' = e2\<lparr>m_pSinkWriter := w, m_stream := st\<rparr> \<and> ok = SUCCEEDED hr)"
proof -
  note unf = start_unfold [OF c, of env filename width height fps]
  obtain b e2 where sff: "SetFrameFormat width height fps e1 = Inr (b, e2)"
    using r unf by (cases "SetFrameFormat width height fps e1") auto
  show ?thesis
  proof (cases b)
    case False
    then show ?thesis using r unf sff setframeformat_effect [OF sff] by auto
  next
    case True
    let ?e3 = "e2\<lparr>m_pSinkWriter := None, m_stream := 0\<rparr>"
    obtain hr w st s2 m2 where isw: "InitializeSinkWriter env filename ?e3 s1 m1 = Inr (hr, w, st, s2, m2)"
      using r unf sff True by (cases "InitializeSinkWriter env filename ?e3 s1 m1") (auto simp: Let_def)
    then show ?thesis using r unf sff True by (simp add: Let_def)
  qed
qed

lemma length_vec_resize [simp]: "length (vec_resize xs n) = n"
  by (simp add: vec_resize_def)

lemma isw_writer:
  assumes "InitializeSinkWriter env filename e s m = Inr (hr, Some w, st, s', m')"
  shows "st = 0 \<and> mf_writing m' w \<and> \<not> mf_finalized m' w \<and> os_next s < os_next s'"
  using assms by (auto simp: InitializeSinkWriter_def isw_calls_def mf_simps split: if_splits)

lemma isw_counts:
  assumes "InitializeSinkWriter env filename e s m = Inr (hr, w, st, s', m')"
  shows "mf_startups m' = mf_startups m \<and> mf_coinits m' = mf_coinits m"
  using assms by (auto simp: InitializeSinkWriter_def isw_calls_def mf_simps split: if_splits)

lemma writeframe_counts:
  assumes "WriteFrame env pW idx ts e s m = Inr (hr, s', m')"
  shows "mf_startups m' = mf_startups m \<and> mf_coinits m' = mf_coinits m"
  using assms by (auto simp: WriteFrame_def mf_simps Let_def split: if_splits option.splits)

lemma enc_reach_wf0: "enc_reach s0 m0 c \<Longrightarrow> os_wf s0"
  by (induction rule: enc_reach.induct) auto

lemma inv_stop:
  assumes inv: "enc_inv s0 m0 (e, s, m)" and wf0: "os_wf s0"
  shows "enc_inv s0 m0 (snd (Stop fin e s m))"
proof (cases "m_pSinkWriter e")
  case None
  then show ?thesis using inv by (simp add: Stop_def)
next
  case (Some w)
  have w: "os_next s0 \<le> w" "w < os_next s" "os_refs s = (os_refs s0)(w := 1)"
    using inv Some by (simp_all add: writer_ok_def writer_refs_def)
  have "os_refs (os_release w s) = os_refs s0"
    using w fresh_refs_restore [OF wf0 w(1)] by (simp add: refs_os_release_fun)
  then show ?thesis
    using inv Some w by (auto simp: Stop_def Let_def writer_ok_def writer_refs_def frame_ok_def)
qed

lemma stop_writer_none: "m_pSinkWriter (fst (snd (Stop fin e s m))) = None"
  by (simp add: Stop_def Let_def split: option.splits)

lemma inv_addframe:
  assumes inv: "enc_inv s0 m0 (e, s, m)"
    and r: "AddFrame env pixels flipY ts e s m = Inr (ok, e', s', m')"
  shows "enc_inv s0 m0 (e', s', m')"
  using addframe_effect [OF r]
proof
  assume "e' = e \<and> s' = s \<and> m' = m \<and> \<not> ok"
  then show ?thesis using inv by simp
next
  assume "\<exists>hr. WriteFrame env (m_pSinkWriter e) (m_stream e) ts e' s m = Inr (hr, s', m') \<and> ok = SUCCEEDED hr \<and>
               e' = e\<lparr>m_pixels := m_pixels e'\<rparr> \<and> length (m_pixels e') = length (m_pixels e)"
  then obtain hr where wr: "WriteFrame env (m_pSinkWriter e) (m_stream e) ts e' s m = Inr (hr, s', m')"
    and e': "e' = e\<lparr>m_pixels := m_pixels e'\<rparr>" "length (m_pixels e') = length (m_pixels e)" by blast
  have f: "m_pSinkWriter e' = m_pSinkWriter e" "m_stream e' = m_stream e" "m_width e' = m_width e"
          "m_height e' = m_height e" "m_fps e' = m_fps e"
    by (subst e'(1); simp)+
  have "frame_ok e'" using inv f e'(2) by (auto simp: frame_ok_def)
  then show ?thesis
    using inv f writeframe_effect [OF _ wr] writeframe_counts [OF wr]
    by (auto simp: writer_ok_def split: option.splits)
qed

lemma start_stop_part:
  assumes inv: "enc_inv s0 m0 (e, s, m)" and wf0: "os_wf s0"
    and c: "(if m_pSinkWriter e \<noteq> None then snd (Stop fin e s m) else (e, s, m)) = (e1, s1, m1)"
  shows "enc_inv s0 m0 (e1, s1, m1) \<and> m_pSinkWriter e1 = None"
proof (cases "m_pSinkWriter e = None")
  case True
  then show ?thesis using inv c by simp
next
  case False
  then have "snd (Stop fin e s m) = (e1, s1, m1)" using c by simp
  then show ?thesis using inv_stop [OF inv wf0, of fin] stop_writer_none [of fin e s m] by simp
qed

lemma inv_start:
  assumes inv: "enc_inv s0 m0 (e, s, m)" and wf0: "os_wf s0"
    and r: "Start fin env filename width height fps e s m = Inr (ok, e', s', m')"
  shows "enc_inv s0 m0 (e', s', m')"
proof -
  obtain e1 s1 m1 where c: "(if m_pSinkWriter e \<noteq> None then snd (Stop fin e s m) else (e, s, m)) = (e1, s1, m1)"
    by (metis prod_cases3)
  have inv1: "enc_inv s0 m0 (e1, s1, m1)" and n1: "m_pSinkWriter e1 = None"
    using start_stop_part [OF inv wf0 c] by simp_all
  show ?thesis
    using start_effect [OF r c]
  proof
    assume "\<not> ok \<and> e' = e1 \<and> s' = s1 \<and> m' = m1"
    then show ?thesis using inv1 by simp
  next
    assume "\<exists>e2 hr w st. SetFrameFormat width height fps e1 = Inr (True, e2) \<and>
            InitializeSinkWriter env filename (e2\<lparr>m_pSinkWriter := None, m_stream := 0\<rparr>) s1 m1 = Inr (hr, w, st, s', m') \<and>
            e' = e2\<lparr>m_pSinkWriter := w, m_stream := st\<rparr> \<and> ok = SUCCEEDED hr"
    then obtain e2 hr w st where sff: "SetFrameFormat width height fps e1 = Inr (True, e2)"
      and isw: "InitializeSinkWriter env filename (e2\<lparr>m_pSinkWriter := None, m_stream := 0\<rparr>) s1 m1 = Inr (hr, w, st, s', m')"
      and e': "e' = e2\<lparr>m_pSinkWriter := w, m_stream := st\<rparr>" by blast
    have e2: "width \<noteq> 0" "height \<noteq> 0" "fps \<noteq> 0"
      "e2 = e1\<lparr>m_width := width, m_height := height, m_fps := fps, m_frameDuration := 10000000 div fps,
                 m_bitRate := of_nat (5 * unat (width * height) div 2),
                 m_pixels := vec_resize (m_pixels e1) (unat (width * height) * 4)\<rparr>"
      using setframeformat_effect [OF sff] by simp_all
    have fr: "frame_ok e'" using e2 by (simp add: e' frame_ok_def)
    have wf1: "os_wf s1" and refs1: "os_refs s1 = os_refs s0" and n01: "os_next s0 \<le> os_next s1"
      and fresh1: "\<forall>h. os_next s1 \<le> h \<longrightarrow> \<not> mf_finalized m1 h"
      and cnt1: "mf_startups m1 = Suc (mf_startups m0)" "mf_coinits m1 = Suc (mf_coinits m0)"
      using inv1 n1 by (simp_all add: writer_refs_def)
    note eff = isw_effect [OF wf1 isw]
    have fin': "\<forall>h. mf_finalized m' h \<longrightarrow> mf_finalized m1 h" using isw_frame [OF isw] by blast
    have cnt': "mf_startups m' = mf_startups m1" "mf_coinits m' = mf_coinits m1"
      using isw_counts [OF isw] by simp_all
    have fresh': "\<forall>h. os_next s' \<le> h \<longrightarrow> \<not> mf_finalized m' h"
      using fresh1 fin' eff by (meson le_trans)
    show ?thesis
    proof (cases "SUCCEEDED hr")
      case True
      then have w: "w = Some (os_next s1)" and refs': "os_refs s' = (os_refs s1)(os_next s1 := 1)"
        using eff by simp_all
      have iw: "st = 0 \<and> mf_writing m' (os_next s1) \<and> \<not> mf_finalized m' (os_next s1) \<and> os_next s1 < os_next s'"
        using isw_writer [OF isw [unfolded w]] .
      have "\<forall>h. os_next s0 \<le> h \<longrightarrow> mf_finalized m' h \<longrightarrow> h < os_next s1"
        using fin' fresh1 by (meson not_le)
      then show ?thesis
        using eff fr fresh' cnt' cnt1 iw refs' refs1 n01
        by (simp add: e' w e2 writer_refs_def writer_ok_def)
    next
      case False
      then show ?thesis
        using eff fr fresh' cnt' cnt1 refs1 n01 by (simp add: e' e2 writer_refs_def writer_ok_def)
    qed
  qed
qed

lemma inv_exec:
  assumes inv: "enc_inv s0 m0 c" and wf0: "os_wf s0" and r: "enc_exec fin env op c = Some c'"
  shows "enc_inv s0 m0 c'"
proof -
  obtain e s m where c: "c = (e, s, m)" by (metis prod_cases3)
  obtain e' s' m' where c': "c' = (e', s', m')" by (metis prod_cases3)
  have i: "enc_inv s0 m0 (e, s, m)" using inv c by simp
  show ?thesis
  proof (cases op)
    case (Op_SetEncodingFormat fmt)
    then have "e' = e\<lparr>m_encodingFormat := fmt\<rparr>" "s' = s" "m' = m"
      using r c c' by (simp_all add: SetEncodingFormat_def)
    then show ?thesis using i c' by (simp add: frame_ok_def writer_ok_def split: option.splits)
  next
    case (Op_Start filename width height fps)
    then obtain ok where "Start fin env filename width height fps e s m = Inr (ok, e', s', m')"
      using r c c' by (auto split: sum.splits)
    then show ?thesis using inv_start [OF i wf0] c' by simp
  next
    case Op_Stop
    then have "snd (Stop fin e s m) = (e', s', m')" using r c c' by simp
    then show ?thesis using inv_stop [OF i wf0, of fin] c' by simp
  next
    case (Op_AddFrame pixels flipY ts)
    then obtain ok where "AddFrame env pixels flipY ts e s m = Inr (ok, e', s', m')"
      using r c c' by (auto split: sum.splits)
    then show ?thesis using inv_addframe [OF i] c' by simp
  qed
qed

lemma reach_inv: "enc_reach s0 m0 c \<Longrightarrow> enc_inv s0 m0 c"
proof (induction rule: enc_reach.induct)
  case (init doMFStartup doCoInitialize e m)
  then show ?case
    by (auto simp: VideoFileEncoder_def encoder_init_def writer_refs_def writer_ok_def frame_ok_def)
next
  case (step c fin env op c')
  then show ?case using inv_exec enc_reach_wf0 by blast
qed

lemma rate_fits:
  assumes "4 * unat (width :: u32) * unat height < 2 ^ 31"
  shows "5 * unat (width * height) div 2 < 2 ^ 32"
proof -
  define x where "x = unat width * unat height"
  have x: "4 * x < 2 ^ 31" using assms by (simp add: x_def mult.assoc)
  then have "x < 2 ^ LENGTH(32)" by simp
  then have "unat width * unat height < 2 ^ LENGTH(32)" by (simp only: x_def)
  then have "unat (width * height) = unat width * unat height" by (rule unat_mult_lem [THEN iffD1])
  then have "unat (width * height) = x" by (simp only: x_def)
  moreover have "5 * x div 2 < 2 ^ 32"
  proof -
    have "5 * x div 2 \<le> 5 * x" by (rule div_le_dividend)
    moreover have "5 * x < 2 ^ 32" using x by simp
    ultimately show ?thesis by (rule le_less_trans)
  qed
  ultimately show ?thesis by simp
qed

lemma abs_stop:
  assumes inv: "enc_inv s0 m0 (e, s, m)"
  shows "enc_abs s0 (snd (Stop S_OK e s m)) = rec_close (enc_abs s0 (e, s, m))"
proof (cases "m_pSinkWriter e")
  case None
  then show ?thesis by (simp add: Stop_def rec_close_def)
next
  case (Some w)
  have w: "os_next s0 \<le> w" "w < os_next s" "mf_writing m w" "\<not> mf_finalized m w"
    "\<forall>h. os_next s0 \<le> h \<longrightarrow> mf_finalized m h \<longrightarrow> h < w"
    using inv Some by (simp_all add: writer_ok_def)
  have "filter ((mf_finalized m)(w := True)) [os_next s0..<os_next s] =
          filter (mf_finalized m) [os_next s0..<os_next s] @ [w]"
    using w by (intro filter_upt_finalize) simp_all
  then show ?thesis using Some w
    by (simp add: Stop_def Let_def SUCCEEDED_def rec_close_def recording_def)
qed

lemma abs_addframe:
  assumes inv: "enc_inv s0 m0 (e, s, m)" and w: "m_pSinkWriter e = Some w" and ne: "m_pixels e \<noteq> []"
    and fit: "4 * unat (m_width e) * unat (m_height e) < 2 ^ 31"
    and src: "4 * unat (m_width e) * unat (m_height e) \<le> length src"
  shows "\<exists>c'. AddFrame (\<lambda>_. S_OK) (Some src) flipY ts e s m = Inr (True, c') \<and>
           enc_abs s0 c' = rec_step (R_Frame \<lparr>smp_time = sint ts, smp_duration = int (unat (m_frameDuration e)),
                                                smp_data = added_frame e src flipY\<rparr>) (enc_abs s0 (e, s, m))"
proof -
  have wo: "os_next s0 \<le> w" "w < os_next s" "m_stream e = 0" "mf_writing m w" "\<not> mf_finalized m w"
    using inv w by (simp_all add: writer_ok_def)
  have h: "m_height e \<noteq> 0" and l: "length (m_pixels e) = unat (m_width e * m_height e) * 4"
    using inv ne by (simp_all add: frame_ok_def)
  have len: "length (m_pixels e) = 4 * unat (m_width e) * unat (m_height e)"
    using l frame_arith2(1) [OF fit h] by simp
  obtain s' m' where a: "AddFrame (\<lambda>_. S_OK) (Some src) flipY ts e s m =
                          Inr (True, e\<lparr>m_pixels := added_frame e src flipY\<rparr>, s', m')"
      and wm: "mf_written m' w = mf_written m w @
             [\<lparr>smp_time = sint ts, smp_duration = int (unat (m_frameDuration e)), smp_data = added_frame e src flipY\<rparr>]"
    using addframe_success [OF _ w wo(3) wo(4) fit h len ne src, of "\<lambda>_. S_OK" flipY ts s] by auto
  obtain hr where "WriteFrame (\<lambda>_. S_OK) (m_pSinkWriter e) (m_stream e) ts (e\<lparr>m_pixels := added_frame e src flipY\<rparr>) s m =
                     Inr (hr, s', m')"
    using addframe_effect [OF a] by auto
  then have eff: "os_next s \<le> os_next s'" "\<forall>h. h \<noteq> w \<longrightarrow> mf_written m' h = mf_written m h"
      "mf_url m' = mf_url m" "mf_finalized m' = mf_finalized m"
    using writeframe_effect [of s] inv w by auto
  have "map (recording m') (filter (mf_finalized m') [os_next s0..<os_next s']) =
          map (recording m) (filter (mf_finalized m) [os_next s0..<os_next s])"
    using inv eff wo by (intro filter_upt_frame) (auto simp: recording_def)
  then show ?thesis using a w wm eff by (simp add: recording_def)
qed

lemma abs_stop_part:
  assumes inv: "enc_inv s0 m0 (e, s, m)"
    and c: "(if m_pSinkWriter e \<noteq> None then snd (Stop S_OK e s m) else (e, s, m)) = (e1, s1, m1)"
  shows "enc_abs s0 (e1, s1, m1) = rec_close (enc_abs s0 (e, s, m))"
proof (cases "m_pSinkWriter e = None")
  case True
  then show ?thesis using c by (simp add: rec_close_def)
next
  case False
  then show ?thesis using c abs_stop [OF inv] by simp
qed

lemma abs_start:
  assumes inv: "enc_inv s0 m0 (e, s, m)" and wf0: "os_wf s0"
    and fit: "4 * unat width * unat height < 2 ^ 31"
  shows "\<exists>ok c'. Start S_OK (\<lambda>_. S_OK) filename width height fps e s m = Inr (ok, c') \<and>
           enc_abs s0 c' = rec_step (enc_abs_op e (Op_Start filename width height fps)) (enc_abs s0 (e, s, m))"
proof -
  obtain e1 s1 m1 where c: "(if m_pSinkWriter e \<noteq> None then snd (Stop S_OK e s m) else (e, s, m)) = (e1, s1, m1)"
    by (metis prod_cases3)
  have inv1: "enc_inv s0 m0 (e1, s1, m1)" and n1: "m_pSinkWriter e1 = None"
    using start_stop_part [OF inv wf0 c] by simp_all
  have a1: "enc_abs s0 (e1, s1, m1) = rec_close (enc_abs s0 (e, s, m))" by (rule abs_stop_part [OF inv c])
  note unf = start_unfold [OF c, of "\<lambda>_. S_OK" filename width height fps]
  show ?thesis
  proof (cases "width = 0 \<or> height = 0 \<or> fps = 0")
    case True
    then have "Start S_OK (\<lambda>_. S_OK) filename width height fps e s m = Inr (False, e1, s1, m1)"
      using unf by (auto simp: SetFrameFormat_def)
    then show ?thesis using a1 True by auto
  next
    case False
    define e2 where "e2 = e1\<lparr>m_width := width, m_height := height, m_fps := fps,
                       m_frameDuration := 10000000 div fps, m_bitRate := of_nat (5 * unat (width * height) div 2),
                       m_pixels := vec_resize (m_pixels e1) (unat (width * height) * 4)\<rparr>"
    have sff: "SetFrameFormat width height fps e1 = Inr (True, e2)"
      using False rate_fits [OF fit] by (simp add: SetFrameFormat_def e2_def Let_def word_less_1)
    let ?e3 = "e2\<lparr>m_pSinkWriter := None, m_stream := 0\<rparr>"
    obtain s' m' where isw: "InitializeSinkWriter (\<lambda>_. S_OK) filename ?e3 s1 m1 = Inr (S_OK, Some (os_next s1), 0, s', m')"
        and mf: "mf_written m' (os_next s1) = []" "mf_url m' (os_next s1) = filename"
      using isw_success [of "\<lambda>_. S_OK" filename ?e3 s1 m1] by auto
    have st: "Start S_OK (\<lambda>_. S_OK) filename width height fps e s m =
                Inr (True, ?e3\<lparr>m_pSinkWriter := Some (os_next s1), m_stream := 0\<rparr>, s', m')"
      using unf sff isw by (simp add: SUCCEEDED_def)
    have wf1: "os_wf s1" and n01: "os_next s0 \<le> os_next s1"
      and fresh1: "\<forall>h. os_next s1 \<le> h \<longrightarrow> \<not> mf_finalized m1 h"
      using inv1 by simp_all
    have nx: "os_next s1 \<le> os_next s'" using isw_effect [OF wf1 isw] by simp
    have fr: "\<forall>h. h < os_next s1 \<longrightarrow> mf_url m' h = mf_url m1 h \<and> mf_written m' h = mf_written m1 h \<and>
                 mf_finalized m' h = mf_finalized m1 h"
      and fin': "\<forall>h. mf_finalized m' h \<longrightarrow> mf_finalized m1 h"
      using isw_frame [OF isw] by blast+
    have "map (recording m') (filter (mf_finalized m') [os_next s0..<os_next s']) =
            map (recording m1) (filter (mf_finalized m1) [os_next s0..<os_next s1])"
      using n01 nx fr fin' fresh1 by (intro filter_upt_frame) (auto simp: recording_def)
    then show ?thesis using st a1 False mf by (auto simp: recording_def rec_close_def)
  qed
qed

subsection \<open>Properties\<close>

text \<open>C39: Every configuration an encoder reaches, whatever the system answers, is well formed:
  the store is well formed and its reference counts are those of the initial store plus one
  reference on the writer the object holds; that writer is one the object created, writing,
  not finalized, on stream 0, and newer than every writer finalized before; a non-empty pixel
  buffer has non-zero dimensions and \<open>4 * width * height\<close> bytes; and \<open>MFStartup\<close> and
  \<open>CoInitializeEx\<close> have each been called once more than before the construction.\<close>

theorem encoder_reachable_wf:
  assumes "enc_reach s0 m0 c"
  shows "enc_inv s0 m0 c"
  using assms by (rule reach_inv)

theorem encoder_reachable_wf_witness:
  "\<exists>c'. enc_exec S_OK (\<lambda>_. S_OK) (Op_Start ''out.mp4'' 2 2 30) enc_conf0 = Some c' \<and>
        m_pSinkWriter (fst c') = Some 1 \<and> enc_inv enc_os0 mf_init c'"
proof -
  have r0: "enc_reach enc_os0 mf_init enc_conf0"
    using enc_reach.init [of enc_os0 mf_init True True "encoder_init True True"]
    by (simp add: enc_conf0_def enc_os0_def os_wf_def mf_init_def VideoFileEncoder_def)
  obtain e2 where sff: "SetFrameFormat 2 2 30 (encoder_init True True) = Inr (True, e2)"
    by (simp add: SetFrameFormat_def)
  obtain s' m' where isw: "InitializeSinkWriter (\<lambda>_. S_OK) ''out.mp4'' (e2\<lparr>m_pSinkWriter := None, m_stream := 0\<rparr>)
                             enc_os0 (mf_init\<lparr>mf_coinits := 1, mf_startups := 1\<rparr>) = Inr (S_OK, Some 1, 0, s', m')"
    using isw_success [of "\<lambda>_. S_OK" "''out.mp4''" "e2\<lparr>m_pSinkWriter := None, m_stream := 0\<rparr>" enc_os0
                        "mf_init\<lparr>mf_coinits := 1, mf_startups := 1\<rparr>"]
    by (auto simp: enc_os0_def)
  let ?c' = "(e2\<lparr>m_pSinkWriter := Some 1, m_stream := 0\<rparr>, s', m')"
  have ex: "enc_exec S_OK (\<lambda>_. S_OK) (Op_Start ''out.mp4'' 2 2 30) enc_conf0 = Some ?c'"
    using start_fresh [OF _ sff isw, of S_OK] by (simp add: enc_conf0_def encoder_init_def SUCCEEDED_def)
  have "enc_reach enc_os0 mf_init ?c'" by (rule enc_reach.step [OF r0 ex])
  then show ?thesis using encoder_reachable_wf ex by auto
qed

text \<open>C38: Over the whole life of an encoder: destroying it in any reachable configuration
  releases every COM reference it took (the reference counts are those of the initial store),
  but \<open>MFStartup\<close> and \<open>CoInitializeEx\<close> are balanced only when the corresponding flag was
  set; with a flag clear, one startup (initialization) is left over.\<close>

theorem encoder_lifetime_balance:
  assumes reach: "enc_reach s0 m0 (e, s, m)" and d: "VideoFileEncoder_destroy fin e s m = (s', m')"
  shows "os_refs s' = os_refs s0 \<and>
         mf_startups m' = mf_startups m0 + (if m_doMFStartup e then 0 else 1) \<and>
         mf_coinits m' = mf_coinits m0 + (if m_doCoInitialize e then 0 else 1)"
proof -
  obtain ok e1 s1 m1 where st: "Stop fin e s m = (ok, e1, s1, m1)" by (metis prod_cases4)
  have inv: "enc_inv s0 m0 (e, s, m)" by (rule reach_inv [OF reach])
  have inv1: "enc_inv s0 m0 (e1, s1, m1)"
    using inv_stop [OF inv enc_reach_wf0 [OF reach], of fin] st by simp
  have n: "m_pSinkWriter e1 = None" using stop_writer_none [of fin e s m] st by simp
  have fl: "m_doMFStartup e1 = m_doMFStartup e" "m_doCoInitialize e1 = m_doCoInitialize e"
    using stop_encoder [OF st] by simp_all
  show ?thesis
    using d st inv1 n fl by (auto simp: VideoFileEncoder_destroy_def writer_refs_def)
qed

theorem encoder_lifetime_balance_witness:
  "os_refs (fst (VideoFileEncoder_destroy S_OK (encoder_init False True) enc_os0
                   (mf_init\<lparr>mf_coinits := 1, mf_startups := 1\<rparr>))) = os_refs enc_os0 \<and>
   mf_startups (snd (VideoFileEncoder_destroy S_OK (encoder_init False True) enc_os0
                   (mf_init\<lparr>mf_coinits := 1, mf_startups := 1\<rparr>))) = 1 \<and>
   mf_coinits (snd (VideoFileEncoder_destroy S_OK (encoder_init False True) enc_os0
                   (mf_init\<lparr>mf_coinits := 1, mf_startups := 1\<rparr>))) = 0"
proof -
  have r0: "enc_reach enc_os0 mf_init (encoder_init False True, enc_os0, mf_init\<lparr>mf_coinits := 1, mf_startups := 1\<rparr>)"
    using enc_reach.init [of enc_os0 mf_init False True "encoder_init False True"]
    by (simp add: enc_os0_def os_wf_def mf_init_def VideoFileEncoder_def)
  show ?thesis
    using encoder_lifetime_balance [OF r0 prod.collapse [symmetric], of S_OK]
    by (simp add: encoder_init_def mf_init_def)
qed

text \<open>C40: The class refines the abstract recorder.  In every reachable configuration, when
  every Media Foundation call succeeds and the caller keeps its side of the contract, each
  public member function returns without undefined behaviour, and the abstraction of the new
  configuration is the abstract operation applied to the abstraction of the old one:
  \<open>Start\<close> finalizes the open recording and opens a new empty one on the file (or only
  finalizes, when an argument is zero), \<open>AddFrame\<close> appends the frame (rows reversed when
  \<open>flipY\<close>) with its time and duration, \<open>Stop\<close> finalizes, \<open>SetEncodingFormat\<close> changes
  no recording.\<close>

theorem encoder_refines_recorder:
  assumes reach: "enc_reach s0 m0 (e, s, m)" and pre: "enc_pre e op"
  shows "\<exists>c'. enc_exec S_OK (\<lambda>_. S_OK) op (e, s, m) = Some c' \<and>
           enc_abs s0 c' = rec_step (enc_abs_op e op) (enc_abs s0 (e, s, m))"
proof -
  have inv: "enc_inv s0 m0 (e, s, m)" by (rule reach_inv [OF reach])
  have wf0: "os_wf s0" by (rule enc_reach_wf0 [OF reach])
  show ?thesis
  proof (cases op)
    case (Op_SetEncodingFormat fmt)
    then show ?thesis by (simp add: SetEncodingFormat_def)
  next
    case (Op_Start filename width height fps)
    then show ?thesis using abs_start [OF inv wf0, of width height filename fps] pre by auto
  next
    case Op_Stop
    then show ?thesis using abs_stop [OF inv] by simp
  next
    case (Op_AddFrame pixels flipY ts)
    show ?thesis
    proof (cases "pixels = None \<or> m_pixels e = []")
      case True
      then show ?thesis using Op_AddFrame by (cases pixels) (auto simp: AddFrame_def)
    next
      case False
      then obtain src w where src: "pixels = Some src" and ne: "m_pixels e \<noteq> []" and w: "m_pSinkWriter e = Some w"
          and p: "4 * unat (m_width e) * unat (m_height e) < 2 ^ 31"
                 "4 * unat (m_width e) * unat (m_height e) \<le> length src"
        using pre Op_AddFrame by auto
      show ?thesis using abs_addframe [OF inv w ne p, of flipY ts] Op_AddFrame src ne by auto
    qed
  qed
qed

theorem encoder_refines_recorder_witness:
  "\<exists>c'. enc_exec S_OK (\<lambda>_. S_OK) (Op_Start ''out.mp4'' 2 2 30) enc_conf0 = Some c' \<and>
        enc_abs enc_os0 c' = \<lparr>rec_open = Some (''out.mp4'', []), rec_done = []\<rparr>"
proof -
  have r0: "enc_reach enc_os0 mf_init (encoder_init True True, enc_os0, mf_init\<lparr>mf_coinits := 1, mf_startups := 1\<rparr>)"
    using enc_reach.init [of enc_os0 mf_init True True "encoder_init True True"]
    by (simp add: enc_os0_def os_wf_def mf_init_def VideoFileEncoder_def)
  show ?thesis
    using encoder_refines_recorder [OF r0, of "Op_Start ''out.mp4'' 2 2 30"]
    by (simp add: enc_conf0_def encoder_init_def rec_close_def)
qed

end
