(* ===== verification/EncodeTest.thy ===== *)
theory EncodeTest
  imports EncoderLife
begin

unbundle bit_operations_syntax

text \<open>
  The \<open>main\<close> of src/encodetest.cpp: it constructs an encoder (both flags set), selects H.264,
  starts a 640x480 file at 30 frames per second, encodes 500 generated frames and stops.  The
  frame buffer is one \<open>std::vector\<close> refilled in place by every iteration; \<open>aenv i\<close> answers
  the Media Foundation calls of the \<open>i\<close>-th \<open>AddFrame\<close>, \<open>senv\<close> those of \<open>Start\<close>, \<open>fin\<close>
  every \<open>Finalize\<close>.  The object \<open>enc\<close> is destroyed on every return.
\<close>

definition CoUninitialize :: "mf \<Rightarrow> mf" where
  "CoUninitialize m = m\<lparr>mf_coinits := mf_coinits m - 1\<rparr>"

text \<open>The inner loop: \<open>frameBuffer[j * 4] = ((i + j) & 0x7F) + 0x80\<close> for every pixel \<open>j\<close>
  (the sum of the \<open>DWORD\<close> and the \<open>size_t\<close> is far below \<open>2^64\<close>).\<close>

definition fill_frame :: "u32 \<Rightarrow> nat \<Rightarrow> byte list \<Rightarrow> byte list" where
  "fill_frame i numPixels buf =
     fold (\<lambda>j b. b[j * 4 := of_nat (((unat i + j) AND 127) + 128)]) [0..<numPixels] buf"

text \<open>The outer loop; \<open>n\<close> iterations left, the next one \<open>i\<close>.  It ends early (\<open>break\<close>)
  when \<open>AddFrame\<close> returns false.\<close>

fun encode_loop ::
    "(nat \<Rightarrow> mf_env) \<Rightarrow> nat \<Rightarrow> nat \<Rightarrow> 64 word \<Rightarrow> byte list \<Rightarrow> encoder \<Rightarrow> os \<Rightarrow> mf \<Rightarrow>
       enc_error + byte list \<times> encoder \<times> os \<times> mf" where
  "encode_loop aenv 0 i ts buf e s m = Inr (buf, e, s, m)"
| "encode_loop aenv (Suc n) i ts buf e s m =
     (let buf1 = fill_frame (of_nat i) (unat (m_width e * m_height e)) buf in
      case AddFrame (aenv i) (Some buf1) False ts e s m of
        Inl err \<Rightarrow> Inl err
      | Inr (ok, e1, s1, m1) \<Rightarrow>
          if \<not> ok then Inr (buf1, e1, s1, m1)
          else encode_loop aenv n (Suc i) (ts + ucast (m_frameDuration e1)) buf1 e1 s1 m1)"

definition encodetest_main ::
    "hresult \<Rightarrow> mf_env \<Rightarrow> (nat \<Rightarrow> mf_env) \<Rightarrow> os \<Rightarrow> mf \<Rightarrow> enc_error + int \<times> os \<times> mf" where
  "encodetest_main fin senv aenv s m =
     (case VideoFileEncoder True True m of (e0, m0) \<Rightarrow>
      case SetEncodingFormat MFVideoFormat_H264 e0 of (ok, e1) \<Rightarrow>
        if \<not> ok then (case VideoFileEncoder_destroy fin e1 s (CoUninitialize m0) of (s', m') \<Rightarrow> Inr (-1, s', m'))
        else
          (case Start fin senv ''test.mp4'' 640 480 30 e1 s m0 of
             Inl err \<Rightarrow> Inl err
           | Inr (ok2, e2, s2, m2) \<Rightarrow>
               if \<not> ok2 then
                 (case VideoFileEncoder_destroy fin e2 s2 (CoUninitialize m2) of (s', m') \<Rightarrow> Inr (-1, s', m'))
               else
                 (case encode_loop aenv 500 0 0 (replicate (unat (m_width e2 * m_height e2) * 4) 0) e2 s2 m2 of
                    Inl err \<Rightarrow> Inl err
                  | Inr (buf, e3, s3, m3) \<Rightarrow>
                      (case Stop fin e3 s3 m3 of (_, e4, s4, m4) \<Rightarrow>
                         (case VideoFileEncoder_destroy fin e4 s4 m4 of (s', m') \<Rightarrow> Inr (0, s', m'))))))"

text \<open>The frame of iteration \<open>i\<close>: a blue byte per pixel, the other three bytes zero.\<close>

definition bars_frame :: "nat \<Rightarrow> nat \<Rightarrow> byte list" where
  "bars_frame i numPixels = concat (map (\<lambda>j. [of_nat ((i + j) mod 128 + 128), 0, 0, 0]) [0..<numPixels])"

text \<open>The sample the \<open>i\<close>-th iteration hands to the sink writer.\<close>

definition encodetest_sample :: "nat \<Rightarrow> mf_sample" where
  "encodetest_sample i = \<lparr>smp_time = int (i * 333333), smp_duration = 333333, smp_data = bars_frame i 307200\<rparr>"

definition blank_pad :: "byte list \<Rightarrow> bool" where
  "blank_pad b \<longleftrightarrow> (\<forall>k < length b. k mod 4 \<noteq> 0 \<longrightarrow> b ! k = 0)"

subsection \<open>Lemmas\<close>

lemma length_fill_fold [simp]: "length (fold (\<lambda>j b. b[j * 4 := g j]) js b) = length b"
  by (induction js arbitrary: b) simp_all

lemma nth_fill_fold:
  assumes "k < length b"
  shows "fold (\<lambda>j b. b[j * 4 := g j]) [0..<n] b ! k = (if k mod 4 = 0 \<and> k div 4 < n then g (k div 4) else b ! k)"
proof (induction n)
  case 0
  then show ?case by simp
next
  case (Suc n)
  let ?b = "fold (\<lambda>j b. b[j * 4 := g j]) [0..<n] b"
  have u: "fold (\<lambda>j b. b[j * 4 := g j]) [0..<Suc n] b = ?b[n * 4 := g n]" by simp
  show ?case
  proof (cases "k = n * 4")
    case True
    then show ?thesis using u assms by simp
  next
    case False
    then have "?b[n * 4 := g n] ! k = ?b ! k" by simp
    moreover have "(k mod 4 = 0 \<and> k div 4 < Suc n) = (k mod 4 = 0 \<and> k div 4 < n)" using False by auto
    ultimately show ?thesis using u Suc by simp
  qed
qed

lemma and_127: "(n :: nat) AND 127 = n mod 128"
proof -
  have m: "mask 7 = (127 :: nat)" by (simp add: mask_eq_exp_minus_1)
  have "take_bit 7 n = n AND mask 7" by (rule take_bit_eq_mask)
  then have "n AND 127 = take_bit 7 n" by (simp only: m)
  then show ?thesis by (simp add: take_bit_eq_mod)
qed

lemma length_bars_frame [simp]: "length (bars_frame i n) = 4 * n"
  by (induction n) (simp_all add: bars_frame_def)

lemma nth_bars_frame:
  "k < 4 * n \<Longrightarrow> bars_frame i n ! k = (if k mod 4 = 0 then of_nat ((i + k div 4) mod 128 + 128) else 0)"
proof (induction n)
  case 0
  then show ?case by simp
next
  case (Suc n)
  have b: "bars_frame i (Suc n) = bars_frame i n @ [of_nat ((i + n) mod 128 + 128), 0, 0, 0]"
    by (simp add: bars_frame_def)
  show ?case
  proof (cases "k < 4 * n")
    case True
    then show ?thesis using Suc by (simp add: b nth_append)
  next
    case False
    define r where "r = k - 4 * n"
    have kr: "k = 4 * n + r" "r < 4" using False Suc.prems unfolding r_def by simp_all
    have nth: "bars_frame i (Suc n) ! k = [of_nat ((i + n) mod 128 + 128), 0, 0, 0] ! r"
      using False by (simp add: b nth_append r_def)
    have md: "k mod 4 = r" "k div 4 = n" using kr by simp_all
    have "r = 0 \<or> r = 1 \<or> r = 2 \<or> r = 3" using kr(2) by linarith
    then show ?thesis using nth md by auto
  qed
qed

lemma fill_frame_bars:
  assumes "length b = 4 * n" "blank_pad b" "i < 2 ^ 32"
  shows "fill_frame (of_nat i) n b = bars_frame i n"
proof (rule nth_equalityI)
  show "length (fill_frame (of_nat i) n b) = length (bars_frame i n)" using assms by (simp add: fill_frame_def)
next
  fix k assume "k < length (fill_frame (of_nat i) n b)"
  then have k: "k < 4 * n" "k < length b" using assms(1) by (simp_all add: fill_frame_def)
  have u: "unat (of_nat i :: u32) = i" using assms(3) by (simp add: unat_of_nat)
  show "fill_frame (of_nat i) n b ! k = bars_frame i n ! k"
    using assms(2) k by (auto simp: fill_frame_def nth_fill_fold nth_bars_frame u blank_pad_def and_127)
qed

lemma blank_pad_bars: "blank_pad (bars_frame i n)"
  by (simp add: blank_pad_def nth_bars_frame)

lemma frame_ts:
  assumes "i < 500"
  shows "sint (of_nat (i * 333333) :: 64 word) = int (i * 333333)"
    and "(of_nat (i * 333333) :: 64 word) + ucast (333333 :: u32) = of_nat (Suc i * 333333)"
proof -
  define x where "x = i * 333333"
  have "x < 2 ^ 63" using assms by (simp add: x_def)
  then have u: "unat (of_nat x :: 64 word) = x" by (simp add: unat_of_nat)
  moreover have "x < 2 ^ (LENGTH(64) - 1)" using assms by (simp add: x_def)
  ultimately have "sint (of_nat x :: 64 word) = int x"
    using sint_of_small [of "of_nat x :: 64 word"] by simp
  then show "sint (of_nat (i * 333333) :: 64 word) = int (i * 333333)" by (simp only: x_def)
  show "(of_nat (i * 333333) :: 64 word) + ucast (333333 :: u32) = of_nat (Suc i * 333333)"
    by simp
qed

lemma encode_loop_ok:
  assumes env: "\<forall>j k. aenv j k = S_OK" and wf: "os_wf s"
    and w: "m_pSinkWriter e = Some w" "m_stream e = 0" "mf_writing m w"
    and dims: "m_width e = 640" "m_height e = 480" "m_frameDuration e = 333333"
    and len: "length (m_pixels e) = 1228800"
    and b: "length buf = 1228800" "blank_pad buf"
    and n: "i + n \<le> 500"
  shows "\<exists>buf' e' s' m'. encode_loop aenv n i (of_nat (i * 333333)) buf e s m = Inr (buf', e', s', m') \<and>
           m_pSinkWriter e' = Some w \<and> m_stream e' = 0 \<and> mf_writing m' w \<and>
           mf_url m' = mf_url m \<and> mf_finalized m' = mf_finalized m \<and> os_wf s' \<and> os_refs s' = os_refs s \<and>
           mf_startups m' = mf_startups m \<and> mf_coinits m' = mf_coinits m \<and>
           mf_written m' w = mf_written m w @ map encodetest_sample [i..<i + n] \<and>
           m_doMFStartup e' = m_doMFStartup e \<and> m_doCoInitialize e' = m_doCoInitialize e"
  using wf w dims len b n
proof (induction n arbitrary: i buf e s m)
  case 0
  then show ?case by simp
next
  case (Suc n)
  have i: "i < 500" "i < 2 ^ 32" using Suc.prems(11) by simp_all
  have np: "unat (m_width e * m_height e) = 307200" using Suc.prems(5,6) by simp
  let ?f = "bars_frame i 307200"
  have fill: "fill_frame (of_nat i) (unat (m_width e * m_height e)) buf = ?f"
    using fill_frame_bars [of buf 307200 i] Suc.prems(9,10) i(2) np by simp
  have fit: "4 * unat (m_width e) * unat (m_height e) < 2 ^ 31" "m_height e \<noteq> 0"
    and len': "length (m_pixels e) = 4 * unat (m_width e) * unat (m_height e)" and ne: "m_pixels e \<noteq> []"
    and src: "4 * unat (m_width e) * unat (m_height e) \<le> length ?f"
    using Suc.prems(5,6,8) by auto
  have af: "added_frame e ?f False = ?f" using Suc.prems(5,6) by (simp add: added_frame_def)
  let ?ts = "of_nat (i * 333333) :: 64 word"
  obtain s1 m1 where a: "AddFrame (aenv i) (Some ?f) False ?ts e s m = Inr (True, e\<lparr>m_pixels := ?f\<rparr>, s1, m1)"
      and wm: "mf_written m1 w = mf_written m w @ [encodetest_sample i]"
    using addframe_success [OF _ Suc.prems(2-4) fit len' ne src, of "aenv i" False ?ts s] env af
          frame_ts(1) [OF i(1)] Suc.prems(7)
    by (auto simp: encodetest_sample_def)
  obtain hr where "WriteFrame (aenv i) (m_pSinkWriter e) (m_stream e) ?ts (e\<lparr>m_pixels := ?f\<rparr>) s m = Inr (hr, s1, m1)"
    using addframe_effect [OF a] by auto
  note wr = this
  have eff: "os_refs s1 = os_refs s" "os_wf s1" "mf_writing m1 = mf_writing m" "mf_url m1 = mf_url m"
      "mf_finalized m1 = mf_finalized m" "mf_startups m1 = mf_startups m" "mf_coinits m1 = mf_coinits m"
    using writeframe_effect [OF Suc.prems(1) wr] writeframe_counts [OF wr] by simp_all
  have ts': "?ts + ucast (m_frameDuration (e\<lparr>m_pixels := ?f\<rparr>)) = of_nat (Suc i * 333333)"
    using frame_ts(2) [OF i(1)] Suc.prems(7) by simp
  have step: "encode_loop aenv (Suc n) i ?ts buf e s m =
                encode_loop aenv n (Suc i) (of_nat (Suc i * 333333)) ?f (e\<lparr>m_pixels := ?f\<rparr>) s1 m1"
    using a fill ts' by (simp add: Let_def add.commute)
  have ih: "\<exists>buf' e' s' m'. encode_loop aenv n (Suc i) (of_nat (Suc i * 333333)) ?f (e\<lparr>m_pixels := ?f\<rparr>) s1 m1 =
              Inr (buf', e', s', m') \<and>
           m_pSinkWriter e' = Some w \<and> m_stream e' = 0 \<and> mf_writing m' w \<and>
           mf_url m' = mf_url m1 \<and> mf_finalized m' = mf_finalized m1 \<and> os_wf s' \<and> os_refs s' = os_refs s1 \<and>
           mf_startups m' = mf_startups m1 \<and> mf_coinits m' = mf_coinits m1 \<and>
           mf_written m' w = mf_written m1 w @ map encodetest_sample [Suc i..<Suc i + n] \<and>
           m_doMFStartup e' = m_doMFStartup (e\<lparr>m_pixels := ?f\<rparr>) \<and> m_doCoInitialize e' = m_doCoInitialize (e\<lparr>m_pixels := ?f\<rparr>)"
    by (rule Suc.IH) (use Suc.prems eff blank_pad_bars in simp_all)
  have "[i..<i + Suc n] = i # [Suc i..<Suc i + n]" by (simp add: upt_rec)
  then show ?case using step ih wm eff by auto
qed

text \<open>When \<open>Start\<close> fails, main calls \<open>CoUninitialize\<close> itself and the destructor of
  \<open>enc\<close> calls it again: one \<open>CoInitializeEx\<close>, two \<open>CoUninitialize\<close>.\<close>

subsection \<open>Properties\<close>

text \<open>C35: With every Media Foundation call succeeding, encodetest returns 0 having written
  all 500 frames to test.mp4 and finalized it: the \<open>i\<close>-th sample holds the blue-bar
  pattern \<open>((i + j) & 0x7F) + 0x80\<close> in the first byte of pixel \<open>j\<close> and zero elsewhere, at
  time \<open>i * 333333\<close> with duration 333333 (\<open>10000000 / 30\<close>); the encoder releases every
  reference it took and the \<open>MFStartup\<close> and \<open>CoInitializeEx\<close> counts return to their values
  before the program.\<close>

theorem encodetest_writes_frames:
  assumes wf: "os_wf s" and senv: "\<forall>k. senv k = S_OK" and aenv: "\<forall>j k. aenv j k = S_OK"
    and fin: "SUCCEEDED fin"
  shows "\<exists>s' m'. encodetest_main fin senv aenv s m = Inr (0, s', m') \<and>
           mf_finalized m' (os_next s) \<and> mf_url m' (os_next s) = ''test.mp4'' \<and>
           mf_written m' (os_next s) = map encodetest_sample [0..<500] \<and>
           os_refs s' = os_refs s \<and> mf_startups m' = mf_startups m \<and> mf_coinits m' = mf_coinits m"
proof -
  let ?n = "os_next s"
  obtain e0 m0 where c: "VideoFileEncoder True True m = (e0, m0)" by (metis prod.exhaust)
  have e0: "e0 = encoder_init True True" "mf_startups m0 = Suc (mf_startups m)" "mf_coinits m0 = Suc (mf_coinits m)"
    using c by (auto simp: VideoFileEncoder_def)
  let ?e1 = "e0\<lparr>m_encodingFormat := MFVideoFormat_H264\<rparr>"
  obtain e2 where sff: "SetFrameFormat 640 480 30 ?e1 = Inr (True, e2)"
      and e2: "m_width e2 = 640" "m_height e2 = 480" "m_frameDuration e2 = 333333"
              "length (m_pixels e2) = 1228800" "m_pSinkWriter e2 = None" "m_doMFStartup e2" "m_doCoInitialize e2"
    by (simp add: SetFrameFormat_def e0 encoder_init_def vec_resize_def)
  let ?e3 = "e2\<lparr>m_pSinkWriter := None, m_stream := 0\<rparr>"
  obtain s2 m2 where isw: "InitializeSinkWriter senv ''test.mp4'' ?e3 s m0 = Inr (S_OK, Some ?n, 0, s2, m2)"
      and mf2: "mf_writing m2 ?n" "mf_written m2 ?n = []" "mf_url m2 ?n = ''test.mp4''"
    using isw_success [OF senv, of "''test.mp4''" ?e3 s m0] by auto
  have st: "Start fin senv ''test.mp4'' 640 480 30 ?e1 s m0 = Inr (True, ?e3\<lparr>m_pSinkWriter := Some ?n, m_stream := 0\<rparr>, s2, m2)"
    using start_fresh [OF _ sff isw, of fin] e0 by (simp add: encoder_init_def SUCCEEDED_def)
  have s2: "os_wf s2" "os_refs s2 = (os_refs s)(?n := 1)" "mf_startups m2 = mf_startups m0" "mf_coinits m2 = mf_coinits m0"
    using isw_effect [OF wf isw] isw_counts [OF isw] by (simp_all add: SUCCEEDED_def)
  let ?e4 = "?e3\<lparr>m_pSinkWriter := Some ?n, m_stream := 0\<rparr>"
  have buf: "length (replicate 1228800 (0 :: byte)) = 1228800" "blank_pad (replicate 1228800 0)"
    by (simp_all add: blank_pad_def)
  obtain buf' e5 s3 m3 where lp: "encode_loop aenv 500 0 (of_nat (0 * 333333)) (replicate 1228800 0) ?e4 s2 m2 =
        Inr (buf', e5, s3, m3)"
      and l: "m_pSinkWriter e5 = Some ?n" "mf_writing m3 ?n" "mf_url m3 = mf_url m2" "os_refs s3 = os_refs s2"
        "mf_startups m3 = mf_startups m2" "mf_coinits m3 = mf_coinits m2"
        "mf_written m3 ?n = mf_written m2 ?n @ map encodetest_sample [0..<0 + 500]"
        "m_doMFStartup e5 = m_doMFStartup ?e4" "m_doCoInitialize e5 = m_doCoInitialize ?e4"
    using encode_loop_ok [OF aenv s2(1), of ?e4 ?n m2 "replicate 1228800 0" 0 500] e2 mf2 buf by auto
  let ?s4 = "os_release ?n s3"
  let ?m4 = "m3\<lparr>mf_finalized := (mf_finalized m3)(?n := True), mf_writing := (mf_writing m3)(?n := False)\<rparr>"
  have stop: "Stop fin e5 s3 m3 = (True, e5\<lparr>m_pSinkWriter := None\<rparr>, ?s4, ?m4)"
    using l(1,2) fin by (simp add: Stop_def Let_def)
  have fl: "m_doMFStartup e5" "m_doCoInitialize e5" using e2(6,7) l(8,9) by simp_all
  have main: "encodetest_main fin senv aenv s m =
      Inr (0, ?s4, ?m4\<lparr>mf_startups := mf_startups ?m4 - 1, mf_coinits := mf_coinits ?m4 - 1\<rparr>)"
    using c st lp stop fl e2 by (simp add: encodetest_main_def SetEncodingFormat_def VideoFileEncoder_destroy_def Stop_def)
  have "os_refs ?s4 = os_refs s"
    using l(4) s2(2) fresh_refs_restore [OF wf, of ?n] by (simp add: refs_os_release_fun)
  then show ?thesis
    using main l mf2 s2 e0 by simp
qed

theorem encodetest_writes_frames_witness:
  "\<exists>s' m'. encodetest_main S_OK (\<lambda>_. S_OK) (\<lambda>_ _. S_OK) enc_os0 mf_init = Inr (0, s', m') \<and>
           mf_finalized m' 1 \<and> mf_url m' 1 = ''test.mp4'' \<and>
           mf_written m' 1 = map encodetest_sample [0..<500] \<and>
           os_refs s' = os_refs enc_os0 \<and> mf_startups m' = 0 \<and> mf_coinits m' = 0"
  using encodetest_writes_frames [of enc_os0 "\<lambda>_. S_OK" "\<lambda>_ _. S_OK" S_OK mf_init]
  by (simp add: enc_os0_def os_wf_def SUCCEEDED_def mf_init_def)

text \<open>C28: when the sink writer cannot be created (the first Media Foundation call of
  \<open>Start\<close> fails), encodetest returns -1 after calling \<open>CoUninitialize\<close> twice for the one
  \<open>CoInitializeEx\<close> of the encoder's constructor: its own call before \<open>return -1\<close> and the
  destructor's.  The COM initialization count ends one below its value at entry, so a COM
  initialization the program did not make is undone; \<open>MFStartup\<close> is balanced and every
  reference is released.\<close>

theorem encodetest_start_failure_uninit:
  assumes wf: "os_wf s" and fail: "\<not> SUCCEEDED (senv 0)" and co: "0 < mf_coinits m"
  shows "\<exists>s' m'. encodetest_main fin senv aenv s m = Inr (-1, s', m') \<and>
           mf_startups m' = mf_startups m \<and> Suc (mf_coinits m') = mf_coinits m \<and> os_refs s' = os_refs s"
proof -
  let ?e1 = "(encoder_init True True)\<lparr>m_encodingFormat := MFVideoFormat_H264\<rparr>"
  let ?m0 = "m\<lparr>mf_coinits := Suc (mf_coinits m), mf_startups := Suc (mf_startups m)\<rparr>"
  obtain e2 where sff: "SetFrameFormat 640 480 30 ?e1 = Inr (True, e2)" and n2: "m_pSinkWriter e2 = None"
      "m_doMFStartup e2" "m_doCoInitialize e2"
    by (simp add: SetFrameFormat_def encoder_init_def)
  let ?e3 = "e2\<lparr>m_pSinkWriter := None, m_stream := 0\<rparr>"
  have isw: "InitializeSinkWriter senv ''test.mp4'' ?e3 s ?m0 = Inr (senv 0, None, 0, s, ?m0)"
    using fail by (simp add: InitializeSinkWriter_def isw_calls_def mf_simps)
  have st: "Start fin senv ''test.mp4'' 640 480 30 ?e1 s ?m0 = Inr (False, ?e3, s, ?m0)"
    using start_fresh [OF _ sff isw, of fin] fail by (simp add: encoder_init_def)
  show ?thesis
    using st co n2 by (simp add: encodetest_main_def VideoFileEncoder_def SetEncodingFormat_def
        VideoFileEncoder_destroy_def Stop_def CoUninitialize_def encoder_init_def)
qed

theorem encodetest_start_failure_uninit_witness:
  "\<exists>s' m'. encodetest_main S_OK (\<lambda>_. E_FAIL) (\<lambda>_ _. S_OK) enc_os0 (mf_init\<lparr>mf_coinits := 1\<rparr>) = Inr (-1, s', m') \<and>
           mf_startups m' = 0 \<and> mf_coinits m' = 0 \<and> os_refs s' = os_refs enc_os0"
  using encodetest_start_failure_uninit [of enc_os0 "\<lambda>_. E_FAIL" "mf_init\<lparr>mf_coinits := 1\<rparr>" S_OK "\<lambda>_ _. S_OK"]
  by (simp add: enc_os0_def os_wf_def SUCCEEDED_def mf_init_def)

end
