(* ===== verification/CapEncTest.thy ===== *)
theory CapEncTest
  imports CapTest EncodeTest
begin

text \<open>
  The \<open>main\<close> of src/capenctest.cpp: it parses the capture mode, starts a \<open>ScreenCapture\<close>
  session and a \<open>VideoFileEncoder\<close> (both flags set, H.264), then makes 100 capture attempts;
  the first captured frame starts the encoder with the frame's size at 30 frames per second,
  and every captured frame is added bottom-up (\<open>flipY\<close>) with a timestamp advanced by the
  frame duration.  The session and the encoder share the platform store.  Iteration \<open>j\<close> is
  answered by \<open>env j\<close>: the screen, the DXGI answers, and the Media Foundation answers of the
  \<open>Start\<close> and of the \<open>AddFrame\<close> it may make; \<open>fin\<close> answers every \<open>Finalize\<close>.  On
  every return after their declarations the destructors run, the encoder's first; the
  \<open>GetTickCount64\<close> statistics and \<open>printf\<close> change no state the program reads.
\<close>

type_synonym capenc_env = "nat \<Rightarrow> screen \<times> dx11_env \<times> mf_env \<times> mf_env"

definition outputFilename :: string where
  "outputFilename = ''test.mp4''"

definition framesPerSecond :: u32 where
  "framesPerSecond = 30"

text \<open>\<open>n\<close> iterations left, the next one \<open>iframe\<close>; the result is whether the loop ran to its
  end (false: \<open>Start\<close> or \<open>AddFrame\<close> failed and \<open>main\<close> returns), \<open>numFrames\<close> and the
  state; undefined behaviour of the encoder is on the left.\<close>

fun capenc_loop ::
    "capenc_env \<Rightarrow> hresult \<Rightarrow> nat \<Rightarrow> nat \<Rightarrow> nat \<Rightarrow> 64 word \<Rightarrow> session \<Rightarrow> os \<Rightarrow> encoder \<Rightarrow> mf \<Rightarrow>
       enc_error + bool \<times> nat \<times> session \<times> os \<times> encoder \<times> mf" where
  "capenc_loop env fin 0 iframe numFrames ts sc s e m = Inr (True, numFrames, sc, s, e, m)"
| "capenc_loop env fin (Suc n) iframe numFrames ts sc s e m =
     (case env iframe of (scr, denv, senv, aenv) \<Rightarrow>
        (case sc_capture scr denv sc s of (ok, sc1, s1) \<Rightarrow>
           if \<not> ok \<or> sc_frame_width sc1 < 1 then capenc_loop env fin n (Suc iframe) numFrames ts sc1 s1 e m
           else
             (case (if numFrames = 0
                    then Start fin senv outputFilename (sc_frame_width sc1) (sc_frame_height sc1) framesPerSecond e s1 m
                    else Inr (True, e, s1, m)) of
                Inl err \<Rightarrow> Inl err
              | Inr (sok, e1, s2, m1) \<Rightarrow>
                  if \<not> sok then Inr (False, numFrames, sc1, s2, e1, m1)
                  else
                    (case AddFrame aenv (cptr_buf (sc_frame_buffer sc1)) True ts e1 s2 m1 of
                       Inl err \<Rightarrow> Inl err
                     | Inr (aok, e2, s3, m2) \<Rightarrow>
                         if \<not> aok then Inr (False, numFrames, sc1, s3, e2, m2)
                         else capenc_loop env fin n (Suc iframe) (Suc numFrames) (ts + ucast (m_frameDuration e2))
                                sc1 s3 e2 m2))))"

text \<open>The destructors at a return: the encoder's (\<open>Stop\<close>, \<open>MFShutdown\<close>,
  \<open>CoUninitialize\<close>), then the session's (\<open>Shutdown\<close>).\<close>

definition capenc_exit :: "hresult \<Rightarrow> int \<Rightarrow> nat \<Rightarrow> session \<Rightarrow> encoder \<Rightarrow> os \<Rightarrow> mf \<Rightarrow>
    int \<times> nat \<times> session \<times> os \<times> mf" where
  "capenc_exit fin r numFrames sc e s m =
     (case VideoFileEncoder_destroy fin e s m of (s1, m1) \<Rightarrow>
        (case sc_shutdown sc s1 of (sc2, s2) \<Rightarrow> (r, numFrames, sc2, s2, m1)))"

definition capenctest_main ::
    "string list \<Rightarrow> gdi_env \<Rightarrow> dx11_env \<Rightarrow> capenc_env \<Rightarrow> hresult \<Rightarrow> os \<Rightarrow> mf \<Rightarrow>
       enc_error + int \<times> nat \<times> session \<times> os \<times> mf" where
  "capenctest_main argv genv denv env fin s m =
     (if length argv < 2 then Inr (-1, 0, session_init, s, m)
      else
        (let mode = parse_mode (argv ! 1) in
         if mode = ScreenCaptureMode_Invalid then Inr (-1, 0, session_init, s, m)
         else
           (case sc_startup genv denv mode session_init s of (ok, sc1, s1) \<Rightarrow>
              if \<not> ok then (case sc_shutdown sc1 s1 of (sc2, s2) \<Rightarrow> Inr (-1, 0, sc2, s2, m))
              else
                (case VideoFileEncoder True True m of (e0, m0) \<Rightarrow>
                 case SetEncodingFormat MFVideoFormat_H264 e0 of (fok, e1) \<Rightarrow>
                   if \<not> fok then Inr (capenc_exit fin (-1) 0 sc1 e1 s1 m0)
                   else
                     (case capenc_loop env fin 100 0 0 0 sc1 s1 e1 m0 of
                        Inl err \<Rightarrow> Inl err
                      | Inr (lok, numFrames, sc2, s2, e2, m2) \<Rightarrow>
                          if \<not> lok then Inr (capenc_exit fin (-1) numFrames sc2 e2 s2 m2)
                          else
                            (case sc_shutdown sc2 s2 of (sc3, s3) \<Rightarrow>
                             case Stop fin e2 s3 m2 of (stok, e3, s4, m3) \<Rightarrow>
                               Inr (capenc_exit fin (if stok then 0 else -1) numFrames sc3 e3 s4 m3)))))))"

text \<open>The sample the \<open>j\<close>-th captured frame becomes when the screen is \<open>scr\<close>: the screen's
  rows bottom-up, at time \<open>j * 333333\<close>.\<close>

definition capenc_sample :: "screen \<Rightarrow> nat \<Rightarrow> nat \<Rightarrow> nat \<Rightarrow> mf_sample" where
  "capenc_sample scr w h j =
     \<lparr>smp_time = int (j * 333333), smp_duration = 333333,
      smp_data = concat (rev (map (screen_row scr w) [0..<h]))\<rparr>"

text \<open>The invariant of capenctest's loop, for a run on the store \<open>s0\<close> whose session
  Startup produced the store \<open>s1\<close> and began with the Media Foundation state \<open>m0\<close>: the
  session is well formed on the shared store and its handles are those it got at Startup;
  the encoder keeps \<open>enc_inv\<close> relative to \<open>s1\<close>, whose reference counts are those of
  \<open>s0\<close> plus the session's handles; both constructor flags are set.\<close>

definition ce_inv :: "os \<Rightarrow> os \<Rightarrow> mf \<Rightarrow> session \<Rightarrow> encoder \<Rightarrow> os \<Rightarrow> mf \<Rightarrow> bool" where
  "ce_inv s0 s1 m0 sc e s m \<longleftrightarrow>
     os_wf s0 \<and> os_wf s1 \<and> sc_mode_ok sc \<and> sc_backend_ok sc s \<and>
     os_refs s1 = (\<lambda>h. os_refs s0 h + count_list (sc_handles sc) h) \<and>
     (\<forall>h\<in>set (sc_handles sc). h < os_next s1) \<and>
     enc_inv s1 m0 (e, s, m) \<and> m_doMFStartup e \<and> m_doCoInitialize e"

subsection \<open>Lemmas\<close>

lemma sc_capture_gdi:
  assumes g: "sc_capgdi sc = Some g" and r: "gdi_ready g s" and wf: "os_wf s"
    and w: "gdi_width g \<noteq> 0" "unat (gdi_width g) < 2 ^ 27"
  shows "sc_capture scr denv sc s =
           (True, sc\<lparr>sc_capgdi := Some (g\<lparr>gdi_dibBits := Some (gdi_image scr g)\<rparr>)\<rparr>, s\<lparr>os_next := Suc (os_next s)\<rparr>)"
    and "os_wf (s\<lparr>os_next := Suc (os_next s)\<rparr>)"
    and "gdi_ready (g\<lparr>gdi_dibBits := Some (gdi_image scr g)\<rparr>) (s\<lparr>os_next := Suc (os_next s)\<rparr>)"
  using gdi_capture_ready [OF r wf w] gdi_capture_effect [OF wf gdi_capture_ready [OF r wf w]] g
    gdi_ready_after_capture [OF r]
  by (simp_all add: sc_capture_def)

lemma gdi_session_frame:
  assumes "sc_capgdi sc = Some g"
  shows "sc_frame_width sc = gdi_width g" "sc_frame_height sc = gdi_height g"
    and "cptr_buf (sc_frame_buffer sc) = gdi_dibBits g"
  using assms by (simp_all add: sc_frame_width_def sc_frame_height_def sc_frame_buffer_def option.map_ident)

lemma added_frame_screen:
  assumes "m_width e = gdi_width g" "m_height e = gdi_height g"
  shows "added_frame e (gdi_image scr g) True =
           concat (rev (map (screen_row scr (unat (gdi_width g))) [0..<unat (gdi_height g)]))"
proof -
  let ?rs = "map (screen_row scr (unat (gdi_width g))) [0..<unat (gdi_height g)]"
  have u: "uniform_rows (4 * unat (gdi_width g)) ?rs" by (simp add: uniform_rows_def)
  have "rows_of (4 * unat (gdi_width g)) (length ?rs) (concat ?rs) = ?rs" by (rule rows_of_concat [OF u])
  then show ?thesis
    using assms by (simp add: added_frame_def gdi_image_def length_gdi_image [of scr g, unfolded gdi_image_def])
qed

lemma writeframe_gdi_fields:
  assumes "WriteFrame env pW idx ts e s m = Inr (hr, s', m')"
  shows "os_dc_bmp s' = os_dc_bmp s \<and> os_bmp_dc s' = os_bmp_dc s"
  using assms by (auto simp: WriteFrame_def mf_simps Let_def split: if_splits option.splits)

lemma isw_gdi_fields:
  assumes "InitializeSinkWriter env filename e s m = Inr (hr, w, st, s', m')"
  shows "os_dc_bmp s' = os_dc_bmp s \<and> os_bmp_dc s' = os_bmp_dc s"
  using assms by (auto simp: InitializeSinkWriter_def isw_calls_def mf_simps split: if_splits)

lemma gdi_ready_same:
  assumes "gdi_ready g s" and "\<forall>h\<in>gdi_owned g. os_refs s' h = os_refs s h"
    and "os_dc_bmp s' = os_dc_bmp s" "os_bmp_dc s' = os_bmp_dc s"
  shows "gdi_ready g s'"
  using assms by (auto simp: gdi_ready_def gdi_owned_def split: option.splits)

lemma gdi_owned_below:
  assumes "gdi_ready g s" "os_wf s" "h \<in> gdi_owned g"
  shows "h < os_next s"
proof (rule ccontr)
  assume "\<not> h < os_next s"
  then have "os_refs s h = 0" using assms(2) by (simp add: os_wf_def)
  then show False using assms(1,3) by (auto simp: gdi_ready_def gdi_owned_def split: option.splits)
qed

lemma addframe_gdi:
  assumes ak: "\<forall>k. aenv k = S_OK" and r: "gdi_ready g' s" "os_wf s"
    and wd: "gdi_width g \<noteq> 0" "gdi_height g \<noteq> 0" "4 * unat (gdi_width g) * unat (gdi_height g) < 2 ^ 31"
    and enc: "m_pSinkWriter e = Some w" "m_stream e = 0" "mf_writing m w" "m_width e = gdi_width g"
             "m_height e = gdi_height g" "m_frameDuration e = 333333"
             "length (m_pixels e) = 4 * unat (gdi_width g) * unat (gdi_height g)"
    and i: "i < 500"
  shows "\<exists>s2 m2. AddFrame aenv (Some (gdi_image scr g)) True (of_nat (i * 333333)) e s m =
             Inr (True, e\<lparr>m_pixels := added_frame e (gdi_image scr g) True\<rparr>, s2, m2) \<and>
           os_refs s2 = os_refs s \<and> os_wf s2 \<and> os_next s \<le> os_next s2 \<and> mf_writing m2 = mf_writing m \<and>
           mf_url m2 = mf_url m \<and> mf_finalized m2 = mf_finalized m \<and>
           mf_startups m2 = mf_startups m \<and> mf_coinits m2 = mf_coinits m \<and> gdi_ready g' s2 \<and>
           mf_written m2 w = mf_written m w @ [capenc_sample scr (unat (gdi_width g)) (unat (gdi_height g)) i]"
proof -
  let ?img = "gdi_image scr g" and ?ts = "of_nat (i * 333333) :: 64 word"
  have fit: "4 * unat (m_width e) * unat (m_height e) < 2 ^ 31" "m_height e \<noteq> 0"
    and len: "length (m_pixels e) = 4 * unat (m_width e) * unat (m_height e)"
    and src: "4 * unat (m_width e) * unat (m_height e) \<le> length ?img"
    using wd enc by (simp_all add: length_gdi_image)
  have ne: "m_pixels e \<noteq> []" using len wd(1,2) enc(4,5) by (auto simp: unat_eq_zero)
  obtain s2 m2 where a: "AddFrame aenv (Some ?img) True ?ts e s m =
                           Inr (True, e\<lparr>m_pixels := added_frame e ?img True\<rparr>, s2, m2)"
      and wm: "mf_written m2 w = mf_written m w @ [capenc_sample scr (unat (gdi_width g)) (unat (gdi_height g)) i]"
    using addframe_success [OF ak enc(1-3) fit len ne src, where flipY = True and ts = ?ts and s = s]
          added_frame_screen [OF enc(4,5), of scr] frame_ts(1) [OF i] enc(6)
    by (auto simp: capenc_sample_def)
  obtain hr where wr: "WriteFrame aenv (m_pSinkWriter e) (m_stream e) ?ts (e\<lparr>m_pixels := added_frame e ?img True\<rparr>) s m =
                         Inr (hr, s2, m2)"
    using addframe_effect [OF a] by auto
  have eff: "os_refs s2 = os_refs s" "os_wf s2" "os_next s \<le> os_next s2" "mf_writing m2 = mf_writing m"
      "mf_url m2 = mf_url m" "mf_finalized m2 = mf_finalized m"
      "mf_startups m2 = mf_startups m" "mf_coinits m2 = mf_coinits m"
      "os_dc_bmp s2 = os_dc_bmp s" "os_bmp_dc s2 = os_bmp_dc s"
    using writeframe_effect [OF r(2) wr] writeframe_counts [OF wr] writeframe_gdi_fields [OF wr] by simp_all
  have "gdi_ready g' s2" using gdi_ready_same [OF r(1)] eff by simp
  then show ?thesis using a wm eff by blast
qed

lemma capenc_loop_gdi:
  assumes env: "\<forall>j k. snd (snd (snd (env j))) k = S_OK"
    and g: "sc_capgdi sc = Some g" "gdi_ready g s" "os_wf s"
    and wd: "gdi_width g \<noteq> 0" "gdi_height g \<noteq> 0" "unat (gdi_width g) < 2 ^ 27"
            "4 * unat (gdi_width g) * unat (gdi_height g) < 2 ^ 31"
    and enc: "m_pSinkWriter e = Some w" "m_stream e = 0" "mf_writing m w" "m_width e = gdi_width g"
             "m_height e = gdi_height g" "m_frameDuration e = 333333"
             "length (m_pixels e) = 4 * unat (gdi_width g) * unat (gdi_height g)"
    and nf: "0 < nf" and n: "i + n \<le> 100"
  shows "\<exists>sc' s' e' m'. capenc_loop env fin n i nf (of_nat (i * 333333)) sc s e m = Inr (True, nf + n, sc', s', e', m') \<and>
           (\<exists>g'. sc' = sc\<lparr>sc_capgdi := Some g'\<rparr> \<and> gdi_ready g' s' \<and> gdi_handles g' = gdi_handles g \<and>
                 gdi_width g' = gdi_width g \<and> gdi_height g' = gdi_height g) \<and>
           os_wf s' \<and> os_refs s' = os_refs s \<and> os_next s \<le> os_next s' \<and>
           m_pSinkWriter e' = Some w \<and> mf_writing m' w \<and> mf_url m' = mf_url m \<and> mf_finalized m' = mf_finalized m \<and>
           mf_startups m' = mf_startups m \<and> mf_coinits m' = mf_coinits m \<and>
           m_doMFStartup e' = m_doMFStartup e \<and> m_doCoInitialize e' = m_doCoInitialize e \<and>
           mf_written m' w = mf_written m w @
             map (\<lambda>j. capenc_sample (fst (env j)) (unat (gdi_width g)) (unat (gdi_height g)) j) [i..<i + n]"
  using g wd enc nf n
proof (induction n arbitrary: i nf sc g s e m)
  case 0
  then show ?case by (intro exI [of _ sc] exI [of _ s] exI [of _ e] exI [of _ m]) (auto intro: exI [of _ g])
next
  case (Suc n)
  obtain scr denv senv aenv where ev: "env i = (scr, denv, senv, aenv)" by (metis prod_cases4)
  have ak: "\<forall>k. aenv k = S_OK" using env ev by (metis snd_conv)
  have i: "i < 500" using Suc.prems(16) by simp
  let ?img = "gdi_image scr g"
  let ?g1 = "g\<lparr>gdi_dibBits := Some ?img\<rparr>"
  let ?sc1 = "sc\<lparr>sc_capgdi := Some ?g1\<rparr>"
  let ?s1 = "s\<lparr>os_next := Suc (os_next s)\<rparr>"
  have c: "sc_capture scr denv sc s = (True, ?sc1, ?s1)" and wf1: "os_wf ?s1" and r1: "gdi_ready ?g1 ?s1"
    using sc_capture_gdi [OF Suc.prems(1-3) Suc.prems(4,6)] by simp_all
  have fw: "sc_frame_width ?sc1 = gdi_width g" "cptr_buf (sc_frame_buffer ?sc1) = Some ?img"
    using gdi_session_frame [of ?sc1 ?g1] by simp_all
  let ?ts = "of_nat (i * 333333) :: 64 word"
  let ?smp = "capenc_sample scr (unat (gdi_width g)) (unat (gdi_height g)) i"
  obtain s2 m2 where a: "AddFrame aenv (Some ?img) True ?ts e ?s1 m = Inr (True, e\<lparr>m_pixels := added_frame e ?img True\<rparr>, s2, m2)"
      and eff: "os_refs s2 = os_refs ?s1" "os_wf s2" "os_next ?s1 \<le> os_next s2" "mf_writing m2 = mf_writing m"
      "mf_url m2 = mf_url m" "mf_finalized m2 = mf_finalized m"
      "mf_startups m2 = mf_startups m" "mf_coinits m2 = mf_coinits m"
      and r2: "gdi_ready ?g1 s2" and wm: "mf_written m2 w = mf_written m w @ [?smp]"
    using addframe_gdi [OF ak r1 wf1 Suc.prems(4,5,7) Suc.prems(8-14) i, of scr] by blast
  have src: "4 * unat (m_width e) * unat (m_height e) \<le> length ?img"
    using Suc.prems(11,12) by (simp add: length_gdi_image)
  let ?e2 = "e\<lparr>m_pixels := added_frame e ?img True\<rparr>"
  have ts': "?ts + ucast (m_frameDuration ?e2) = of_nat (Suc i * 333333)"
    using frame_ts(2) [OF i] Suc.prems(13) by simp
  have step: "capenc_loop env fin (Suc n) i nf ?ts sc s e m =
                capenc_loop env fin n (Suc i) (Suc nf) (of_nat (Suc i * 333333)) ?sc1 s2 ?e2 m2"
    using ev c fw a ts' Suc.prems(4,15) by (simp add: word_less_1 add.commute)
  have len2: "length (m_pixels ?e2) = 4 * unat (gdi_width ?g1) * unat (gdi_height ?g1)"
    using length_added_frame [OF src, of True] Suc.prems(11,12) by simp
  have p: "sc_capgdi ?sc1 = Some ?g1" "gdi_width ?g1 \<noteq> 0" "gdi_height ?g1 \<noteq> 0" "unat (gdi_width ?g1) < 2 ^ 27"
      "4 * unat (gdi_width ?g1) * unat (gdi_height ?g1) < 2 ^ 31"
      "m_pSinkWriter ?e2 = Some w" "m_stream ?e2 = 0" "mf_writing m2 w" "m_width ?e2 = gdi_width ?g1"
      "m_height ?e2 = gdi_height ?g1" "m_frameDuration ?e2 = 333333" "0 < Suc nf" "Suc i + n \<le> 100"
    using Suc.prems eff by simp_all
  obtain sc' s' e' m' where ih: "capenc_loop env fin n (Suc i) (Suc nf) (of_nat (Suc i * 333333)) ?sc1 s2 ?e2 m2 =
        Inr (True, Suc nf + n, sc', s', e', m')"
      "\<exists>g'. sc' = ?sc1\<lparr>sc_capgdi := Some g'\<rparr> \<and> gdi_ready g' s' \<and> gdi_handles g' = gdi_handles ?g1 \<and>
                 gdi_width g' = gdi_width ?g1 \<and> gdi_height g' = gdi_height ?g1"
      "os_wf s'" "os_refs s' = os_refs s2" "os_next s2 \<le> os_next s'"
      "m_pSinkWriter e' = Some w" "mf_writing m' w" "mf_url m' = mf_url m2" "mf_finalized m' = mf_finalized m2"
      "mf_startups m' = mf_startups m2" "mf_coinits m' = mf_coinits m2"
      "m_doMFStartup e' = m_doMFStartup ?e2" "m_doCoInitialize e' = m_doCoInitialize ?e2"
      "mf_written m' w = mf_written m2 w @
         map (\<lambda>j. capenc_sample (fst (env j)) (unat (gdi_width ?g1)) (unat (gdi_height ?g1)) j) [Suc i..<Suc i + n]"
    using Suc.IH [OF p(1) r2 eff(2) p(2-10) p(11) len2 p(12,13)] by blast
  have "[i..<i + Suc n] = i # [Suc i..<Suc i + n]" by (simp add: upt_rec)
  moreover have "fst (env i) = scr" using ev by simp
  ultimately show ?case
    using step ih wm eff by (auto simp: gdi_handles_def)
qed

lemma capenc_first_iteration:
  assumes ev: "env 0 = (scr, denv, senv, aenv)" and sk: "\<forall>k. senv k = S_OK" and ak: "\<forall>k. aenv k = S_OK"
    and g: "sc_capgdi sc = Some g" "gdi_ready g s" "os_wf s"
    and wd: "gdi_width g \<noteq> 0" "gdi_height g \<noteq> 0" "unat (gdi_width g) < 2 ^ 27"
            "4 * unat (gdi_width g) * unat (gdi_height g) < 2 ^ 31"
    and e: "m_pSinkWriter e = None"
  shows "\<exists>g1 s1 e1 m1. capenc_loop env fin (Suc n) 0 0 0 sc s e m =
           capenc_loop env fin n 1 1 (of_nat (1 * 333333)) (sc\<lparr>sc_capgdi := Some g1\<rparr>) s1 e1 m1 \<and>
           gdi_ready g1 s1 \<and> gdi_handles g1 = gdi_handles g \<and> gdi_width g1 = gdi_width g \<and>
           gdi_height g1 = gdi_height g \<and> os_wf s1 \<and> os_refs s1 = (os_refs s)(Suc (os_next s) := 1) \<and>
           os_next s < os_next s1 \<and>
           m_pSinkWriter e1 = Some (Suc (os_next s)) \<and> m_stream e1 = 0 \<and> mf_writing m1 (Suc (os_next s)) \<and>
           m_width e1 = gdi_width g \<and> m_height e1 = gdi_height g \<and> m_frameDuration e1 = 333333 \<and>
           length (m_pixels e1) = 4 * unat (gdi_width g) * unat (gdi_height g) \<and>
           m_doMFStartup e1 = m_doMFStartup e \<and> m_doCoInitialize e1 = m_doCoInitialize e \<and>
           mf_url m1 (Suc (os_next s)) = outputFilename \<and> \<not> mf_finalized m1 (Suc (os_next s)) \<and>
           (\<forall>h. mf_finalized m1 h \<longrightarrow> mf_finalized m h) \<and>
           mf_startups m1 = mf_startups m \<and> mf_coinits m1 = mf_coinits m \<and>
           mf_written m1 (Suc (os_next s)) = [capenc_sample scr (unat (gdi_width g)) (unat (gdi_height g)) 0]"
proof -
  let ?W = "gdi_width g" and ?H = "gdi_height g"
  let ?img = "gdi_image scr g"
  let ?g1 = "g\<lparr>gdi_dibBits := Some ?img\<rparr>" and ?s1 = "s\<lparr>os_next := Suc (os_next s)\<rparr>"
  let ?n = "Suc (os_next s)"
  have c: "sc_capture scr denv sc s = (True, sc\<lparr>sc_capgdi := Some ?g1\<rparr>, ?s1)" and wf1: "os_wf ?s1"
      and r1: "gdi_ready ?g1 ?s1"
    using sc_capture_gdi [OF g wd(1,3)] by simp_all
  have fw: "sc_frame_width (sc\<lparr>sc_capgdi := Some ?g1\<rparr>) = ?W" "sc_frame_height (sc\<lparr>sc_capgdi := Some ?g1\<rparr>) = ?H"
      "cptr_buf (sc_frame_buffer (sc\<lparr>sc_capgdi := Some ?g1\<rparr>)) = Some ?img"
    using gdi_session_frame [of "sc\<lparr>sc_capgdi := Some ?g1\<rparr>" ?g1] by simp_all
  define e2 where "e2 = e\<lparr>m_width := ?W, m_height := ?H, m_fps := 30, m_frameDuration := 10000000 div 30,
                       m_bitRate := of_nat (5 * unat (?W * ?H) div 2),
                       m_pixels := vec_resize (m_pixels e) (unat (?W * ?H) * 4)\<rparr>"
  have sff: "SetFrameFormat ?W ?H framesPerSecond e = Inr (True, e2)"
    using wd rate_fits [OF wd(4)] by (simp add: SetFrameFormat_def e2_def framesPerSecond_def Let_def word_less_1)
  let ?e3 = "e2\<lparr>m_pSinkWriter := None, m_stream := 0\<rparr>"
  obtain s3 m3 where isw: "InitializeSinkWriter senv outputFilename ?e3 ?s1 m = Inr (S_OK, Some ?n, 0, s3, m3)"
      and mf3: "mf_writing m3 ?n" "mf_written m3 ?n = []" "mf_url m3 ?n = outputFilename"
    using isw_success [OF sk, of outputFilename ?e3 ?s1 m] by auto
  let ?e4 = "?e3\<lparr>m_pSinkWriter := Some ?n, m_stream := 0\<rparr>"
  have st: "Start fin senv outputFilename ?W ?H framesPerSecond e ?s1 m = Inr (True, ?e4, s3, m3)"
    using start_fresh [OF e sff isw, of fin] by (simp add: SUCCEEDED_def)
  have eff3: "os_wf s3" "os_refs s3 = (os_refs ?s1)(?n := 1)" "os_next ?s1 < os_next s3"
      "mf_startups m3 = mf_startups m" "mf_coinits m3 = mf_coinits m" "\<not> mf_finalized m3 ?n"
      "\<forall>h. mf_finalized m3 h \<longrightarrow> mf_finalized m h"
      "os_dc_bmp s3 = os_dc_bmp ?s1" "os_bmp_dc s3 = os_bmp_dc ?s1"
    using isw_effect [OF wf1 isw] isw_writer [OF isw] isw_counts [OF isw] isw_frame [OF isw] isw_gdi_fields [OF isw]
    by (simp_all add: SUCCEEDED_def)
  have own: "\<forall>h\<in>gdi_owned ?g1. os_refs s3 h = os_refs ?s1 h"
    using gdi_owned_below [OF r1 wf1] eff3(2) by auto
  have r3: "gdi_ready ?g1 s3" by (rule gdi_ready_same [OF r1 own eff3(8,9)])
  have fit: "4 * unat (m_width ?e4) * unat (m_height ?e4) < 2 ^ 31" "m_height ?e4 \<noteq> 0"
    and src: "4 * unat (m_width ?e4) * unat (m_height ?e4) \<le> length ?img"
    using wd by (simp_all add: e2_def length_gdi_image)
  have enc4: "m_pSinkWriter ?e4 = Some ?n" "m_stream ?e4 = 0" "m_width ?e4 = ?W" "m_height ?e4 = ?H"
      "m_frameDuration ?e4 = 333333" "length (m_pixels ?e4) = 4 * unat ?W * unat ?H"
    using frame_arith2(1) [OF fit] by (simp_all add: e2_def)
  let ?smp = "capenc_sample scr (unat ?W) (unat ?H) 0"
  obtain s4 m4 where a: "AddFrame aenv (Some ?img) True 0 ?e4 s3 m3 = Inr (True, ?e4\<lparr>m_pixels := added_frame ?e4 ?img True\<rparr>, s4, m4)"
      and eff4: "os_refs s4 = os_refs s3" "os_wf s4" "os_next s3 \<le> os_next s4" "mf_writing m4 = mf_writing m3"
      "mf_url m4 = mf_url m3" "mf_finalized m4 = mf_finalized m3"
      "mf_startups m4 = mf_startups m3" "mf_coinits m4 = mf_coinits m3"
      and r4: "gdi_ready ?g1 s4" and wm: "mf_written m4 ?n = [?smp]"
    using addframe_gdi [OF ak r3 eff3(1) wd(1,2,4) enc4(1,2) mf3(1) enc4(3-6), of 0 scr] mf3(2) by auto
  let ?e5 = "?e4\<lparr>m_pixels := added_frame ?e4 ?img True\<rparr>"
  have ts: "0 + ucast (m_frameDuration ?e5) = (of_nat (1 * 333333) :: 64 word)"
    by (simp add: e2_def)
  have step: "capenc_loop env fin (Suc n) 0 0 0 sc s e m =
                capenc_loop env fin n 1 1 (of_nat (1 * 333333)) (sc\<lparr>sc_capgdi := Some ?g1\<rparr>) s4 ?e5 m4"
    using ev c fw st a ts wd(1) by (simp add: word_less_1)
  have len5: "length (m_pixels ?e5) = 4 * unat ?W * unat ?H"
    using length_added_frame [OF src, of True] by (simp add: e2_def)
  show ?thesis
    apply (rule exI [of _ ?g1], rule exI [of _ s4], rule exI [of _ ?e5], rule exI [of _ m4])
    using step r4 eff4 eff3 mf3 wm len5 by (simp add: gdi_handles_def e2_def)
qed

lemma set_gdi_handles: "set (gdi_handles g) = gdi_owned g"
  by (auto simp: gdi_handles_def gdi_owned_def split: option.splits)

lemma refs_restore_writer:
  assumes r1: "os_refs s1 = (\<lambda>h. os_refs s h + count_list hs h)" and r3: "os_refs s3 = (os_refs s1)(n := 1)"
    and n: "n \<notin> set hs" "os_next s \<le> n" and wf: "os_wf s"
  shows "(\<lambda>h. os_refs s3 h - count_list hs h)(n := os_refs s3 n - count_list hs n - 1) = os_refs s"
proof
  fix h
  have z: "os_refs s n = 0" using wf n(2) by (simp add: os_wf_def)
  have c: "count_list hs n = 0" using n(1) by (simp add: count_list_0_iff)
  show "((\<lambda>h. os_refs s3 h - count_list hs h)(n := os_refs s3 n - count_list hs n - 1)) h = os_refs s h"
    using r1 r3 z c by (cases "h = n") simp_all
qed

lemma enc_inv_store:
  assumes "enc_inv s0 m0 (e, s, m)" "os_refs s' = os_refs s" "os_wf s'" "os_next s \<le> os_next s'"
  shows "enc_inv s0 m0 (e, s', m)"
  using assms by (auto simp: writer_ok_def split: option.splits)

lemma enc_inv_refs_below:
  assumes "enc_inv s0 m0 (e, s, m)" "h < os_next s0"
  shows "os_refs s h = os_refs s0 h"
  using assms by (auto simp: writer_refs_def writer_ok_def split: option.splits)

lemma enc_inv_init:
  assumes "os_wf s0" "\<forall>h. os_next s0 \<le> h \<longrightarrow> \<not> mf_finalized m0 h"
    and "VideoFileEncoder doMFStartup doCoInitialize m0 = (e, m)"
  shows "enc_inv s0 m0 (e, s0, m)"
  using assms by (auto simp: VideoFileEncoder_def encoder_init_def writer_refs_def writer_ok_def frame_ok_def)

lemma stop_fields:
  "Stop fin e s m = (ok, e', s', m') \<Longrightarrow>
     os_dc_bmp s' = os_dc_bmp s \<and> os_bmp_dc s' = os_bmp_dc s \<and>
     m_doMFStartup e' = m_doMFStartup e \<and> m_doCoInitialize e' = m_doCoInitialize e"
  by (auto simp: Stop_def os_release_def Let_def split: option.splits)

lemma start_fields:
  assumes r: "Start fin env filename width height fps e s m = Inr (ok, e', s', m')"
  shows "os_dc_bmp s' = os_dc_bmp s \<and> os_bmp_dc s' = os_bmp_dc s \<and>
         m_doMFStartup e' = m_doMFStartup e \<and> m_doCoInitialize e' = m_doCoInitialize e"
proof -
  obtain e1 s1 m1 where c: "(if m_pSinkWriter e \<noteq> None then snd (Stop fin e s m) else (e, s, m)) = (e1, s1, m1)"
    by (metis prod_cases3)
  have f1: "os_dc_bmp s1 = os_dc_bmp s \<and> os_bmp_dc s1 = os_bmp_dc s \<and>
            m_doMFStartup e1 = m_doMFStartup e \<and> m_doCoInitialize e1 = m_doCoInitialize e"
  proof (cases "m_pSinkWriter e = None")
    case False
    obtain ok1 where "Stop fin e s m = (ok1, e1, s1, m1)" using c False by (metis prod.collapse if_True)
    then show ?thesis by (rule stop_fields)
  qed (use c in simp)
  show ?thesis
    using start_effect [OF r c]
  proof
    assume "\<not> ok \<and> e' = e1 \<and> s' = s1 \<and> m' = m1"
    then show ?thesis using f1 by simp
  next
    assume "\<exists>e2 hr w st. SetFrameFormat width height fps e1 = Inr (True, e2) \<and>
            InitializeSinkWriter env filename (e2\<lparr>m_pSinkWriter := None, m_stream := 0\<rparr>) s1 m1 = Inr (hr, w, st, s', m') \<and>
            e' = e2\<lparr>m_pSinkWriter := w, m_stream := st\<rparr> \<and> ok = SUCCEEDED hr"
    then obtain e2 hr w st where sff: "SetFrameFormat width height fps e1 = Inr (True, e2)"
        and isw: "InitializeSinkWriter env filename (e2\<lparr>m_pSinkWriter := None, m_stream := 0\<rparr>) s1 m1 = Inr (hr, w, st, s', m')"
        and e': "e' = e2\<lparr>m_pSinkWriter := w, m_stream := st\<rparr>"
      by blast
    have "m_doMFStartup e2 = m_doMFStartup e1 \<and> m_doCoInitialize e2 = m_doCoInitialize e1"
      using setframeformat_effect [OF sff] by auto
    then show ?thesis using isw_gdi_fields [OF isw] f1 e' by simp
  qed
qed

lemma addframe_fields:
  assumes "AddFrame env pixels flipY ts e s m = Inr (ok, e', s', m')"
  shows "os_dc_bmp s' = os_dc_bmp s \<and> os_bmp_dc s' = os_bmp_dc s \<and>
         m_doMFStartup e' = m_doMFStartup e \<and> m_doCoInitialize e' = m_doCoInitialize e"
  using addframe_effect [OF assms]
proof
  assume "\<exists>hr. WriteFrame env (m_pSinkWriter e) (m_stream e) ts e' s m = Inr (hr, s', m') \<and> ok = SUCCEEDED hr \<and>
               e' = e\<lparr>m_pixels := m_pixels e'\<rparr> \<and> length (m_pixels e') = length (m_pixels e)"
  then obtain hr where w: "WriteFrame env (m_pSinkWriter e) (m_stream e) ts e' s m = Inr (hr, s', m')"
      and e': "e' = e\<lparr>m_pixels := m_pixels e'\<rparr>" by blast
  have "m_doMFStartup e' = m_doMFStartup e" "m_doCoInitialize e' = m_doCoInitialize e"
    by (subst e', simp)+
  then show ?thesis using writeframe_gdi_fields [OF w] by simp
qed auto


lemma ce_inv_enc:
  assumes ce: "ce_inv s0 s1 m0 sc e s m" and inv: "enc_inv s1 m0 (e', s', m')"
    and f: "os_dc_bmp s' = os_dc_bmp s \<and> os_bmp_dc s' = os_bmp_dc s \<and>
            m_doMFStartup e' = m_doMFStartup e \<and> m_doCoInitialize e' = m_doCoInitialize e"
  shows "ce_inv s0 s1 m0 sc e' s' m'"
proof -
  have i: "enc_inv s1 m0 (e, s, m)" "\<forall>h\<in>set (sc_handles sc). h < os_next s1" "sc_backend_ok sc s"
    using ce by (simp_all add: ce_inv_def)
  have "\<forall>h\<in>set (sc_handles sc). os_refs s' h = os_refs s h"
    using enc_inv_refs_below [OF i(1)] enc_inv_refs_below [OF inv] i(2) by simp
  then have "sc_backend_ok sc s'" using sc_backend_ok_same [OF i(3)] f by simp
  then show ?thesis using ce inv f by (simp add: ce_inv_def)
qed

lemma ce_capture:
  assumes ce: "ce_inv s0 s1 m0 sc e s m" and cap: "sc_capture scr denv sc s = (ok, sc', s')"
  shows "ce_inv s0 s1 m0 sc' e s' m"
proof -
  have i: "enc_inv s1 m0 (e, s, m)" "sc_mode_ok sc" "sc_backend_ok sc s"
    using ce by (simp_all add: ce_inv_def)
  have wf: "os_wf s" using i(1) by simp
  note eff = sc_capture_effect [OF wf i(2,3) cap]
  have "enc_inv s1 m0 (e, s', m)" using enc_inv_store [OF i(1), of s'] eff by simp
  then show ?thesis using ce eff by (simp add: ce_inv_def)
qed

lemma ce_start:
  assumes ce: "ce_inv s0 s1 m0 sc e s m"
    and r: "Start fin env filename width height fps e s m = Inr (ok, e', s', m')"
  shows "ce_inv s0 s1 m0 sc e' s' m'"
proof -
  have "enc_inv s1 m0 (e, s, m)" "os_wf s1" using ce by (simp_all add: ce_inv_def)
  from inv_start [OF this r] show ?thesis by (rule ce_inv_enc [OF ce _ start_fields [OF r]])
qed

lemma ce_addframe:
  assumes ce: "ce_inv s0 s1 m0 sc e s m"
    and r: "AddFrame env pixels flipY ts e s m = Inr (ok, e', s', m')"
  shows "ce_inv s0 s1 m0 sc e' s' m'"
proof -
  have "enc_inv s1 m0 (e, s, m)" using ce by (simp add: ce_inv_def)
  from inv_addframe [OF this r] show ?thesis by (rule ce_inv_enc [OF ce _ addframe_fields [OF r]])
qed

lemma ce_stop:
  assumes ce: "ce_inv s0 s1 m0 sc e s m" and r: "Stop fin e s m = (ok, e', s', m')"
  shows "ce_inv s0 s1 m0 sc e' s' m'"
proof -
  have "enc_inv s1 m0 (e, s, m)" "os_wf s1" using ce by (simp_all add: ce_inv_def)
  from inv_stop [OF this, of fin] r have "enc_inv s1 m0 (e', s', m')" by simp
  then show ?thesis by (rule ce_inv_enc [OF ce _ stop_fields [OF r]])
qed

lemma ce_shutdown:
  assumes ce: "ce_inv s0 s1 m0 sc e s m" and sd: "sc_shutdown sc s = (sc', s')"
  shows "ce_inv s0 (s1\<lparr>os_refs := os_refs s0\<rparr>) m0 sc' e s' m \<and> sc_handles sc' = [] \<and>
         sc_mode sc' = ScreenCaptureMode_Invalid"
proof -
  have i: "os_wf s0" "os_wf s1" "sc_mode_ok sc" "sc_backend_ok sc s"
      "os_refs s1 = (\<lambda>h. os_refs s0 h + count_list (sc_handles sc) h)"
      "\<forall>h\<in>set (sc_handles sc). h < os_next s1" "enc_inv s1 m0 (e, s, m)"
    using ce by (simp_all add: ce_inv_def)
  note eff = sc_shutdown_effect [OF i(3,4) sd]
  let ?s1 = "s1\<lparr>os_refs := os_refs s0\<rparr>"
  have sc': "sc_handles sc' = []" "sc_mode_ok sc'" "sc_backend_ok sc' s'" "sc_mode sc' = ScreenCaptureMode_Invalid"
    using eff by (simp_all add: sc_handles_def sc_mode_ok_def sc_backend_ok_def)
  have wf1: "os_wf ?s1" using i(1,2,5) by (auto simp: os_wf_def)
  have nw: "\<forall>w. m_pSinkWriter e = Some w \<longrightarrow> count_list (sc_handles sc) w = 0"
    using i(6,7) by (auto simp: writer_ok_def count_list_0_iff)
  have refs: "os_refs s' = writer_refs ?s1 (m_pSinkWriter e)"
  proof
    fix h
    show "os_refs s' h = writer_refs ?s1 (m_pSinkWriter e) h"
      using eff i(5,7) nw by (auto simp: writer_refs_def split: option.splits)
  qed
  have "enc_inv ?s1 m0 (e, s', m)"
    using i(7) eff refs by (auto simp: writer_ok_def os_wf_def split: option.splits)
  then show ?thesis using ce sc' wf1 by (simp add: ce_inv_def)
qed

lemma ce_exit:
  assumes ce: "ce_inv s0 s1 m0 sc e s m" and x: "capenc_exit fin r nf sc e s m = (r', nf', sc', s', m')"
  shows "os_refs s' = os_refs s0 \<and> mf_startups m' = mf_startups m0 \<and> mf_coinits m' = mf_coinits m0 \<and>
         sc_mode sc' = ScreenCaptureMode_Invalid"
proof -
  obtain ok e1 s2 m2 where st: "Stop fin e s m = (ok, e1, s2, m2)" by (metis prod_cases4)
  have c2: "ce_inv s0 s1 m0 sc e1 s2 m2" by (rule ce_stop [OF ce st])
  have n: "m_pSinkWriter e1 = None" using stop_writer_none [of fin e s m] st by simp
  have fl: "m_doMFStartup e1" "m_doCoInitialize e1" and cnt: "mf_startups m2 = Suc (mf_startups m0)"
      "mf_coinits m2 = Suc (mf_coinits m0)"
    using c2 by (simp_all add: ce_inv_def)
  obtain sc3 s3 where sd: "sc_shutdown sc s2 = (sc3, s3)" by (metis prod.exhaust)
  have "ce_inv s0 (s1\<lparr>os_refs := os_refs s0\<rparr>) m0 sc3 e1 s3 m2 \<and> sc_mode sc3 = ScreenCaptureMode_Invalid"
    using ce_shutdown [OF c2 sd] by simp
  then have r3: "os_refs s3 = os_refs s0" "sc_mode sc3 = ScreenCaptureMode_Invalid"
    using n by (simp_all add: ce_inv_def writer_refs_def)
  have "capenc_exit fin r nf sc e s m =
          (r, nf, sc3, s3, m2\<lparr>mf_startups := mf_startups m2 - 1, mf_coinits := mf_coinits m2 - 1\<rparr>)"
    using st sd fl by (simp add: capenc_exit_def VideoFileEncoder_destroy_def)
  then show ?thesis using x r3 cnt by simp
qed

lemma ce_loop:
  assumes "ce_inv s0 s1 m0 sc e s m"
    and "capenc_loop env fin n i nf ts sc s e m = Inr (ok, nf', sc', s', e', m')"
  shows "ce_inv s0 s1 m0 sc' e' s' m'"
  using assms
proof (induction n arbitrary: i nf ts sc s e m)
  case 0
  then show ?case by simp
next
  case (Suc n)
  obtain scr denv senv aenv where ev: "env i = (scr, denv, senv, aenv)" by (metis prod_cases4)
  obtain ok1 sc1 s2 where c: "sc_capture scr denv sc s = (ok1, sc1, s2)" by (metis prod_cases3)
  have i1: "ce_inv s0 s1 m0 sc1 e s2 m" by (rule ce_capture [OF Suc.prems(1) c])
  have r: "capenc_loop env fin (Suc n) i nf ts sc s e m = Inr (ok, nf', sc', s', e', m')" by (rule Suc.prems(2))
  show ?case
  proof (cases "\<not> ok1 \<or> sc_frame_width sc1 < 1")
    case True
    then show ?thesis using r ev c Suc.IH [OF i1] by simp
  next
    case cap: False
    obtain r0 where r0: "(if nf = 0 then Start fin senv outputFilename (sc_frame_width sc1) (sc_frame_height sc1)
                                            framesPerSecond e s2 m
                          else Inr (True, e, s2, m)) = r0" by simp
    have r': "(case r0 of Inl err \<Rightarrow> Inl err
             | Inr (sok, e1, s3, m1) \<Rightarrow>
                 if \<not> sok then Inr (False, nf, sc1, s3, e1, m1)
                 else (case AddFrame aenv (cptr_buf (sc_frame_buffer sc1)) True ts e1 s3 m1 of
                         Inl err \<Rightarrow> Inl err
                       | Inr (aok, e2, s4, m2) \<Rightarrow>
                           if \<not> aok then Inr (False, nf, sc1, s4, e2, m2)
                           else capenc_loop env fin n (Suc i) (Suc nf) (ts + ucast (m_frameDuration e2)) sc1 s4 e2 m2)) =
              Inr (ok, nf', sc', s', e', m')"
      using r ev c cap r0 by simp
    obtain sok e1 s3 m1 where v: "r0 = Inr (sok, e1, s3, m1)"
      using r' by (cases r0) auto
    have i2: "ce_inv s0 s1 m0 sc1 e1 s3 m1"
      using r0 v i1 by (cases "nf = 0") (auto intro: ce_start [OF i1])
    show ?thesis
    proof (cases sok)
      case False
      then show ?thesis using r' v i2 by simp
    next
      case True
      obtain aok e2 s4 m2 where a: "AddFrame aenv (cptr_buf (sc_frame_buffer sc1)) True ts e1 s3 m1 = Inr (aok, e2, s4, m2)"
        using r' v True by (auto split: sum.splits)
      have i3: "ce_inv s0 s1 m0 sc1 e2 s4 m2" by (rule ce_addframe [OF i2 a])
      show ?thesis using r' v True a Suc.IH [OF i3] i3 by (cases aok) auto
    qed
  qed
qed

end
