(* ===== verification/Spec2Isabelle.thy ===== *)
theory Spec2Isabelle
  imports CapEncTest
begin

text \<open>
  \<^bold>\<open>Screen capture engine of ammon-c/screencap: a verification development.\<close>

  The program captures the display into an in-memory 32-bit pixel buffer through one of
  two backends behind a thin facade:
  \<^item> \<open>ScreenCapture\<close> (src/ScreenCap.h): the facade; selects a backend by
    \<open>ScreenCaptureMode\<close>, forwards \<open>Startup\<close>, \<open>Shutdown\<close>, \<open>CaptureFrame\<close> and the
    frame-metadata and pixel-pointer accessors, and returns zero defaults with no backend;
  \<^item> \<open>ScreenCaptureGDI\<close> (src/ScreenCapGDI.h, src/ScreenCapGDI.cpp): sizes a DIB section
    from the system metrics, \<open>BitBlt\<close>s the screen into it and reverses the bottom-up
    scanlines in place;
  \<^item> \<open>ScreenCaptureDX11\<close> (src/ScreenCapDX11.h, src/ScreenCapDX11.cpp): negotiates a
    Direct3D 11 device and a DXGI output duplication, acquires frames with a bounded retry
    loop, copies them through a CPU-readable staging texture and releases the frame;
  \<^item> src/captest.cpp: a test program that starts a session, captures 100 times and writes
    every frame to a .BMP file with its helper \<open>BmpWrite\<close>;
  \<^item> \<open>VideoFileEncoder\<close> (src/VideoFileEncoder.h, src/VideoFileEncoder.cpp): encodes
    frames to a video file through a Media Foundation sink writer; src/encodetest.cpp
    drives it with generated frames and src/capenctest.cpp with captured screens.

  Theories, in import order, and what they model:
  \<^item> \<open>Prelude\<close>: the machine types (\<open>byte\<close>, \<open>u32\<close> as 8- and 32-bit words),
    \<open>memcpy\<close> on byte buffers (\<open>buf_read\<close>, \<open>buf_write\<close>), the scanline view
    \<open>rows_of\<close> the list lemmas shared by all components (collection \<open>rows_simps\<close>), the interval lemmas of handle lists and the small-word reading \<open>sint_small\<close>.
  \<^item> \<open>Scanlines\<close>: the in-place flip loop of GDI \<open>CaptureFrame\<close> (\<open>flip_loop\<close>,
    \<open>flip_scanlines\<close>); C1: it reverses the rows.  The start offset \<open>(h - 1) * stride\<close>
    is a natural number here, where ScreenCapGDI.cpp:153 computes it in 32 bits; the two agree
    for every frame below 4 GiB; the wrap for larger frames is not represented.
  \<^item> \<open>Platform\<close>: the Windows objects the backends use, as an object store \<open>os\<close> with
    reference counts (GDI DCs and bitmaps, COM references), the bitmap selected into each DC,
    texture contents, the duplication's queue of pending frames and a millisecond clock that
    records the worst-case duration of the calls that wait.
    The system calls are executable functions on it; \<open>os_wf\<close> says no handle at or above
    \<open>os_next\<close> is alive.
  \<^item> \<open>GDI\<close>: the class's fields as the record \<open>gdi\<close>; \<open>gdi_startup\<close>,
    \<open>gdi_capture\<close>, \<open>gdi_shutdown\<close> are \<open>Startup\<close>, \<open>CaptureFrame\<close>, \<open>Shutdown\<close>;
    \<open>gdi_ready\<close> is the invariant of a started backend.  C3-C5, C7, C8: top-down
    pixels, leak freedom of Startup and of Startup;Shutdown, failing capture when not started,
    the frame metadata a successful Startup sets.
  \<^item> \<open>DX11\<close>: the record \<open>dx11\<close>, \<open>InitializeDevice\<close> with its driver/feature-level
    loop, \<open>StartOutputDuplication\<close>, \<open>AcquireNextFrame\<close> (\<open>acquire_loop\<close>),
    \<open>CreateStagingTexture\<close>, \<open>CopyStagingTextureToMemory\<close>, \<open>dx11_capture\<close>,
    \<open>dx11_startup\<close>, \<open>dx11_shutdown\<close>; \<open>CComPtr\<close> scope exits are written out as
    releases.  C9-C18: no COM reference leaks, the time bound of a capture, the failure and
    success paths, the device-selection specification, and two defects (a stuck frame after a
    format mismatch, a device kept after a failed Startup).
  \<^item> \<open>Session\<close>: the facade as the record \<open>session\<close> with \<open>sc_startup\<close>,
    \<open>sc_shutdown\<close>, \<open>sc_capture\<close> and the accessors; any sequence of facade calls is the
    inductive \<open>sc_reach\<close> over \<open>sc_step\<close>, and \<open>sc_inv\<close>, proved by rule induction,
    ties the mode to the backend that exists and the reference counts to the backend's
    handles.  The backends' inline pointer accessors (\<open>gdi_scanline_ptr\<close>,
    \<open>dx11_pixel_ptr\<close>, ...) are defined there too, and \<open>sc_pointers_backend\<close> shows that
    the facade's recomposed pointers equal them whenever the backend has pixel memory.  C19-C24: exactly one backend, no leak after Shutdown or a mode switch, zero
    defaults, the backend kept after a failed Startup, the pixel pointer in bounds.
  \<^item> \<open>BmpWrite\<close>: \<open>BmpWrite\<close> of src/captest.cpp over a file system (a map from paths to
    contents; \<open>fopen "wb"\<close> creates or truncates, \<open>fwrite\<close> appends, \<open>_unlink\<close>
    removes), the two header structures as their little-endian memory images, the
    \<open>outStride\<close> rounding loop (\<open>out_stride_align\<close>, a \<open>function\<close> with a measure) and the
    bottom-up row loop \<open>bmp_rows\<close>.  C25-C27: the header and rows read back, the rounding,
    cleanup on every failure.  A read past the caller's buffer is undefined behaviour in the
    code; \<open>bmp_rows\<close> reads through \<open>buf_read\<close>, which truncates there, so C25 assumes
    that every row lies inside the buffer, and the over-read that the argument check admits
    (captest.cpp:116) is a finding, not a theorem.
  \<^item> \<open>CapTest\<close>: the \<open>main\<close> of src/captest.cpp (\<open>captest_main\<close>, the loop
    \<open>cap_loop\<close>, mode parsing, the frame file names).  C29, C30, C32: no leak on any return
    path, only the frame files are written, and with the GDI backend the program runs to
    completion and writes all 100 frames; C2: each of those files is a 32-bit BMP of its own
    iteration's screen, rows bottom-up (the GDI flip and BmpWrite's row loop composed);
    \<open>frame_name_inj\<close>: distinct frame names.
  \<^item> \<open>Encoder\<close>: \<open>VideoFileEncoder\<close> (src/VideoFileEncoder.h/.cpp).  The fields are the
    record \<open>encoder\<close>; Media Foundation is the record \<open>mf\<close> (startup and COM-init counts,
    media types, and per sink writer its URL, stream types, writing/finalized flags and the
    samples written), COM objects are handles of the platform store.  Every Media Foundation
    call is a constructor of \<open>mf_call\<close>, executed by \<open>mf_call_exec\<close> with the \<open>HRESULT\<close>
    the environment \<open>mf_env\<close> gives it; the \<open>if (SUCCEEDED(hr))\<close> chains are
    \<open>mf_chain\<close>.  \<open>SetFrameFormat\<close>, \<open>InitializeSinkWriter\<close>, \<open>WriteFrame\<close>, the
    constructor \<open>VideoFileEncoder\<close>, the destructor \<open>VideoFileEncoder_destroy\<close>,
    \<open>SetEncodingFormat\<close>, \<open>Start\<close>, \<open>Stop\<close> and \<open>AddFrame\<close> are one definition each;
    undefined behaviour (a call through a null pointer, a copy out of bounds, a \<open>double\<close>
    out of the range of \<open>uint32_t\<close>) is an \<open>enc_error\<close> on the left of the result.
    C33, C34, C36, C37: AddFrame writes exactly the (flipped) frame, a null dereference after
    Stop, clean failure of InitializeSinkWriter, and what Start configures.
  \<^item> \<open>EncoderLife\<close>: the public calls as a \<open>datatype\<close> of operations executed by
    \<open>enc_exec\<close>, the configurations reachable from the constructor (the inductive
    \<open>enc_reach\<close>, for any answers of the system), and the abstract recorder (\<open>recorder\<close>,
    \<open>rec_step\<close>) with the abstraction \<open>enc_abs\<close>.  C38: the destructor releases every
    reference but leaves an \<open>MFStartup\<close>/\<open>CoInitializeEx\<close> when a flag is clear; C39: the
    invariant \<open>enc_inv\<close> of every reachable configuration, by rule induction; C40: the class
    refines the recorder when every call succeeds and the caller keeps the contract
    \<open>enc_pre\<close>.
  \<^item> \<open>EncodeTest\<close>: the \<open>main\<close> of src/encodetest.cpp (\<open>encodetest_main\<close>, the frame loop
    \<open>encode_loop\<close>, the in-place fill loop \<open>fill_frame\<close> with its \<open>& 0x7F\<close>).  C35: with
    every call succeeding it writes the 500 generated frames, finalizes the file and releases
    everything; C28: the double \<open>CoUninitialize\<close> of its \<open>Start\<close> failure path.
  \<^item> \<open>CapEncTest\<close>: the \<open>main\<close> of src/capenctest.cpp, the composition of the three parts:
    \<open>capenctest_main\<close> threads one platform store through the session and the encoder and
    one Media Foundation state through the encoder; \<open>capenc_loop\<close> is its 100-iteration
    loop (capture; on the first frame \<open>Start\<close> with the frame size; \<open>AddFrame\<close> flipped;
    advance the timestamp by \<open>GetFrameDuration\<close>), \<open>capenc_exit\<close> the destructors at each
    return.  Iteration \<open>j\<close> gets its screen and its system answers from \<open>env j\<close>.  Its lemmas
    carry the GDI readiness invariant \<open>gdi_ready\<close> across the encoder's calls (they touch
    only handles above those the session owns) and give the loop's effect by induction on the
    iterations left.  The loop invariant \<open>ce_inv\<close> combines the facade's well-formedness
    on the shared store with the encoder's \<open>enc_inv\<close>, taken relative to the store after the
    session's Startup; it is kept by captures, \<open>Start\<close>, \<open>AddFrame\<close> and \<open>Stop\<close>
    (\<open>ce_capture\<close>, \<open>ce_start\<close>, \<open>ce_addframe\<close>, \<open>ce_stop\<close>, \<open>ce_loop\<close>), survives the
    session's Shutdown with the base store rewound (\<open>ce_shutdown\<close>), and gives back every
    reference at each return (\<open>ce_exit\<close>).  C6, stated in this root theory: started on a
    well-formed store on which no sink writer still to be created is already finalized, the
    program leaks nothing on any return path, for any environment.  C31, stated here as well: with the GDI backend and every call succeeding the
    program records the 100 screens, bottom-up and at timestamps \<open>j * 333333\<close>, into a
    finalized \<open>test.mp4\<close> and restores every reference and initialization count.  With the
    DX11 backend the frame's rows are \<open>RowPitch\<close> bytes apart, which \<open>AddFrame\<close>
    (reading rows of \<open>4 * width\<close> bytes) does not take into account.

  Bounds and their reasons.  The acquire loop runs at most 4 attempts (the source's
  \<open>attempt < 4\<close>), each waiting at most 50 ms plus \<open>Sleep(1)\<close>, so a capture waits at
  most 204 ms.  The duplication's queue does not record when a result arrives, so every
  \<open>AcquireNextFrame\<close> that waits is charged its whole timeout; the clock is an upper bound
  of the real time, which is what the bound needs.  Pixel offsets are computed in 32-bit unsigned arithmetic in the code; the
  theorems that relate them to the buffer assume the frame width is below \<open>2^27\<close> (so that
  \<open>4 * width\<close> and the stride do not wrap), and the BmpWrite theorems assume that
  \<open>stride * (height - 1)\<close> does not wrap; where the wrap matters it is stated (C26, and the
  findings).  The encoder theorems about a written frame assume \<open>4 * width * height < 2^31\<close>,
  so that neither the 32-bit product nor the \<open>LONG\<close> stride \<open>cbWidth\<close> wraps; without it
  the model shows the wrapped sizes the code computes.  No loop of the model needs fuel: every loop of the source is bounded and is a
  structural or measured recursion.

  Not modelled:
  \<^item> Media Foundation's own encoding: the model keeps the samples a sink writer receives and
    whether it was finalized, not the compressed file it produces.
  \<^item> the Windows internals behind the system calls (the compositor, the drivers, the file
    system's own failures): they are inputs of the model (\<open>gdi_env\<close>, \<open>dx11_env\<close>, the
    duplication's queue, \<open>bmp_io\<close>), so every theorem holds for every answer they give.
  \<^item> \<open>printf\<close>, the usage text and the \<open>GetTickCount64\<close> statistics of the test programs,
    which change no state the program reads again.
\<close>

text \<open>C6: capenctest's \<open>main\<close> (src/capenctest.cpp) leaks nothing on any return path, for
  every command line, every screen and every answer of GDI, DXGI and Media Foundation,
  started on a well-formed store on which no sink writer still to be created is already
  finalized: when
  it returns without undefined behaviour (bad arguments, failed Startup, failed
  \<open>SetEncodingFormat\<close>, \<open>Start\<close> or \<open>AddFrame\<close> inside the loop, failed or successful
  \<open>Stop\<close>), every platform reference count is as before, the encoder's \<open>MFStartup\<close> and
  \<open>CoInitializeEx\<close> are undone, and the session has no backend.  The early returns rely on the
  destructors of \<open>encoder\<close> and \<open>cap\<close>.\<close>

theorem capenctest_no_leak:
  assumes wf: "os_wf s" and fresh: "\<forall>h. os_next s \<le> h \<longrightarrow> \<not> mf_finalized m h"
    and r: "capenctest_main argv genv denv env fin s m = Inr (ret, nf, sc', s', m')"
  shows "os_refs s' = os_refs s \<and> mf_startups m' = mf_startups m \<and> mf_coinits m' = mf_coinits m \<and>
         sc_mode sc' = ScreenCaptureMode_Invalid"
proof (cases "length argv < 2 \<or> parse_mode (argv ! 1) = ScreenCaptureMode_Invalid")
  case True
  then have "capenctest_main argv genv denv env fin s m = Inr (-1, 0, session_init, s, m)"
    by (auto simp: capenctest_main_def)
  then show ?thesis using r by (simp add: session_init_def)
next
  case args: False
  let ?mode = "parse_mode (argv ! 1)"
  obtain ok sc1 s1 where st: "sc_startup genv denv ?mode session_init s = (ok, sc1, s1)" by (metis prod_cases3)
  have inv1: "sc_inv s (sc1, s1)" using sc_startup_inv [OF wf sc_inv_init [OF wf] st] by simp
  show ?thesis
  proof (cases ok)
    case False
    obtain sc2 s2 where sd: "sc_shutdown sc1 s1 = (sc2, s2)" by (metis prod.exhaust)
    have "capenctest_main argv genv denv env fin s m = Inr (-1, 0, sc2, s2, m)"
      using args st sd False by (simp add: capenctest_main_def)
    then show ?thesis using r sc_shutdown_inv [OF wf inv1 sd] by simp
  next
    case True
    obtain e0 m0 where vf: "VideoFileEncoder True True m = (e0, m0)" by (metis prod.exhaust)
    let ?e1 = "e0\<lparr>m_encodingFormat := MFVideoFormat_H264\<rparr>"
    have i: "os_wf s1" "os_next s \<le> os_next s1" "sc_mode_ok sc1" "sc_backend_ok sc1 s1"
        "os_refs s1 = (\<lambda>h. os_refs s h + count_list (sc_handles sc1) h)"
      using inv1 by (simp_all add: sc_inv_def)
    have below: "\<forall>h\<in>set (sc_handles sc1). h < os_next s1"
    proof
      fix h assume "h \<in> set (sc_handles sc1)"
      then have "os_refs s1 h \<noteq> 0" using i(5) by (simp add: count_list_0_iff)
      then show "h < os_next s1" using i(1) unfolding os_wf_def by (metis leI)
    qed
    have "enc_inv s1 m (e0, s1, m0)" using enc_inv_init [OF i(1) _ vf] fresh i(2) by auto
    then have "enc_inv s1 m (?e1, s1, m0)"
      using vf by (auto simp: frame_ok_def writer_ok_def VideoFileEncoder_def encoder_init_def)
    moreover have "m_doMFStartup ?e1" "m_doCoInitialize ?e1" using vf [symmetric] by (simp_all add: VideoFileEncoder_def encoder_init_def)
    ultimately have ce: "ce_inv s s1 m sc1 ?e1 s1 m0" using wf i below by (simp add: ce_inv_def)
    have main: "capenctest_main argv genv denv env fin s m =
        (case capenc_loop env fin 100 0 0 0 sc1 s1 ?e1 m0 of
           Inl err \<Rightarrow> Inl err
         | Inr (lok, numFrames, sc2, s2, e2, m2) \<Rightarrow>
             if \<not> lok then Inr (capenc_exit fin (-1) numFrames sc2 e2 s2 m2)
             else
               (case sc_shutdown sc2 s2 of (sc3, s3) \<Rightarrow>
                case Stop fin e2 s3 m2 of (stok, e3, s4, m3) \<Rightarrow>
                  Inr (capenc_exit fin (if stok then 0 else -1) numFrames sc3 e3 s4 m3)))"
      using args st True vf by (simp add: capenctest_main_def SetEncodingFormat_def Let_def)
    obtain lok n2 sc2 s2 e2 m2 where l: "capenc_loop env fin 100 0 0 0 sc1 s1 ?e1 m0 = Inr (lok, n2, sc2, s2, e2, m2)"
      using r main by (auto split: sum.splits)
    have c2: "ce_inv s s1 m sc2 e2 s2 m2" by (rule ce_loop [OF ce l])
    show ?thesis
    proof (cases lok)
      case False
      then show ?thesis using r main l ce_exit [OF c2] by (auto split: prod.splits)
    next
      case True
      obtain sc3 s3 where sd: "sc_shutdown sc2 s2 = (sc3, s3)" by (metis prod.exhaust)
      obtain stok e3 s4 m3 where sp: "Stop fin e2 s3 m2 = (stok, e3, s4, m3)" by (metis prod_cases4)
      have c4: "ce_inv s (s1\<lparr>os_refs := os_refs s\<rparr>) m sc3 e3 s4 m3"
        using ce_stop [OF conjunct1 [OF ce_shutdown [OF c2 sd]] sp] .
      show ?thesis using r main l True sd sp ce_exit [OF c4] by (auto split: prod.splits)
    qed
  qed
qed

theorem capenctest_no_leak_witness:
  "\<exists>ret nf sc' s' m'. capenctest_main [''capenctest'', ''gdi''] (example_small_env\<lparr>dc_alloc_ok := False\<rparr>) example_dx_env
       (\<lambda>_. (example_screen, example_dx_env, \<lambda>_. S_OK, \<lambda>_. S_OK)) S_OK empty_os mf_init =
       Inr (ret, nf, sc', s', m') \<and>
     os_refs s' = os_refs empty_os \<and> mf_startups m' = mf_startups mf_init \<and> mf_coinits m' = mf_coinits mf_init \<and>
     sc_mode sc' = ScreenCaptureMode_Invalid"
proof -
  let ?genv = "example_small_env\<lparr>dc_alloc_ok := False\<rparr>"
  let ?env = "\<lambda>_::nat. (example_screen, example_dx_env, \<lambda>_::nat. S_OK, \<lambda>_::nat. S_OK)"
  obtain ok sc1 s1 where st: "sc_startup ?genv example_dx_env ScreenCaptureMode_GDI session_init empty_os = (ok, sc1, s1)"
    by (metis prod_cases3)
  have nok: "\<not> ok" using st
    by (simp add: sc_startup_def session_init_def gdi_startup_def Let_def create_compatible_dc_def split: prod.splits)
  obtain sc2 s2 where sd: "sc_shutdown sc1 s1 = (sc2, s2)" by (metis prod.exhaust)
  have r: "capenctest_main [''capenctest'', ''gdi''] ?genv example_dx_env ?env S_OK empty_os mf_init =
             Inr (-1, 0, sc2, s2, mf_init)"
    using st sd nok by (simp add: capenctest_main_def parse_mode_gdi)
  show ?thesis
    using capenctest_no_leak [OF os_wf_empty_os _ r] r by (simp add: mf_init_def)
qed

text \<open>C31: the capture-to-video program of src/capenctest.cpp, run with the GDI backend on a
  screen whose allocations succeed and whose frame fits the encoder's 32-bit sizes, and with
  every Media Foundation call succeeding, runs to its end: it returns 0 after 100 captured
  frames, the file \<open>test.mp4\<close> is finalized and holds the 100 screens of the iterations in
  order, each bottom-up at its timestamp \<open>j * 333333\<close>, and the platform objects and the
  \<open>MFStartup\<close>/\<open>CoInitializeEx\<close> counts are as before.\<close>

theorem capenctest_gdi_records_screen:
  assumes argv: "2 \<le> length argv" "parse_mode (argv ! 1) = ScreenCaptureMode_GDI" and wf: "os_wf s"
    and dc: "dc_alloc_ok genv" and dib: "dib_alloc_ok genv" and sz: "gdi_screen_size genv = (w, h)"
    and wd: "w \<noteq> 0" "h \<noteq> 0" "unat w < 2 ^ 27" "4 * unat w * unat h < 2 ^ 31"
    and senv: "\<forall>k. fst (snd (snd (env 0))) k = S_OK" and aenv: "\<forall>j k. snd (snd (snd (env j))) k = S_OK"
    and fin: "SUCCEEDED fin"
  shows "\<exists>sc' s' m'. capenctest_main argv genv denv env fin s m = Inr (0, 100, sc', s', m') \<and>
           os_refs s' = os_refs s \<and> mf_startups m' = mf_startups m \<and> mf_coinits m' = mf_coinits m \<and>
           (\<exists>wr. mf_finalized m' wr \<and> mf_url m' wr = ''test.mp4'' \<and>
                 mf_written m' wr = map (\<lambda>j. capenc_sample (fst (env j)) (unat w) (unat h) j) [0..<100])"
proof -
  obtain ok g s1 where gs: "gdi_startup genv gdi_init s = (ok, g, s1)" by (metis prod.exhaust)
  have g: "ok" "gdi_ready g s1" "os_wf s1" "gdi_width g = w" "gdi_height g = h"
    using gdi_startup_success [OF wf dc dib, of gdi_init] gs sz by auto
  have refs1: "os_refs s1 = (\<lambda>h. os_refs s h + count_list (gdi_handles g) h)" "os_next s \<le> os_next s1"
    using gdi_startup_refs [OF wf gs] by (simp_all add: gdi_init_def)
  let ?sc1 = "session_init\<lparr>sc_mode := ScreenCaptureMode_GDI, sc_capgdi := Some g\<rparr>"
  have st: "sc_startup genv denv ScreenCaptureMode_GDI session_init s = (True, ?sc1, s1)"
    using gs g(1) by (simp add: sc_startup_def session_init_def)
  let ?e1 = "(encoder_init True True)\<lparr>m_encodingFormat := MFVideoFormat_H264\<rparr>"
  let ?m0 = "m\<lparr>mf_coinits := Suc (mf_coinits m), mf_startups := Suc (mf_startups m)\<rparr>"
  obtain scr denv' senv' aenv' where ev: "env 0 = (scr, denv', senv', aenv')" by (metis prod_cases4)
  have sk: "\<forall>k. senv' k = S_OK" and ak: "\<forall>k. aenv' k = S_OK" using senv aenv ev by (metis fst_conv snd_conv)+
  let ?n = "Suc (os_next s1)"
  obtain g1 s2 e2 m2 where f: "capenc_loop env fin (Suc 99) 0 0 0 ?sc1 s1 ?e1 ?m0 =
           capenc_loop env fin 99 1 1 (of_nat (1 * 333333)) (?sc1\<lparr>sc_capgdi := Some g1\<rparr>) s2 e2 m2"
      and f2: "gdi_ready g1 s2" "gdi_handles g1 = gdi_handles g" "gdi_width g1 = w" "gdi_height g1 = h" "os_wf s2"
        "os_refs s2 = (os_refs s1)(?n := 1)" "os_next s1 < os_next s2"
        "m_pSinkWriter e2 = Some ?n" "m_stream e2 = 0" "mf_writing m2 ?n"
        "m_width e2 = w" "m_height e2 = h" "m_frameDuration e2 = 333333"
        "length (m_pixels e2) = 4 * unat w * unat h" "m_doMFStartup e2" "m_doCoInitialize e2"
        "mf_url m2 ?n = outputFilename" "mf_startups m2 = mf_startups ?m0" "mf_coinits m2 = mf_coinits ?m0"
        "mf_written m2 ?n = [capenc_sample scr (unat w) (unat h) 0]"
    using capenc_first_iteration [where env = env and sc = ?sc1 and fin = fin and n = 99 and e = ?e1 and m = ?m0,
            OF ev sk ak _ g(2,3)] g(4,5) wd
    by (auto simp: session_init_def encoder_init_def)
  let ?sc2 = "?sc1\<lparr>sc_capgdi := Some g1\<rparr>"
  obtain sc' s3 e3 m3 where l: "capenc_loop env fin 99 1 1 (of_nat (1 * 333333)) ?sc2 s2 e2 m2 = Inr (True, 1 + 99, sc', s3, e3, m3)"
      and l1: "\<exists>g'. sc' = ?sc2\<lparr>sc_capgdi := Some g'\<rparr> \<and> gdi_ready g' s3 \<and> gdi_handles g' = gdi_handles g1 \<and>
                 gdi_width g' = gdi_width g1 \<and> gdi_height g' = gdi_height g1"
      and l2: "os_wf s3" "os_refs s3 = os_refs s2" "os_next s2 \<le> os_next s3"
        "m_pSinkWriter e3 = Some ?n" "mf_writing m3 ?n" "mf_url m3 = mf_url m2" "mf_finalized m3 = mf_finalized m2"
        "mf_startups m3 = mf_startups m2" "mf_coinits m3 = mf_coinits m2"
        "m_doMFStartup e3 = m_doMFStartup e2" "m_doCoInitialize e3 = m_doCoInitialize e2"
        "mf_written m3 ?n = mf_written m2 ?n @
           map (\<lambda>j. capenc_sample (fst (env j)) (unat (gdi_width g1)) (unat (gdi_height g1)) j) [1..<1 + 99]"
    using capenc_loop_gdi [OF aenv, where sc = ?sc2 and g = g1 and s = s2 and e = e2 and w = ?n and m = m2
            and nf = 1 and i = 1 and n = 99 and fin = fin] f2 wd
    by (simp, blast)
  obtain g' where g': "sc' = ?sc2\<lparr>sc_capgdi := Some g'\<rparr>" "gdi_ready g' s3" "gdi_handles g' = gdi_handles g"
    using l1 f2(2) by auto
  obtain gd' s4 where sd: "gdi_shutdown g' s3 = (gd', s4)" by (metis prod.exhaust)
  have s4: "os_refs s4 = (\<lambda>h. os_refs s3 h - count_list (gdi_handles g) h)"
    using gdi_shutdown_refs [OF gdi_ready_holds [OF g'(2)] sd] g'(3) by simp
  let ?sc3 = "sc'\<lparr>sc_capgdi := None, sc_capdx11 := None, sc_mode := ScreenCaptureMode_Invalid\<rparr>"
  have sh: "sc_shutdown sc' s3 = (?sc3, s4)" using sd g'(1) by (simp add: sc_shutdown_def session_init_def)
  let ?m4 = "m3\<lparr>mf_finalized := (mf_finalized m3)(?n := True), mf_writing := (mf_writing m3)(?n := False)\<rparr>"
  have stop: "Stop fin e3 s4 m3 = (True, e3\<lparr>m_pSinkWriter := None\<rparr>, os_release ?n s4, ?m4)"
    using l2(4,5) fin by (simp add: Stop_def Let_def)
  let ?m5 = "?m4\<lparr>mf_startups := mf_startups ?m4 - 1, mf_coinits := mf_coinits ?m4 - 1\<rparr>"
  have ex: "capenc_exit fin 0 100 ?sc3 (e3\<lparr>m_pSinkWriter := None\<rparr>) (os_release ?n s4) ?m4 =
              (0, 100, ?sc3, os_release ?n s4, ?m5)"
    using l2(10,11) f2(15,16) by (simp add: capenc_exit_def VideoFileEncoder_destroy_def Stop_def sc_shutdown_def)
  have main: "capenctest_main argv genv denv env fin s m = Inr (0, 100, ?sc3, os_release ?n s4, ?m5)"
    using argv st f l sh stop ex by (simp add: capenctest_main_def VideoFileEncoder_def SetEncodingFormat_def)
  have nh: "?n \<notin> set (gdi_handles g)"
    using gdi_owned_below [OF g(2,3)] by (fastforce simp: set_gdi_handles)
  have "os_refs (os_release ?n s4) = os_refs s"
    using refs_restore_writer [OF refs1(1) _ nh _ wf, of s3] l2(2) f2(6) refs1(2)
    by (simp add: refs_os_release_fun s4)
  moreover have "[0..<100] = 0 # [1..<1 + 99]" by (simp add: upt_rec)
  ultimately show ?thesis
    using main l2 f2 ev by (auto simp: outputFilename_def)
qed

theorem capenctest_gdi_records_screen_witness:
  "\<exists>sc' s' m'. capenctest_main [''capenctest'', ''gdi''] example_small_env example_dx_env
       (\<lambda>_. (example_screen, example_dx_env, \<lambda>_. S_OK, \<lambda>_. S_OK)) S_OK empty_os mf_init =
       Inr (0, 100, sc', s', m') \<and>
     os_refs s' = os_refs empty_os \<and> mf_startups m' = 0 \<and> mf_coinits m' = 0 \<and>
     (\<exists>wr. mf_finalized m' wr \<and> mf_url m' wr = ''test.mp4'' \<and>
           mf_written m' wr = map (\<lambda>j. capenc_sample example_screen 2 2 j) [0..<100])"
  using capenctest_gdi_records_screen [where argv = "[''capenctest'', ''gdi'']" and genv = example_small_env
      and denv = example_dx_env and env = "\<lambda>_. (example_screen, example_dx_env, \<lambda>_. S_OK, \<lambda>_. S_OK)"
      and fin = S_OK and s = empty_os and m = mf_init and w = 2 and h = 2]
  by (simp add: os_wf_empty_os example_small_env_def gdi_screen_size_def parse_mode_gdi SUCCEEDED_def mf_init_def)

end
